theory Spec2Isabelle
  imports Complex_Main
begin

section \<open>Conventions of the embedding\<close>

text \<open>
  The C++ sources under \<^verbatim>\<open>include/\<close> are embedded shallowly.

  \<^item> A C++ \<^verbatim>\<open>int\<close> is an \<^typ>\<open>int\<close>. The only place where the range of the machine
    integer decides behaviour is \<^verbatim>\<open>std::stoi\<close>, whose range check is written out.
  \<^item> A C++ \<^verbatim>\<open>double\<close> is a \<^typ>\<open>real\<close>: arithmetic and comparisons are the exact ones;
    rounding, infinities and NaN are outside the model.
  \<^item> A \<^verbatim>\<open>std::string\<close> is a \<^typ>\<open>string\<close>, compared as \<^verbatim>\<open>std::string\<close> compares: by
    the unsigned value of its bytes.
  \<^item> A thrown exception is a value of type \<open>error\<close>; a function that can throw returns a
    sum with \<open>Inl\<close> for the exception.
\<close>

datatype error =
    InvalidArgument string  \<comment> \<open>\<^verbatim>\<open>std::invalid_argument(msg)\<close>\<close>
  | OutOfRange              \<comment> \<open>\<^verbatim>\<open>std::out_of_range\<close>, from the standard library\<close>
  | RuntimeError string     \<comment> \<open>\<^verbatim>\<open>std::runtime_error(msg)\<close>\<close>

section \<open>Vehicle.hpp, CombustionVehicle.hpp, ElectricVehicle.hpp and the four variants\<close>

text \<open>
  \<^verbatim>\<open>enum class LicenceCategory { A, B, C }\<close> and \<^verbatim>\<open>enum class FuelType { Gasoline, Diesel }\<close>
  have the underlying type \<^verbatim>\<open>int\<close>; the loader builds them with \<^verbatim>\<open>static_cast\<close> from
  any integer of the file and the writer prints them with \<^verbatim>\<open>static_cast<int>\<close>, so a value
  of either enumeration is the integer it holds.
\<close>

type_synonym LicenceCategory = int
type_synonym FuelType = int

definition LicA :: LicenceCategory where "LicA = 0"
definition LicB :: LicenceCategory where "LicB = 1"
definition LicC :: LicenceCategory where "LicC = 2"
definition Gasoline :: FuelType where "Gasoline = 0"
definition Diesel :: FuelType where "Diesel = 1"

text \<open>
  The class hierarchy \<^verbatim>\<open>Vehicle\<close> / \<^verbatim>\<open>CombustionVehicle\<close>, \<^verbatim>\<open>ElectricVehicle\<close> /
  \<^verbatim>\<open>CombustionCar\<close>, \<^verbatim>\<open>Truck\<close>, \<^verbatim>\<open>Motorcycle\<close>, \<^verbatim>\<open>ElectricCar\<close>: the fields of the
  base class are the fields of the record, the dynamic type with its own fields is the
  field \<open>variant\<close>.
\<close>

datatype variant =
    CombustionCar (engineSize: int) (fuelConsumption: real) (fuelType: FuelType) (doors: int)
  | ElectricCar (batteryCapacity: real) (doors: int)
  | Truck (engineSize: int) (fuelConsumption: real) (fuelType: FuelType) (cargoCapacity: int)
  | Motorcycle (engineSize: int) (fuelConsumption: real) (fuelType: FuelType)

record vehicle =
  regNumber :: string
  brand :: string
  model :: string
  mileage :: real
  baseCost :: real
  licenceCat :: LicenceCategory
  variant :: variant

text \<open>\<^verbatim>\<open>Vehicle::Vehicle(reg, brandVal, modelVal, miles, cost, cat)\<close>: the four checks of its body,
  in their order. The result is the tuple of base-class fields.\<close>

definition Vehicle_ctor ::
  "string \<Rightarrow> string \<Rightarrow> string \<Rightarrow> real \<Rightarrow> real \<Rightarrow> LicenceCategory \<Rightarrow> error + unit" where
  "Vehicle_ctor reg brandVal modelVal miles cost cat =
    (if reg = [] then Inl (InvalidArgument ''Registration number cannot be empty.'')
     else if length reg > 9 then Inl (InvalidArgument ''Registration number cannot exceed 9 characters.'')
     else if brandVal = [] then Inl (InvalidArgument ''Brand cannot be empty.'')
     else if modelVal = [] then Inl (InvalidArgument ''Model cannot be empty.'')
     else Inr ())"

text \<open>\<^verbatim>\<open>CombustionVehicle::CombustionVehicle\<close>: the base constructor runs first, then the
  two checks of the body.\<close>

definition CombustionVehicle_ctor ::
  "string \<Rightarrow> string \<Rightarrow> string \<Rightarrow> real \<Rightarrow> real \<Rightarrow> LicenceCategory \<Rightarrow> int \<Rightarrow> real \<Rightarrow> FuelType
    \<Rightarrow> error + unit" where
  "CombustionVehicle_ctor reg br mo miles cost cat engine consumption fuel =
    (case Vehicle_ctor reg br mo miles cost cat of
       Inl e \<Rightarrow> Inl e
     | Inr _ \<Rightarrow>
         if engine \<le> 0 then Inl (InvalidArgument ''Engine size must be positive.'')
         else if consumption \<le> 0 then Inl (InvalidArgument ''Fuel consumption must be positive.'')
         else Inr ())"

text \<open>\<^verbatim>\<open>ElectricVehicle::ElectricVehicle\<close>.\<close>

definition ElectricVehicle_ctor ::
  "string \<Rightarrow> string \<Rightarrow> string \<Rightarrow> real \<Rightarrow> real \<Rightarrow> LicenceCategory \<Rightarrow> real \<Rightarrow> error + unit" where
  "ElectricVehicle_ctor reg br mo miles cost cat battery =
    (case Vehicle_ctor reg br mo miles cost cat of
       Inl e \<Rightarrow> Inl e
     | Inr _ \<Rightarrow>
         if battery \<le> 0 then Inl (InvalidArgument ''Battery capacity must be positive.'')
         else Inr ())"

definition mk_vehicle ::
  "string \<Rightarrow> string \<Rightarrow> string \<Rightarrow> real \<Rightarrow> real \<Rightarrow> LicenceCategory \<Rightarrow> variant \<Rightarrow> vehicle" where
  "mk_vehicle reg br mo miles cost cat k =
    \<lparr>regNumber = reg, brand = br, model = mo, mileage = miles, baseCost = cost,
     licenceCat = cat, variant = k\<rparr>"

text \<open>The constructors of the four concrete classes. A constructor that throws leaves no
  object behind: the result is the exception alone.\<close>

definition CombustionCar_ctor ::
  "string \<Rightarrow> string \<Rightarrow> string \<Rightarrow> real \<Rightarrow> real \<Rightarrow> LicenceCategory \<Rightarrow> int \<Rightarrow> real \<Rightarrow> FuelType \<Rightarrow> int
    \<Rightarrow> error + vehicle" where
  "CombustionCar_ctor reg br mo miles cost cat engine consumption fuel numDoors =
    (case CombustionVehicle_ctor reg br mo miles cost cat engine consumption fuel of
       Inl e \<Rightarrow> Inl e
     | Inr _ \<Rightarrow>
         if numDoors \<le> 0 then Inl (InvalidArgument ''Number of doors must be positive.'')
         else Inr (mk_vehicle reg br mo miles cost cat
                     (CombustionCar engine consumption fuel numDoors)))"

definition ElectricCar_ctor ::
  "string \<Rightarrow> string \<Rightarrow> string \<Rightarrow> real \<Rightarrow> real \<Rightarrow> LicenceCategory \<Rightarrow> real \<Rightarrow> int
    \<Rightarrow> error + vehicle" where
  "ElectricCar_ctor reg br mo miles cost cat battery numDoors =
    (case ElectricVehicle_ctor reg br mo miles cost cat battery of
       Inl e \<Rightarrow> Inl e
     | Inr _ \<Rightarrow>
         if numDoors \<le> 0 then Inl (InvalidArgument ''Number of doors must be positive.'')
         else Inr (mk_vehicle reg br mo miles cost cat (ElectricCar battery numDoors)))"

definition Truck_ctor ::
  "string \<Rightarrow> string \<Rightarrow> string \<Rightarrow> real \<Rightarrow> real \<Rightarrow> LicenceCategory \<Rightarrow> int \<Rightarrow> real \<Rightarrow> FuelType \<Rightarrow> int
    \<Rightarrow> error + vehicle" where
  "Truck_ctor reg br mo miles cost cat engine consumption fuel capacity =
    (case CombustionVehicle_ctor reg br mo miles cost cat engine consumption fuel of
       Inl e \<Rightarrow> Inl e
     | Inr _ \<Rightarrow>
         if capacity \<le> 0 then Inl (InvalidArgument ''Cargo capacity must be positive.'')
         else Inr (mk_vehicle reg br mo miles cost cat
                     (Truck engine consumption fuel capacity)))"

definition Motorcycle_ctor ::
  "string \<Rightarrow> string \<Rightarrow> string \<Rightarrow> real \<Rightarrow> real \<Rightarrow> LicenceCategory \<Rightarrow> int \<Rightarrow> real \<Rightarrow> FuelType
    \<Rightarrow> error + vehicle" where
  "Motorcycle_ctor reg br mo miles cost cat engine consumption fuel =
    (case CombustionVehicle_ctor reg br mo miles cost cat engine consumption fuel of
       Inl e \<Rightarrow> Inl e
     | Inr _ \<Rightarrow> Inr (mk_vehicle reg br mo miles cost cat (Motorcycle engine consumption fuel)))"

text \<open>The virtual \<^verbatim>\<open>calculateRentCost(int days)\<close>, dispatched on the dynamic type.\<close>

definition calculateRentCost :: "vehicle \<Rightarrow> int \<Rightarrow> error + real" where
  "calculateRentCost v days =
    (case variant v of
       CombustionCar _ _ _ _ \<Rightarrow>
         if days \<le> 0 then Inl (InvalidArgument ''Rental duration must be positive.'')
         else Inr (baseCost v * of_int days)
     | ElectricCar _ _ \<Rightarrow>
         if days \<le> 0 then Inr 0 else Inr (baseCost v * of_int days)
     | Truck _ _ _ cargo \<Rightarrow>
         if days \<le> 0 then Inr 0
         else Inr ((baseCost v * of_int days) + (of_int cargo * (1 / 10) * of_int days))
     | Motorcycle _ _ _ \<Rightarrow>
         if days \<le> 0 then Inl (InvalidArgument ''Rental duration must be positive.'')
         else Inr (baseCost v * of_int days))"

text \<open>\<^verbatim>\<open>Vehicle::setMileage\<close> and \<^verbatim>\<open>Vehicle::setBaseCost\<close>.\<close>

definition setMileage :: "vehicle \<Rightarrow> real \<Rightarrow> error + vehicle" where
  "setMileage v newMileage =
    (if newMileage < 0 then Inl (InvalidArgument ''Mileage cannot be negative.'')
     else if newMileage < mileage v
       then Inl (InvalidArgument ''New mileage cannot be lower than current mileage.'')
     else Inr (v\<lparr>mileage := newMileage\<rparr>))"

definition setBaseCost :: "vehicle \<Rightarrow> real \<Rightarrow> error + vehicle" where
  "setBaseCost v newCost =
    (if newCost \<le> 0 then Inl (InvalidArgument ''Base cost must be positive.'')
     else Inr (v\<lparr>baseCost := newCost\<rparr>))"

section \<open>Customer.hpp\<close>

datatype customer_variant =
    PrivateCustomer (idCardNumber: string)
  | BusinessCustomer (nip: string)

record customer =
  cid :: string        \<comment> \<open>the field \<^verbatim>\<open>id\<close>\<close>
  name :: string
  address :: string
  cvariant :: customer_variant

text \<open>\<^verbatim>\<open>Customer::Customer(idVal, nameVal, addrVal)\<close>.\<close>

definition Customer_ctor :: "string \<Rightarrow> string \<Rightarrow> string \<Rightarrow> error + unit" where
  "Customer_ctor idVal nameVal addrVal =
    (if idVal = [] then Inl (InvalidArgument ''ID cannot be empty.'')
     else if nameVal = [] then Inl (InvalidArgument ''Name cannot be empty.'')
     else if addrVal = [] then Inl (InvalidArgument ''Address cannot be empty.'')
     else Inr ())"

text \<open>\<^verbatim>\<open>PrivateCustomer(name, addr, idCard)\<close> and \<^verbatim>\<open>BusinessCustomer(name, addr, nipVal)\<close>:
  the third argument is also the \<^verbatim>\<open>id\<close> of the base class.\<close>

definition PrivateCustomer_ctor :: "string \<Rightarrow> string \<Rightarrow> string \<Rightarrow> error + customer" where
  "PrivateCustomer_ctor nm addr idCard =
    (case Customer_ctor idCard nm addr of
       Inl e \<Rightarrow> Inl e
     | Inr _ \<Rightarrow>
         if idCard = [] then Inl (InvalidArgument ''ID Card number cannot be empty.'')
         else Inr \<lparr>cid = idCard, name = nm, address = addr, cvariant = PrivateCustomer idCard\<rparr>)"

definition BusinessCustomer_ctor :: "string \<Rightarrow> string \<Rightarrow> string \<Rightarrow> error + customer" where
  "BusinessCustomer_ctor nm addr nipVal =
    (case Customer_ctor nipVal nm addr of
       Inl e \<Rightarrow> Inl e
     | Inr _ \<Rightarrow>
         if nipVal = [] then Inl (InvalidArgument ''NIP cannot be empty.'')
         else Inr \<lparr>cid = nipVal, name = nm, address = addr, cvariant = BusinessCustomer nipVal\<rparr>)"

section \<open>The standard library functions the sources call\<close>

text \<open>\<^verbatim>\<open>isdigit\<close> and \<^verbatim>\<open>isspace\<close> in the C locale.\<close>

definition isdigit :: "char \<Rightarrow> bool" where
  "isdigit c = (48 \<le> (of_char c :: nat) \<and> (of_char c :: nat) \<le> 57)"

definition isspace :: "char \<Rightarrow> bool" where
  "isspace c = ((of_char c :: nat) = 32 \<or> (9 \<le> (of_char c :: nat) \<and> (of_char c :: nat) \<le> 13))"

definition digit_val :: "char \<Rightarrow> int" where
  "digit_val c = int (of_char c) - 48"

text \<open>The value of a run of decimal digits, most significant first.\<close>

fun digits_val :: "int \<Rightarrow> string \<Rightarrow> int" where
  "digits_val acc [] = acc"
| "digits_val acc (c # cs) = digits_val (10 * acc + digit_val c) cs"

text \<open>
  \<^verbatim>\<open>std::stoi(str)\<close> (base 10, no position argument), as \<^verbatim>\<open>strtol\<close> reads: leading white
  space is skipped, one sign is optional, then the longest run of digits is converted and
  whatever follows is ignored. No digit: \<^verbatim>\<open>std::invalid_argument\<close>. A value outside the
  32-bit \<^verbatim>\<open>int\<close>: \<^verbatim>\<open>std::out_of_range\<close>.
\<close>

definition stoi :: "string \<Rightarrow> error + int" where
  "stoi str =
    (let t = dropWhile isspace str;
         neg = (t \<noteq> [] \<and> hd t = CHR ''-'');
         u = (if t \<noteq> [] \<and> (hd t = CHR ''-'' \<or> hd t = CHR ''+'') then tl t else t);
         ds = takeWhile isdigit u
     in if ds = [] then Inl (InvalidArgument ''stoi'')
        else let v = (if neg then - digits_val 0 ds else digits_val 0 ds)
             in if v < - 2147483648 \<or> 2147483647 < v then Inl OutOfRange else Inr v)"

text \<open>\<^verbatim>\<open>str.substr(pos, n)\<close>: throws when \<^verbatim>\<open>pos > size()\<close>, and is cut at the end of the
  string otherwise.\<close>

definition substr :: "string \<Rightarrow> nat \<Rightarrow> nat \<Rightarrow> error + string" where
  "substr str pos n = (if length str < pos then Inl OutOfRange else Inr (take n (drop pos str)))"

text \<open>\<^verbatim>\<open>operator<\<close> and \<^verbatim>\<open>operator<=\<close> of \<^verbatim>\<open>std::string\<close>: lexicographic, bytes compared as
  unsigned values, a proper prefix is smaller.\<close>

fun string_less :: "string \<Rightarrow> string \<Rightarrow> bool" where
  "string_less [] [] = False"
| "string_less [] (y # ys) = True"
| "string_less (x # xs) [] = False"
| "string_less (x # xs) (y # ys) =
     (if x = y then string_less xs ys else (of_char x :: nat) < of_char y)"

definition string_le :: "string \<Rightarrow> string \<Rightarrow> bool" where
  "string_le a b = (a = b \<or> string_less a b)"

section \<open>Rental.hpp\<close>

text \<open>\<^verbatim>\<open>year % 4 == 0\<close> tests divisibility, on which the truncating \<^verbatim>\<open>%\<close> of C++ and
  \<open>mod\<close> agree for every integer.\<close>

definition isLeapYear :: "int \<Rightarrow> bool" where
  "isLeapYear year = ((year mod 4 = 0 \<and> year mod 100 \<noteq> 0) \<or> year mod 400 = 0)"

definition days_table :: "int list" where
  "days_table = [31, 28, 31, 30, 31, 30, 31, 31, 30, 31, 30, 31]"

definition getDaysInMonth :: "int \<Rightarrow> int \<Rightarrow> int" where
  "getDaysInMonth month year =
    (if month < 1 \<or> month > 12 then 0
     else let d = days_table ! nat (month - 1)
          in if month = 2 \<and> isLeapYear year then d + 1 else d)"

text \<open>
  \<^verbatim>\<open>Rental::isValidDate\<close>. After the length check the indexed reads and the three
  \<^verbatim>\<open>substr\<close> calls are in range; \<^verbatim>\<open>stoi\<close> can still throw in the model, and the
  exception would leave the function, so the result is a sum.
\<close>

definition isValidDate :: "string \<Rightarrow> error + bool" where
  "isValidDate date =
    (if length date \<noteq> 10 then Inr False
     else if date ! 4 \<noteq> CHR ''-'' \<or> date ! 7 \<noteq> CHR ''-'' then Inr False
     else if \<not> list_all (\<lambda>i. i = 4 \<or> i = 7 \<or> isdigit (date ! i)) [0..<10] then Inr False
     else
       case substr date 0 4 of Inl e \<Rightarrow> Inl e | Inr ys \<Rightarrow>
       case stoi ys of Inl e \<Rightarrow> Inl e | Inr year \<Rightarrow>
       case substr date 5 2 of Inl e \<Rightarrow> Inl e | Inr ms \<Rightarrow>
       case stoi ms of Inl e \<Rightarrow> Inl e | Inr month \<Rightarrow>
       case substr date 8 2 of Inl e \<Rightarrow> Inl e | Inr dstr \<Rightarrow>
       case stoi dstr of Inl e \<Rightarrow> Inl e | Inr day \<Rightarrow>
         if month < 1 \<or> month > 12 then Inr False
         else if day < 1 \<or> day > getDaysInMonth month year then Inr False
         else Inr True)"

text \<open>A pointer is an address; \<^verbatim>\<open>nullptr\<close> is the address 0, which no object has.\<close>

type_synonym ptr = nat

definition nullptr :: ptr where "nullptr = 0"

record rental =
  vehicle_ptr :: ptr     \<comment> \<open>the field \<^verbatim>\<open>Vehicle* vehicle\<close>\<close>
  customer_ptr :: ptr    \<comment> \<open>the field \<^verbatim>\<open>Customer* customer\<close>\<close>
  startDate :: string
  endDate :: string

text \<open>\<^verbatim>\<open>Rental::Rental(v, c, start, end)\<close>.\<close>

definition Rental_ctor :: "ptr \<Rightarrow> ptr \<Rightarrow> string \<Rightarrow> string \<Rightarrow> error + rental" where
  "Rental_ctor v c start end' =
    (if v = nullptr then Inl (InvalidArgument ''Vehicle cannot be null.'')
     else if c = nullptr then Inl (InvalidArgument ''Customer cannot be null.'')
     else case isValidDate start of Inl e \<Rightarrow> Inl e | Inr okStart \<Rightarrow>
       if \<not> okStart then Inl (InvalidArgument ''Start date must be in format YYYY-MM-DD.'')
       else case isValidDate end' of Inl e \<Rightarrow> Inl e | Inr okEnd \<Rightarrow>
         if \<not> okEnd then Inl (InvalidArgument ''End date must be in format YYYY-MM-DD.'')
         else if string_le end' start
           then Inl (InvalidArgument ''End date must be later than start date.'')
         else Inr \<lparr>vehicle_ptr = v, customer_ptr = c, startDate = start, endDate = end'\<rparr>)"

text \<open>The two loops of \<^verbatim>\<open>Rental::countTotalDays\<close>, each as the recursion on its counter.\<close>

function years_loop :: "int \<Rightarrow> int \<Rightarrow> int \<Rightarrow> int" where
  "years_loop i y tot =
    (if i < y then years_loop (i + 1) y (tot + (if isLeapYear i then 366 else 365))
     else tot)"
  by pat_completeness auto
termination
  by (relation "measure (\<lambda>(i, y, tot). nat (y - i))") auto

function months_loop :: "int \<Rightarrow> int \<Rightarrow> int \<Rightarrow> int \<Rightarrow> int" where
  "months_loop i m y tot =
    (if i < m then months_loop (i + 1) m y (tot + getDaysInMonth i y) else tot)"
  by pat_completeness auto
termination
  by (relation "measure (\<lambda>(i, m, y, tot). nat (m - i))") auto

declare years_loop.simps [simp del]
declare months_loop.simps [simp del]

definition countTotalDays :: "string \<Rightarrow> error + int" where
  "countTotalDays date =
    (case substr date 0 4 of Inl e \<Rightarrow> Inl e | Inr ys \<Rightarrow>
     case stoi ys of Inl e \<Rightarrow> Inl e | Inr y \<Rightarrow>
     case substr date 5 2 of Inl e \<Rightarrow> Inl e | Inr ms \<Rightarrow>
     case stoi ms of Inl e \<Rightarrow> Inl e | Inr m \<Rightarrow>
     case substr date 8 2 of Inl e \<Rightarrow> Inl e | Inr dstr \<Rightarrow>
     case stoi dstr of Inl e \<Rightarrow> Inl e | Inr d \<Rightarrow>
       Inr (months_loop 1 m y (years_loop 1 y d)))"

text \<open>\<^verbatim>\<open>Rental::getRentalDays\<close>.\<close>

definition getRentalDays :: "rental \<Rightarrow> error + int" where
  "getRentalDays r =
    (if startDate r = [] \<or> endDate r = [] then Inr 0
     else case countTotalDays (startDate r) of Inl e \<Rightarrow> Inl e | Inr startTotal \<Rightarrow>
          case countTotalDays (endDate r) of Inl e \<Rightarrow> Inl e | Inr endTotal \<Rightarrow>
            let days = endTotal - startTotal in Inr (if days < 1 then 1 else days))"

section \<open>The calendar as the specification words it\<close>

text \<open>
  The definitions of this section follow the wording of the specification and share
  nothing with the functions of \<^verbatim>\<open>Rental.hpp\<close> above but \<open>isdigit\<close> and \<open>digit_val\<close>: the
  shape \<^verbatim>\<open>DDDD-DD-DD\<close>, the positional value of the digit groups, the Gregorian leap-year
  rule and the length of a month.
\<close>

definition year_of :: "string \<Rightarrow> int" where
  "year_of s = 1000 * digit_val (s ! 0) + 100 * digit_val (s ! 1) + 10 * digit_val (s ! 2) + digit_val (s ! 3)"
definition month_of :: "string \<Rightarrow> int" where
  "month_of s = 10 * digit_val (s ! 5) + digit_val (s ! 6)"
definition day_of :: "string \<Rightarrow> int" where
  "day_of s = 10 * digit_val (s ! 8) + digit_val (s ! 9)"

definition date_shape :: "string \<Rightarrow> bool" where
  "date_shape s =
    (length s = 10 \<and> s ! 4 = CHR ''-'' \<and> s ! 7 = CHR ''-'' \<and>
     list_all (\<lambda>i. isdigit (s ! i)) [0, 1, 2, 3, 5, 6, 8, 9])"

definition gregorian_leap :: "int \<Rightarrow> bool" where
  "gregorian_leap y = ((4 dvd y \<and> \<not> 100 dvd y) \<or> 400 dvd y)"

definition daysInMonth :: "int \<Rightarrow> int \<Rightarrow> int" where
  "daysInMonth m y =
    (if m = 2 then (if gregorian_leap y then 29 else 28)
     else if m = 4 \<or> m = 6 \<or> m = 9 \<or> m = 11 then 30 else 31)"

definition calendar_valid :: "string \<Rightarrow> bool" where
  "calendar_valid s =
    (date_shape s \<and> 1 \<le> month_of s \<and> month_of s \<le> 12 \<and>
     1 \<le> day_of s \<and> day_of s \<le> daysInMonth (month_of s) (year_of s))"

text \<open>
  The day counter of the specification: 365 or 366 for each complete year before the
  year, the days of each complete month before the month, and the day. The years of the
  calendar are those a valid date can have, 0000 to 9999, so the complete years before the
  year \<open>y\<close> are 0, ..., y - 1.
\<close>

definition daysSinceEpoch :: "int \<Rightarrow> int \<Rightarrow> int \<Rightarrow> int" where
  "daysSinceEpoch y m d =
    (\<Sum>i\<leftarrow>[0..y - 1]. if gregorian_leap i then 366 else 365) + (\<Sum>i\<leftarrow>[1..m - 1]. daysInMonth i y) + d"

section \<open>VehicleManager.hpp: the state and the operations\<close>

text \<open>
  The manager holds three vectors of raw pointers and the history. The objects the
  pointers address live on the heap: \<open>vheap\<close> and \<open>cheap\<close> map the address of every live
  \<^verbatim>\<open>Vehicle\<close> and \<^verbatim>\<open>Customer\<close> to the object, \<^verbatim>\<open>new\<close> takes the next unused address
  \<open>next_ptr\<close>, and \<^verbatim>\<open>delete\<close> removes the address from the map. A \<^verbatim>\<open>Rental\<close> is pointed to by
  the vector \<open>rentals\<close> alone and never changes, so the vector holds it by value; its two
  fields are pointers into \<open>vheap\<close> and \<open>cheap\<close>, as in the source.

  Reading through a pointer is \<open>vobj\<close> and \<open>cobj\<close>. Reading through a dangling pointer is
  undefined behaviour in C++ and unspecified here; \<open>wf_no_dangling\<close> below shows that no
  reachable state holds one.
\<close>

record manager =
  vheap :: "ptr \<rightharpoonup> vehicle"
  cheap :: "ptr \<rightharpoonup> customer"
  next_ptr :: ptr
  vehicles :: "ptr list"
  customers :: "ptr list"
  rentals :: "rental list"
  rentalHistory :: "string list"

definition init_manager :: manager where
  "init_manager =
    \<lparr>vheap = Map.empty, cheap = Map.empty, next_ptr = 1, vehicles = [], customers = [],
     rentals = [], rentalHistory = []\<rparr>"

definition vobj :: "manager \<Rightarrow> ptr \<Rightarrow> vehicle" where
  "vobj s p = the (vheap s p)"

definition cobj :: "manager \<Rightarrow> ptr \<Rightarrow> customer" where
  "cobj s p = the (cheap s p)"

text \<open>\<^verbatim>\<open>r->getVehicle()->getRegNumber()\<close> and \<^verbatim>\<open>r->getCustomer()->getId()\<close>.\<close>

definition rental_reg :: "manager \<Rightarrow> rental \<Rightarrow> string" where
  "rental_reg s r = regNumber (vobj s (vehicle_ptr r))"

definition rental_cid :: "manager \<Rightarrow> rental \<Rightarrow> string" where
  "rental_cid s r = cid (cobj s (customer_ptr r))"

definition isRegNumberUnique :: "manager \<Rightarrow> string \<Rightarrow> bool" where
  "isRegNumberUnique s reg = list_all (\<lambda>p. regNumber (vobj s p) \<noteq> reg) (vehicles s)"

definition isCustomerIdUnique :: "manager \<Rightarrow> string \<Rightarrow> bool" where
  "isCustomerIdUnique s i = list_all (\<lambda>p. cid (cobj s p) \<noteq> i) (customers s)"

text \<open>\<^verbatim>\<open>vehicles.push_back(v)\<close> and \<^verbatim>\<open>customers.push_back(c)\<close> for an object just built by
  \<^verbatim>\<open>new\<close>, which takes the next free address.\<close>

definition push_new_vehicle :: "manager \<Rightarrow> vehicle \<Rightarrow> manager" where
  "push_new_vehicle s obj =
    s\<lparr>vheap := (vheap s)(next_ptr s \<mapsto> obj), next_ptr := Suc (next_ptr s),
      vehicles := vehicles s @ [next_ptr s]\<rparr>"

definition push_new_customer :: "manager \<Rightarrow> customer \<Rightarrow> manager" where
  "push_new_customer s obj =
    s\<lparr>cheap := (cheap s)(next_ptr s \<mapsto> obj), next_ptr := Suc (next_ptr s),
      customers := customers s @ [next_ptr s]\<rparr>"

text \<open>
  \<^verbatim>\<open>addVehicle(Vehicle* v)\<close>. Every caller in the repository passes the result of a
  \<^verbatim>\<open>new\<close> expression, so the argument of the model is the object itself (\<open>None\<close> for
  \<^verbatim>\<open>nullptr\<close>) and the model allocates it where the manager takes ownership. An operation
  returns its result, or the exception, together with the state it leaves behind.
\<close>

definition addVehicle :: "manager \<Rightarrow> vehicle option \<Rightarrow> (error + unit) \<times> manager" where
  "addVehicle s v =
    (case v of
       None \<Rightarrow> (Inl (InvalidArgument ''Vehicle cannot be null.''), s)
     | Some obj \<Rightarrow>
         if \<not> isRegNumberUnique s (regNumber obj)
         then (Inl (InvalidArgument ''Vehicle with this registration number already exists.''), s)
         else (Inr (), push_new_vehicle s obj))"

text \<open>
  \<^verbatim>\<open>removeVehicle\<close>: the guard over the rentals, then \<^verbatim>\<open>std::remove_if\<close> with a predicate
  that deletes every vehicle of that registration, then \<^verbatim>\<open>erase\<close>, or the exception when
  nothing was removed.
\<close>

definition removeVehicle :: "manager \<Rightarrow> string \<Rightarrow> (error + unit) \<times> manager" where
  "removeVehicle s reg =
    (if list_ex (\<lambda>r. rental_reg s r = reg) (rentals s)
     then (Inl (InvalidArgument ''Cannot remove vehicle that is currently rented.''), s)
     else
       let gone = filter (\<lambda>p. regNumber (vobj s p) = reg) (vehicles s);
           kept = filter (\<lambda>p. regNumber (vobj s p) \<noteq> reg) (vehicles s)
       in if gone \<noteq> []
          then (Inr (), s\<lparr>vheap := vheap s |` (- set gone), vehicles := kept\<rparr>)
          else (Inl (InvalidArgument ''Vehicle not found.''), s))"

definition getVehicle :: "manager \<Rightarrow> string \<Rightarrow> ptr" where
  "getVehicle s reg =
    (case find (\<lambda>p. regNumber (vobj s p) = reg) (vehicles s) of
       None \<Rightarrow> nullptr
     | Some p \<Rightarrow> p)"

definition findVehiclesByBrand :: "manager \<Rightarrow> string \<Rightarrow> ptr list" where
  "findVehiclesByBrand s b = filter (\<lambda>p. brand (vobj s p) = b) (vehicles s)"

definition findVehiclesByPrice :: "manager \<Rightarrow> real \<Rightarrow> ptr list" where
  "findVehiclesByPrice s maxPrice = filter (\<lambda>p. baseCost (vobj s p) \<le> maxPrice) (vehicles s)"

text \<open>\<^verbatim>\<open>findAvailableVehicles\<close> compares the pointers: \<^verbatim>\<open>r->getVehicle() == v\<close>.\<close>

definition findAvailableVehicles :: "manager \<Rightarrow> ptr list" where
  "findAvailableVehicles s =
    filter (\<lambda>v. \<not> list_ex (\<lambda>r. vehicle_ptr r = v) (rentals s)) (vehicles s)"

definition addCustomer :: "manager \<Rightarrow> customer option \<Rightarrow> (error + unit) \<times> manager" where
  "addCustomer s c =
    (case c of
       None \<Rightarrow> (Inl (InvalidArgument ''Customer cannot be null.''), s)
     | Some obj \<Rightarrow>
         if \<not> isCustomerIdUnique s (cid obj)
         then (Inl (InvalidArgument ''Customer with this ID already exists.''), s)
         else (Inr (), push_new_customer s obj))"

definition removeCustomer :: "manager \<Rightarrow> string \<Rightarrow> (error + unit) \<times> manager" where
  "removeCustomer s i =
    (if list_ex (\<lambda>r. rental_cid s r = i) (rentals s)
     then (Inl (InvalidArgument ''Cannot remove customer who has active rentals.''), s)
     else
       let gone = filter (\<lambda>p. cid (cobj s p) = i) (customers s);
           kept = filter (\<lambda>p. cid (cobj s p) \<noteq> i) (customers s)
       in if gone \<noteq> []
          then (Inr (), s\<lparr>cheap := cheap s |` (- set gone), customers := kept\<rparr>)
          else (Inl (InvalidArgument ''Customer not found.''), s))"

definition getCustomer :: "manager \<Rightarrow> string \<Rightarrow> ptr" where
  "getCustomer s i =
    (case find (\<lambda>p. cid (cobj s p) = i) (customers s) of
       None \<Rightarrow> nullptr
     | Some p \<Rightarrow> p)"

text \<open>\<^verbatim>\<open>rentVehicle\<close>; the flag \<^verbatim>\<open>showMessage\<close> only prints and is left out.\<close>

definition rentVehicle ::
  "manager \<Rightarrow> string \<Rightarrow> string \<Rightarrow> string \<Rightarrow> string \<Rightarrow> (error + unit) \<times> manager" where
  "rentVehicle s reg customerId start end' =
    (let v = getVehicle s reg in
     if v = nullptr then (Inl (InvalidArgument ''Vehicle not found.''), s)
     else let c = getCustomer s customerId in
       if c = nullptr then (Inl (InvalidArgument ''Customer not found.''), s)
       else if list_ex (\<lambda>r. rental_reg s r = reg) (rentals s)
         then (Inl (InvalidArgument ''Vehicle is already rented.''), s)
       else case Rental_ctor v c start end' of
              Inl e \<Rightarrow> (Inl e, s)
            | Inr r \<Rightarrow> (Inr (), s\<lparr>rentals := rentals s @ [r]\<rparr>))"

text \<open>\<^verbatim>\<open>Rental::calculateTotalCost\<close>, reading the vehicle through the rental's pointer.\<close>

definition calculateTotalCost :: "manager \<Rightarrow> rental \<Rightarrow> error + real" where
  "calculateTotalCost s r =
    (if vehicle_ptr r = nullptr then Inr 0
     else case getRentalDays r of
            Inl e \<Rightarrow> Inl e
          | Inr days \<Rightarrow> calculateRentCost (vobj s (vehicle_ptr r)) days)"

text \<open>
  The text that \<^verbatim>\<open>operator<<\<close> writes for a \<^verbatim>\<open>double\<close> and the value \<^verbatim>\<open>std::stod\<close> reads are
  the standard library's; the model takes both as parameters.
\<close>

record stdlib =
  put_double :: "real \<Rightarrow> string"
  stod :: "string \<Rightarrow> error + real"

text \<open>The history line that \<^verbatim>\<open>returnVehicle\<close> builds in its \<^verbatim>\<open>stringstream\<close>.\<close>

definition history_line :: "stdlib \<Rightarrow> vehicle \<Rightarrow> customer \<Rightarrow> rental \<Rightarrow> real \<Rightarrow> string" where
  "history_line io v c r cost =
    brand v @ '' '' @ model v @ '' ('' @ regNumber v @ '');''
    @ name c @ '' ('' @ cid c @ '');''
    @ startDate r @ '';'' @ endDate r @ '';'' @ put_double io cost"

text \<open>
  \<^verbatim>\<open>returnVehicle\<close>: \<^verbatim>\<open>find_if\<close> for the first rental of the registration, \<^verbatim>\<open>setMileage\<close>
  through the rental's vehicle pointer, the cost, the history line, and \<^verbatim>\<open>erase\<close> of the
  rental found. An exception of \<^verbatim>\<open>calculateTotalCost\<close> would leave the new mileage behind.
\<close>

definition returnVehicle :: "stdlib \<Rightarrow> manager \<Rightarrow> string \<Rightarrow> real \<Rightarrow> (error + real) \<times> manager" where
  "returnVehicle io s reg newMileage =
    (case find (\<lambda>r. rental_reg s r = reg) (rentals s) of
       None \<Rightarrow> (Inl (InvalidArgument ''Rental not found for this vehicle.''), s)
     | Some r \<Rightarrow>
         (case setMileage (vobj s (vehicle_ptr r)) newMileage of
            Inl e \<Rightarrow> (Inl e, s)
          | Inr v' \<Rightarrow>
              let s1 = s\<lparr>vheap := (vheap s)(vehicle_ptr r \<mapsto> v')\<rparr> in
              (case calculateTotalCost s1 r of
                 Inl e \<Rightarrow> (Inl e, s1)
               | Inr cost \<Rightarrow>
                   (Inr cost,
                    s1\<lparr>rentalHistory := rentalHistory s1
                          @ [history_line io (vobj s1 (vehicle_ptr r)) (cobj s1 (customer_ptr r)) r cost],
                       rentals := remove1 r (rentals s1)\<rparr>))))"

section \<open>VehicleManager.hpp: persistence\<close>

text \<open>
  \<^verbatim>\<open>std::getline(stream, line, delim)\<close> on the characters that remain in the stream: it
  fails when nothing remains, and otherwise takes the characters before the first
  delimiter and drops the delimiter. The result is the line and what remains.
\<close>

definition getline_delim :: "char \<Rightarrow> string \<Rightarrow> (string \<times> string) option" where
  "getline_delim d s =
    (if s = [] then None
     else Some (takeWhile (\<lambda>c. c \<noteq> d) s, drop 1 (dropWhile (\<lambda>c. c \<noteq> d) s)))"

definition newline :: char where
  "newline = CHR 0x0A"

definition semicolon :: char where
  "semicolon = CHR '';''"

lemma getline_delim_shorter:
  "getline_delim d s = Some (seg, rest) \<Longrightarrow> length rest < length s"
  using length_dropWhile_le[of "\<lambda>c. c \<noteq> d" s]
  by (cases s) (auto simp: getline_delim_def split: if_splits)

text \<open>\<^verbatim>\<open>while (std::getline(ss, segment, ';')) parts.push_back(segment);\<close>\<close>

function split_segments :: "string \<Rightarrow> string list" where
  "split_segments s =
    (case getline_delim semicolon s of
       None \<Rightarrow> []
     | Some (seg, rest) \<Rightarrow> seg # split_segments rest)"
  by pat_completeness auto
termination
  by (relation "measure length") (auto simp: getline_delim_shorter)

declare split_segments.simps [simp del]

definition bindE :: "error + 'a \<Rightarrow> ('a \<Rightarrow> error + 'b) \<Rightarrow> error + 'b" where
  "bindE m f = (case m of Inl e \<Rightarrow> Inl e | Inr x \<Rightarrow> f x)"

text \<open>
  The body of the \<^verbatim>\<open>try\<close> block that builds a vehicle from the fields of a line. \<open>Inl\<close> is
  any exception of \<^verbatim>\<open>stoi\<close>, \<^verbatim>\<open>stod\<close> or a constructor; \<open>Inr None\<close> is the pointer left
  \<^verbatim>\<open>nullptr\<close> because no branch matched. The list \<open>parts\<close> is not empty here.
\<close>

definition parse_vehicle :: "stdlib \<Rightarrow> string list \<Rightarrow> error + vehicle option" where
  "parse_vehicle io parts =
    (if parts ! 0 = ''CombustionCar'' \<and> 11 \<le> length parts then
       bindE (stoi (parts ! 7)) (\<lambda>fuel.
       bindE (stoi (parts ! 8)) (\<lambda>cat.
       bindE (stod io (parts ! 9)) (\<lambda>miles.
       bindE (stod io (parts ! 4)) (\<lambda>cost.
       bindE (stoi (parts ! 5)) (\<lambda>engine.
       bindE (stod io (parts ! 6)) (\<lambda>consumption.
       bindE (stoi (parts ! 10)) (\<lambda>numDoors.
       bindE (CombustionCar_ctor (parts ! 3) (parts ! 1) (parts ! 2) miles cost cat
                engine consumption fuel numDoors) (\<lambda>v. Inr (Some v)))))))))
     else if parts ! 0 = ''ElectricCar'' \<and> 9 \<le> length parts then
       bindE (stoi (parts ! 6)) (\<lambda>cat.
       bindE (stod io (parts ! 7)) (\<lambda>miles.
       bindE (stod io (parts ! 4)) (\<lambda>cost.
       bindE (stod io (parts ! 5)) (\<lambda>battery.
       bindE (stoi (parts ! 8)) (\<lambda>numDoors.
       bindE (ElectricCar_ctor (parts ! 3) (parts ! 1) (parts ! 2) miles cost cat
                battery numDoors) (\<lambda>v. Inr (Some v)))))))
     else if parts ! 0 = ''Truck'' \<and> 11 \<le> length parts then
       bindE (stoi (parts ! 7)) (\<lambda>fuel.
       bindE (stoi (parts ! 8)) (\<lambda>cat.
       bindE (stod io (parts ! 9)) (\<lambda>miles.
       bindE (stod io (parts ! 4)) (\<lambda>cost.
       bindE (stoi (parts ! 5)) (\<lambda>engine.
       bindE (stod io (parts ! 6)) (\<lambda>consumption.
       bindE (stoi (parts ! 10)) (\<lambda>capacity.
       bindE (Truck_ctor (parts ! 3) (parts ! 1) (parts ! 2) miles cost cat
                engine consumption fuel capacity) (\<lambda>v. Inr (Some v)))))))))
     else if parts ! 0 = ''Motorcycle'' \<and> 10 \<le> length parts then
       bindE (stoi (parts ! 7)) (\<lambda>fuel.
       bindE (stoi (parts ! 8)) (\<lambda>cat.
       bindE (stod io (parts ! 9)) (\<lambda>miles.
       bindE (stod io (parts ! 4)) (\<lambda>cost.
       bindE (stoi (parts ! 5)) (\<lambda>engine.
       bindE (stod io (parts ! 6)) (\<lambda>consumption.
       bindE (Motorcycle_ctor (parts ! 3) (parts ! 1) (parts ! 2) miles cost cat
                engine consumption fuel) (\<lambda>v. Inr (Some v))))))))
     else Inr None)"

definition parse_customer :: "string list \<Rightarrow> error + customer option" where
  "parse_customer parts =
    (if parts ! 0 = ''PrivateCustomer'' then
       (if 4 \<le> length parts
        then bindE (PrivateCustomer_ctor (parts ! 1) (parts ! 2) (parts ! 3)) (\<lambda>c. Inr (Some c))
        else Inr None)
     else if parts ! 0 = ''BusinessCustomer'' then
       (if 4 \<le> length parts
        then bindE (BusinessCustomer_ctor (parts ! 1) (parts ! 2) (parts ! 3)) (\<lambda>c. Inr (Some c))
        else Inr None)
     else Inr None)"

text \<open>
  The four loops of \<^verbatim>\<open>loadFromFile\<close>, by recursion on the iterations left. Each takes the
  rest of the file and returns what it left of it. A failed \<^verbatim>\<open>getline\<close> ends the first
  three loops (\<^verbatim>\<open>break\<close>); an empty or short line and an exception inside \<^verbatim>\<open>try\<close> skip the
  line.
\<close>

fun load_vehicles :: "stdlib \<Rightarrow> nat \<Rightarrow> string \<Rightarrow> manager \<Rightarrow> string \<times> manager" where
  "load_vehicles io 0 file s = (file, s)"
| "load_vehicles io (Suc n) file s =
    (case getline_delim newline file of
       None \<Rightarrow> (file, s)
     | Some (line, rest) \<Rightarrow>
         let parts = split_segments line in
         if parts = [] then load_vehicles io n rest s
         else case parse_vehicle io parts of
                Inr (Some v) \<Rightarrow> load_vehicles io n rest (push_new_vehicle s v)
              | _ \<Rightarrow> load_vehicles io n rest s)"

fun load_customers :: "nat \<Rightarrow> string \<Rightarrow> manager \<Rightarrow> string \<times> manager" where
  "load_customers 0 file s = (file, s)"
| "load_customers (Suc n) file s =
    (case getline_delim newline file of
       None \<Rightarrow> (file, s)
     | Some (line, rest) \<Rightarrow>
         let parts = split_segments line in
         if parts = [] then load_customers n rest s
         else case parse_customer parts of
                Inr (Some c) \<Rightarrow> load_customers n rest (push_new_customer s c)
              | _ \<Rightarrow> load_customers n rest s)"

text \<open>The rentals are replayed by \<open>rentVehicle\<close>; \<^verbatim>\<open>catch (...) {}\<close> keeps whatever state the
  call left and goes on.\<close>

fun load_rentals :: "nat \<Rightarrow> string \<Rightarrow> manager \<Rightarrow> string \<times> manager" where
  "load_rentals 0 file s = (file, s)"
| "load_rentals (Suc n) file s =
    (case getline_delim newline file of
       None \<Rightarrow> (file, s)
     | Some (line, rest) \<Rightarrow>
         let parts = split_segments line in
         if length parts < 4 then load_rentals n rest s
         else load_rentals n rest
                (snd (rentVehicle s (parts ! 0) (parts ! 1) (parts ! 2) (parts ! 3))))"

fun load_history :: "nat \<Rightarrow> string \<Rightarrow> manager \<Rightarrow> string \<times> manager" where
  "load_history 0 file s = (file, s)"
| "load_history (Suc n) file s =
    (case getline_delim newline file of
       None \<Rightarrow> load_history n file s
     | Some (line, rest) \<Rightarrow>
         load_history n rest (s\<lparr>rentalHistory := rentalHistory s @ [line]\<rparr>))"

text \<open>\<^verbatim>\<open>int n = 0; if (std::getline(file, line)) n = std::stoi(line);\<close> The exception of
  \<^verbatim>\<open>stoi\<close> is not caught in \<^verbatim>\<open>loadFromFile\<close>.\<close>

definition read_count :: "string \<Rightarrow> error + (int \<times> string)" where
  "read_count file =
    (case getline_delim newline file of
       None \<Rightarrow> Inr (0, file)
     | Some (line, rest) \<Rightarrow> bindE (stoi line) (\<lambda>n. Inr (n, rest)))"

text \<open>The three loops under \<^verbatim>\<open>// Clear existing\<close>.\<close>

definition clear_existing :: "manager \<Rightarrow> manager" where
  "clear_existing s =
    s\<lparr>rentals := [],
      vheap := vheap s |` (- set (vehicles s)), vehicles := [],
      cheap := cheap s |` (- set (customers s)), customers := []\<rparr>"

text \<open>
  \<^verbatim>\<open>loadFromFile\<close>. The argument is the content of the file, or \<open>None\<close> when the file
  cannot be opened. The result carries the state in which the function returned or threw.
\<close>

definition loadFromFile :: "stdlib \<Rightarrow> string option \<Rightarrow> manager \<Rightarrow> (error + unit) \<times> manager" where
  "loadFromFile io content s =
    (case content of
       None \<Rightarrow> (Inr (), s)
     | Some file \<Rightarrow>
         let s0 = clear_existing s in
         case read_count file of Inl e \<Rightarrow> (Inl e, s0) | Inr (vCount, f1) \<Rightarrow>
         case load_vehicles io (nat vCount) f1 s0 of (f2, s1) \<Rightarrow>
         case read_count f2 of Inl e \<Rightarrow> (Inl e, s1) | Inr (cCount, f3) \<Rightarrow>
         case load_customers (nat cCount) f3 s1 of (f4, s2) \<Rightarrow>
         case read_count f4 of Inl e \<Rightarrow> (Inl e, s2) | Inr (rCount, f5) \<Rightarrow>
         case load_rentals (nat rCount) f5 s2 of (f6, s3) \<Rightarrow>
         case read_count f6 of Inl e \<Rightarrow> (Inl e, s3) | Inr (hCount, f7) \<Rightarrow>
         case load_history (nat hCount) f7 (s3\<lparr>rentalHistory := []\<rparr>) of (f8, s4) \<Rightarrow>
           (Inr (), s4))"

text \<open>The decimal text that \<^verbatim>\<open>operator<<\<close> writes for a \<^verbatim>\<open>size_t\<close> and for an \<^verbatim>\<open>int\<close>.\<close>

definition digit_char :: "nat \<Rightarrow> char" where
  "digit_char n = char_of (48 + n)"

function put_nat :: "nat \<Rightarrow> string" where
  "put_nat n = (if n < 10 then [digit_char n] else put_nat (n div 10) @ [digit_char (n mod 10)])"
  by pat_completeness auto
termination
  by (relation "measure id") auto

declare put_nat.simps [simp del]

definition put_int :: "int \<Rightarrow> string" where
  "put_int i = (if i < 0 then CHR ''-'' # put_nat (nat (- i)) else put_nat (nat i))"

text \<open>The line of a vehicle, of a customer and of a rental in \<^verbatim>\<open>saveToFile\<close>; the chain of
  \<^verbatim>\<open>dynamic_cast\<close> is the case distinction on the variant.\<close>

definition vehicle_line :: "stdlib \<Rightarrow> vehicle \<Rightarrow> string" where
  "vehicle_line io v =
    (case variant v of
       CombustionCar engine consumption fuel numDoors \<Rightarrow>
         ''CombustionCar;'' @ brand v @ '';'' @ model v @ '';'' @ regNumber v @ '';''
         @ put_double io (baseCost v) @ '';'' @ put_int engine @ '';''
         @ put_double io consumption @ '';'' @ put_int fuel @ '';''
         @ put_int (licenceCat v) @ '';'' @ put_double io (mileage v) @ '';''
         @ put_int numDoors @ [newline]
     | ElectricCar battery numDoors \<Rightarrow>
         ''ElectricCar;'' @ brand v @ '';'' @ model v @ '';'' @ regNumber v @ '';''
         @ put_double io (baseCost v) @ '';'' @ put_double io battery @ '';''
         @ put_int (licenceCat v) @ '';'' @ put_double io (mileage v) @ '';''
         @ put_int numDoors @ [newline]
     | Truck engine consumption fuel capacity \<Rightarrow>
         ''Truck;'' @ brand v @ '';'' @ model v @ '';'' @ regNumber v @ '';''
         @ put_double io (baseCost v) @ '';'' @ put_int engine @ '';''
         @ put_double io consumption @ '';'' @ put_int fuel @ '';''
         @ put_int (licenceCat v) @ '';'' @ put_double io (mileage v) @ '';''
         @ put_int capacity @ [newline]
     | Motorcycle engine consumption fuel \<Rightarrow>
         ''Motorcycle;'' @ brand v @ '';'' @ model v @ '';'' @ regNumber v @ '';''
         @ put_double io (baseCost v) @ '';'' @ put_int engine @ '';''
         @ put_double io consumption @ '';'' @ put_int fuel @ '';''
         @ put_int (licenceCat v) @ '';'' @ put_double io (mileage v) @ [newline])"

definition customer_line :: "customer \<Rightarrow> string" where
  "customer_line c =
    (case cvariant c of
       PrivateCustomer idCard \<Rightarrow>
         ''PrivateCustomer;'' @ name c @ '';'' @ address c @ '';'' @ idCard @ [newline]
     | BusinessCustomer nipVal \<Rightarrow>
         ''BusinessCustomer;'' @ name c @ '';'' @ address c @ '';'' @ nipVal @ [newline])"

definition rental_line :: "manager \<Rightarrow> rental \<Rightarrow> string" where
  "rental_line s r =
    rental_reg s r @ '';'' @ rental_cid s r @ '';'' @ startDate r @ '';'' @ endDate r @ [newline]"

text \<open>
  \<^verbatim>\<open>saveToFile\<close>: the content written, or the exception when the file cannot be opened
  (\<open>can_open\<close> is what \<^verbatim>\<open>file.is_open()\<close> returns).
\<close>

definition saveToFile :: "stdlib \<Rightarrow> bool \<Rightarrow> manager \<Rightarrow> error + string" where
  "saveToFile io can_open s =
    (if \<not> can_open then Inl (RuntimeError ''Could not open file for saving.'')
     else Inr (
       put_nat (length (vehicles s)) @ [newline]
       @ concat (map (\<lambda>p. vehicle_line io (vobj s p)) (vehicles s))
       @ put_nat (length (customers s)) @ [newline]
       @ concat (map (\<lambda>p. customer_line (cobj s p)) (customers s))
       @ put_nat (length (rentals s)) @ [newline]
       @ concat (map (rental_line s) (rentals s))
       @ put_nat (length (rentalHistory s)) @ [newline]
       @ concat (map (\<lambda>h. h @ [newline]) (rentalHistory s))))"

section \<open>The states the public operations reach\<close>

datatype command =
    AddVehicle "vehicle option"
  | RemoveVehicle string
  | AddCustomer "customer option"
  | RemoveCustomer string
  | RentVehicle string string string string
  | ReturnVehicle string real
  | LoadFromFile "string option"

text \<open>The state a call leaves behind, whether it returned or threw. The read-only
  operations (the finders, the displays, \<open>saveToFile\<close>) leave the state as it is.\<close>

fun exec :: "stdlib \<Rightarrow> command \<Rightarrow> manager \<Rightarrow> manager" where
  "exec io (AddVehicle v) s = snd (addVehicle s v)"
| "exec io (RemoveVehicle reg) s = snd (removeVehicle s reg)"
| "exec io (AddCustomer c) s = snd (addCustomer s c)"
| "exec io (RemoveCustomer i) s = snd (removeCustomer s i)"
| "exec io (RentVehicle reg i a b) s = snd (rentVehicle s reg i a b)"
| "exec io (ReturnVehicle reg m) s = snd (returnVehicle io s reg m)"
| "exec io (LoadFromFile content) s = snd (loadFromFile io content s)"

inductive reachable :: "stdlib \<Rightarrow> manager \<Rightarrow> bool" for io :: stdlib where
  reachable_init: "reachable io init_manager"
| reachable_step: "reachable io s \<Longrightarrow> reachable io (exec io c s)"

text \<open>
  The invariant of the reachable states: the next free address is not null; the pointers
  of each vector are distinct, not null, below the next free address and address live
  objects; a rental points to a vehicle
  and a customer of the vectors and holds two valid dates, the end after the start; and no two rentals are for the
  same registration.
\<close>

definition wf :: "manager \<Rightarrow> bool" where
  "wf s =
    (nullptr < next_ptr s \<and> distinct (vehicles s) \<and> distinct (customers s)
     \<and> list_all (\<lambda>p. vheap s p \<noteq> None \<and> p \<noteq> nullptr \<and> p < next_ptr s) (vehicles s)
     \<and> list_all (\<lambda>p. cheap s p \<noteq> None \<and> p \<noteq> nullptr \<and> p < next_ptr s) (customers s)
     \<and> list_all (\<lambda>r. vehicle_ptr r \<in> set (vehicles s) \<and> customer_ptr r \<in> set (customers s)
                     \<and> calendar_valid (startDate r) \<and> calendar_valid (endDate r)
          \<and> \<not> string_le (endDate r) (startDate r)) (rentals s)
     \<and> distinct (map (rental_reg s) (rentals s)))"


definition reg_rented :: "manager \<Rightarrow> string \<Rightarrow> bool" where
  "reg_rented s reg = list_ex (\<lambda>r. rental_reg s r = reg) (rentals s)"

definition customer_renting :: "manager \<Rightarrow> string \<Rightarrow> bool" where
  "customer_renting s i = list_ex (\<lambda>r. rental_cid s r = i) (rentals s)"

section \<open>A small fleet, for the concrete instances of the theorems\<close>

text \<open>
  The standard library on the few numbers of the examples: \<^verbatim>\<open>operator<<\<close> writes them and
  \<^verbatim>\<open>std::stod\<close> reads them as below.
\<close>

definition ex_io :: stdlib where
  "ex_io =
    \<lparr>put_double = (\<lambda>x. if x = 100 then ''100'' else if x = 300 then ''300''
                        else if x = 1000 then ''1000'' else if x = 1500 then ''1500''
                        else if x = 5.5 then ''5.5'' else ''0''),
     stod = (\<lambda>str. if str = ''100'' then Inr 100 else if str = ''300'' then Inr 300
                    else if str = ''1000'' then Inr 1000 else if str = ''1500'' then Inr 1500
                    else if str = ''5.5'' then Inr 5.5 else if str = ''0'' then Inr 0
                    else Inl (InvalidArgument ''stod''))\<rparr>"

definition ex_car :: vehicle where
  "ex_car = mk_vehicle ''KR12345'' ''Fiat'' ''Panda'' 1000 100 LicB (CombustionCar 1200 5.5 Gasoline 4)"

definition ex_customer :: customer where
  "ex_customer =
    \<lparr>cid = ''ABC123'', name = ''Jan Kowalski'', address = ''Krakow'',
     cvariant = PrivateCustomer ''ABC123''\<rparr>"

definition ex_rental :: rental where
  "ex_rental = \<lparr>vehicle_ptr = 1, customer_ptr = 2, startDate = ''2024-01-01'', endDate = ''2024-01-04''\<rparr>"

text \<open>One car and one customer; then the car rented for three days; then returned.\<close>

definition ex_ready :: manager where
  "ex_ready = exec ex_io (AddCustomer (Some ex_customer)) (exec ex_io (AddVehicle (Some ex_car)) init_manager)"

definition ex_rented :: manager where
  "ex_rented = exec ex_io (RentVehicle ''KR12345'' ''ABC123'' ''2024-01-01'' ''2024-01-04'') ex_ready"

definition ex_returned :: manager where
  "ex_returned = exec ex_io (ReturnVehicle ''KR12345'' 1500) ex_rented"

section \<open>Loading, as the specification words it\<close>

text \<open>
  The definitions of this section describe \<^verbatim>\<open>loadFromFile\<close> by its phases over the list of
  the lines of the file, to be compared with the loops over the stream above.

  The lines of a file, as successive calls of \<^verbatim>\<open>getline\<close> read them.
\<close>

function file_lines :: "string \<Rightarrow> string list" where
  "file_lines f =
    (case getline_delim newline f of
       None \<Rightarrow> []
     | Some (line, rest) \<Rightarrow> line # file_lines rest)"
  by pat_completeness auto
termination
  by (relation "measure length") (auto simp: getline_delim_shorter)

declare file_lines.simps [simp del]

text \<open>A section of the file: the line with the count, and that many of the lines after it
  (fewer when the file ends). No line at all is a count of 0; a count line that \<^verbatim>\<open>stoi\<close>
  does not read is the exception.\<close>

definition take_section :: "string list \<Rightarrow> error + (string list \<times> string list)" where
  "take_section ls =
    (case ls of
       [] \<Rightarrow> Inr ([], [])
     | l # rest \<Rightarrow> bindE (stoi l) (\<lambda>n. Inr (take (nat n) rest, drop (nat n) rest)))"

text \<open>What one line of a section does: a vehicle or a customer line adds the object it
  describes or is skipped; a rental line is replayed through \<open>rentVehicle\<close> and skipped when
  it is short or \<open>rentVehicle\<close> throws.\<close>

definition load_vehicle_line :: "stdlib \<Rightarrow> manager \<Rightarrow> string \<Rightarrow> manager" where
  "load_vehicle_line io s line =
    (let parts = split_segments line in
     if parts = [] then s
     else case parse_vehicle io parts of
            Inr (Some v) \<Rightarrow> push_new_vehicle s v
          | _ \<Rightarrow> s)"

definition load_customer_line :: "manager \<Rightarrow> string \<Rightarrow> manager" where
  "load_customer_line s line =
    (let parts = split_segments line in
     if parts = [] then s
     else case parse_customer parts of
            Inr (Some c) \<Rightarrow> push_new_customer s c
          | _ \<Rightarrow> s)"

definition replay_rental :: "manager \<Rightarrow> string \<Rightarrow> manager" where
  "replay_rental s line =
    (let parts = split_segments line in
     if length parts < 4 then s
     else case rentVehicle s (parts ! 0) (parts ! 1) (parts ! 2) (parts ! 3) of
            (Inr u, s') \<Rightarrow> s'
          | (Inl e, s') \<Rightarrow> s)"

text \<open>
  The phases: clear the vehicles, the customers and the rentals; read the vehicles, then
  the customers; replay the rentals; then replace the history by the lines of the last
  section. An exception of a count line leaves the function with the state reached.
\<close>

definition load_phases :: "stdlib \<Rightarrow> string list \<Rightarrow> manager \<Rightarrow> (error + unit) \<times> manager" where
  "load_phases io ls s =
    (let s0 = clear_existing s in
     case take_section ls of Inl e \<Rightarrow> (Inl e, s0) | Inr (vs, l1) \<Rightarrow>
     let s1 = foldl (load_vehicle_line io) s0 vs in
     case take_section l1 of Inl e \<Rightarrow> (Inl e, s1) | Inr (cs, l2) \<Rightarrow>
     let s2 = foldl load_customer_line s1 cs in
     case take_section l2 of Inl e \<Rightarrow> (Inl e, s2) | Inr (rs, l3) \<Rightarrow>
     let s3 = foldl replay_rental s2 rs in
     case take_section l3 of Inl e \<Rightarrow> (Inl e, s3) | Inr (hs, l4) \<Rightarrow>
       (Inr (), s3\<lparr>rentalHistory := hs\<rparr>))"

section \<open>What a saved state must satisfy to be read back\<close>

text \<open>
  The file format has no escaping and relies on the text of the numbers. A field can be
  read back when it is not empty and holds neither the separator nor a line break; a
  \<^verbatim>\<open>double\<close> when the text that \<^verbatim>\<open>operator<<\<close> writes for it is such a field and \<^verbatim>\<open>stod\<close>
  reads the same value from it; an integer of the model when it is a 32-bit \<^verbatim>\<open>int\<close>.
\<close>

definition field_ok :: "string \<Rightarrow> bool" where
  "field_ok str = (str \<noteq> [] \<and> semicolon \<notin> set str \<and> newline \<notin> set str)"

definition int_ok :: "int \<Rightarrow> bool" where
  "int_ok i = (- 2147483648 \<le> i \<and> i \<le> 2147483647)"

definition double_ok :: "stdlib \<Rightarrow> real \<Rightarrow> bool" where
  "double_ok io x = (field_ok (put_double io x) \<and> stod io (put_double io x) = Inr x)"

text \<open>A vehicle and a customer that their constructors accept and whose fields can be read
  back.\<close>

definition vehicle_storable :: "stdlib \<Rightarrow> vehicle \<Rightarrow> bool" where
  "vehicle_storable io v =
    (field_ok (brand v) \<and> field_ok (model v) \<and> field_ok (regNumber v)
     \<and> length (regNumber v) \<le> 9
     \<and> double_ok io (baseCost v) \<and> double_ok io (mileage v) \<and> int_ok (licenceCat v)
     \<and> (case variant v of
           CombustionCar engine consumption fuel numDoors \<Rightarrow>
             0 < engine \<and> int_ok engine \<and> 0 < consumption \<and> double_ok io consumption
             \<and> int_ok fuel \<and> 0 < numDoors \<and> int_ok numDoors
         | ElectricCar battery numDoors \<Rightarrow>
             0 < battery \<and> double_ok io battery \<and> 0 < numDoors \<and> int_ok numDoors
         | Truck engine consumption fuel capacity \<Rightarrow>
             0 < engine \<and> int_ok engine \<and> 0 < consumption \<and> double_ok io consumption
             \<and> int_ok fuel \<and> 0 < capacity \<and> int_ok capacity
         | Motorcycle engine consumption fuel \<Rightarrow>
             0 < engine \<and> int_ok engine \<and> 0 < consumption \<and> double_ok io consumption
             \<and> int_ok fuel))"

definition customer_storable :: "customer \<Rightarrow> bool" where
  "customer_storable c =
    (field_ok (name c) \<and> field_ok (address c) \<and> field_ok (cid c)
     \<and> (case cvariant c of
           PrivateCustomer idCard \<Rightarrow> idCard = cid c
         | BusinessCustomer nipVal \<Rightarrow> nipVal = cid c))"

text \<open>A state of such vehicles and customers, with unique registrations and ids, history
  lines without a line break, and collection sizes that \<^verbatim>\<open>stoi\<close> reads back.\<close>

definition storable :: "stdlib \<Rightarrow> manager \<Rightarrow> bool" where
  "storable io s =
    (list_all (\<lambda>p. vehicle_storable io (vobj s p)) (vehicles s)
     \<and> list_all (\<lambda>p. customer_storable (cobj s p)) (customers s)
     \<and> distinct (map (\<lambda>p. regNumber (vobj s p)) (vehicles s))
     \<and> distinct (map (\<lambda>p. cid (cobj s p)) (customers s))
     \<and> list_all (\<lambda>h. newline \<notin> set h) (rentalHistory s)
     \<and> length (vehicles s) < 2147483648 \<and> length (customers s) < 2147483648
     \<and> length (rentals s) < 2147483648 \<and> length (rentalHistory s) < 2147483648)"

text \<open>The content of a state by field equality: the objects of the two vectors in their
  order, and each rental with the vehicle and the customer it points to.\<close>

definition vehicle_list :: "manager \<Rightarrow> vehicle list" where
  "vehicle_list s = map (vobj s) (vehicles s)"

definition customer_list :: "manager \<Rightarrow> customer list" where
  "customer_list s = map (cobj s) (customers s)"

definition rental_list :: "manager \<Rightarrow> (vehicle \<times> customer \<times> string \<times> string) list" where
  "rental_list s =
    map (\<lambda>r. (vobj s (vehicle_ptr r), cobj s (customer_ptr r), startDate r, endDate r)) (rentals s)"

text \<open>The fields of the saved lines, and fields joined by the separator.\<close>

fun join_fields :: "string list \<Rightarrow> string" where
  "join_fields [] = []"
| "join_fields [x] = x"
| "join_fields (x # y # ys) = x @ semicolon # join_fields (y # ys)"

definition vehicle_fields :: "stdlib \<Rightarrow> vehicle \<Rightarrow> string list" where
  "vehicle_fields io v =
    (case variant v of
       CombustionCar engine consumption fuel numDoors \<Rightarrow>
         [''CombustionCar'', brand v, model v, regNumber v, put_double io (baseCost v),
          put_int engine, put_double io consumption, put_int fuel, put_int (licenceCat v),
          put_double io (mileage v), put_int numDoors]
     | ElectricCar battery numDoors \<Rightarrow>
         [''ElectricCar'', brand v, model v, regNumber v, put_double io (baseCost v),
          put_double io battery, put_int (licenceCat v), put_double io (mileage v),
          put_int numDoors]
     | Truck engine consumption fuel capacity \<Rightarrow>
         [''Truck'', brand v, model v, regNumber v, put_double io (baseCost v),
          put_int engine, put_double io consumption, put_int fuel, put_int (licenceCat v),
          put_double io (mileage v), put_int capacity]
     | Motorcycle engine consumption fuel \<Rightarrow>
         [''Motorcycle'', brand v, model v, regNumber v, put_double io (baseCost v),
          put_int engine, put_double io consumption, put_int fuel, put_int (licenceCat v),
          put_double io (mileage v)])"

definition customer_fields :: "customer \<Rightarrow> string list" where
  "customer_fields c =
    (case cvariant c of
       PrivateCustomer idCard \<Rightarrow> [''PrivateCustomer'', name c, address c, idCard]
     | BusinessCustomer nipVal \<Rightarrow> [''BusinessCustomer'', name c, address c, nipVal])"

definition rental_fields :: "manager \<Rightarrow> rental \<Rightarrow> string list" where
  "rental_fields s r = [rental_reg s r, rental_cid s r, startDate r, endDate r]"

text \<open>A file with the small fleet, its one rental, and a second rental line for the car
  that is already rented; and a customer whose name holds the separator.\<close>

definition ex_file :: string where
  "ex_file = ''1\<newline>CombustionCar;Fiat;Panda;KR12345;100;1200;5.5;0;1;1000;4\<newline>1\<newline>PrivateCustomer;Jan Kowalski;Krakow;ABC123\<newline>2\<newline>KR12345;ABC123;2024-01-01;2024-01-04\<newline>KR12345;ABC123;2024-02-01;2024-02-02\<newline>0\<newline>''"


definition ex_semicolon_customer :: customer where
  "ex_semicolon_customer =
    \<lparr>cid = ''ID1'', name = ''A;B'', address = ''Krakow'', cvariant = PrivateCustomer ''ID1''\<rparr>"

definition ex_semicolon :: manager where
  "ex_semicolon = exec ex_io (AddCustomer (Some ex_semicolon_customer)) init_manager"

definition ex_semicolon_file :: string where
  "ex_semicolon_file = ''0\<newline>1\<newline>PrivateCustomer;A;B;Krakow;ID1\<newline>0\<newline>0\<newline>''"

section \<open>Facts about the standard library model and the date functions\<close>

lemma isdigit_not_isspace: "isdigit c \<Longrightarrow> \<not> isspace c"
  by (auto simp: isdigit_def isspace_def)

lemma isdigit_not_sign: "isdigit c \<Longrightarrow> c \<noteq> CHR ''-'' \<and> c \<noteq> CHR ''+''"
  by (auto simp: isdigit_def)

lemma digit_val_range: "isdigit c \<Longrightarrow> 0 \<le> digit_val c \<and> digit_val c \<le> 9"
  by (auto simp: isdigit_def digit_val_def)

lemma stoi_digits4:
  assumes "isdigit a" "isdigit b" "isdigit c" "isdigit d"
  shows "stoi [a, b, c, d] = Inr (1000 * digit_val a + 100 * digit_val b + 10 * digit_val c + digit_val d)"
  using assms digit_val_range[of a] digit_val_range[of b] digit_val_range[of c] digit_val_range[of d]
    isdigit_not_sign[of a]
  by (simp add: stoi_def isdigit_not_isspace Let_def)

lemma stoi_digits2:
  assumes "isdigit a" "isdigit b"
  shows "stoi [a, b] = Inr (10 * digit_val a + digit_val b)"
  using assms digit_val_range[of a] digit_val_range[of b] isdigit_not_sign[of a]
  by (simp add: stoi_def isdigit_not_isspace Let_def)

lemma length10:
  "length s = 10 \<Longrightarrow> \<exists>c0 c1 c2 c3 c4 c5 c6 c7 c8 c9. s = [c0, c1, c2, c3, c4, c5, c6, c7, c8, c9]"
  by (auto simp: length_Suc_conv eval_nat_numeral)

lemma leap_eq: "isLeapYear y = gregorian_leap y"
  by (simp add: isLeapYear_def gregorian_leap_def dvd_eq_mod_eq_0)

lemma getDaysInMonth_eq:
  "1 \<le> m \<Longrightarrow> m \<le> 12 \<Longrightarrow> getDaysInMonth m y = daysInMonth m y"
proof -
  assume "1 \<le> m" "m \<le> 12"
  then have "m = 1 \<or> m = 2 \<or> m = 3 \<or> m = 4 \<or> m = 5 \<or> m = 6 \<or> m = 7 \<or> m = 8 \<or> m = 9
    \<or> m = 10 \<or> m = 11 \<or> m = 12" by arith
  then show ?thesis
    by (auto simp: getDaysInMonth_def daysInMonth_def days_table_def leap_eq)
qed


lemma isValidDate_shape:
  assumes "date_shape s"
  shows "isValidDate s = Inr (1 \<le> month_of s \<and> month_of s \<le> 12 \<and>
     1 \<le> day_of s \<and> day_of s \<le> daysInMonth (month_of s) (year_of s))"
proof -
  from assms have len: "length s = 10" by (simp add: date_shape_def)
  then obtain c0 c1 c2 c3 c4 c5 c6 c7 c8 c9 where s: "s = [c0, c1, c2, c3, c4, c5, c6, c7, c8, c9]"
    using length10[of s] by auto
  from assms s have d: "isdigit c0" "isdigit c1" "isdigit c2" "isdigit c3" "isdigit c5" "isdigit c6"
    "isdigit c8" "isdigit c9" and dash: "c4 = CHR ''-''" "c7 = CHR ''-''"
    by (simp_all add: date_shape_def)
  have all: "list_all (\<lambda>i. i = 4 \<or> i = 7 \<or> isdigit (s ! i)) [0..<10]"
    using d by (simp add: s upt_rec)
  have y: "stoi [c0, c1, c2, c3] = Inr (year_of s)"
    using d by (simp add: stoi_digits4 year_of_def s)
  have m: "stoi [c5, c6] = Inr (month_of s)"
    using d by (simp add: stoi_digits2 month_of_def s)
  have dd: "stoi [c8, c9] = Inr (day_of s)"
    using d by (simp add: stoi_digits2 day_of_def s)
  have sub: "substr s 0 4 = Inr [c0, c1, c2, c3]" "substr s 5 2 = Inr [c5, c6]"
    "substr s 8 2 = Inr [c8, c9]"
    by (simp_all add: substr_def s)
  have dash': "s ! 4 = CHR ''-''" "s ! 7 = CHR ''-''" using dash by (simp_all add: s)
  show ?thesis
    unfolding isValidDate_def
    using getDaysInMonth_eq[of "month_of s" "year_of s"]
    by (auto simp add: len all sub y m dd dash')
qed

lemma isValidDate_not_shape:
  assumes "\<not> date_shape s"
  shows "isValidDate s = Inr False"
proof (cases "length s = 10")
  case False
  then show ?thesis by (simp add: isValidDate_def)
next
  case True
  then obtain c0 c1 c2 c3 c4 c5 c6 c7 c8 c9 where s: "s = [c0, c1, c2, c3, c4, c5, c6, c7, c8, c9]"
    using length10[of s] by auto
  have "list_all (\<lambda>i. i = 4 \<or> i = 7 \<or> isdigit (s ! i)) [0..<10]
     = list_all (\<lambda>i. isdigit (s ! i)) [0, 1, 2, 3, 5, 6, 8, 9]"
    by (simp add: s upt_rec)
  with assms True show ?thesis
    by (auto simp add: isValidDate_def date_shape_def)
qed

lemma isValidDate_iff: "isValidDate s = Inr (calendar_valid s)"
  by (cases "date_shape s") (simp_all add: isValidDate_shape isValidDate_not_shape calendar_valid_def)

lemma years_loop_sum:
  "years_loop i y t = t + (\<Sum>k\<leftarrow>[i..y - 1]. if gregorian_leap k then 366 else 365)"
proof (induction i y t rule: years_loop.induct)
  case (1 i y t)
  show ?case
  proof (cases "i < y")
    case True
    then have "[i..y - 1] = i # [i + 1..y - 1]" by (simp add: upto_rec1)
    with True "1" show ?thesis
      by (subst years_loop.simps) (simp add: leap_eq)
  next
    case False
    then show ?thesis by (subst years_loop.simps) simp
  qed
qed

lemma months_loop_sum:
  "1 \<le> i \<Longrightarrow> m \<le> 13 \<Longrightarrow> months_loop i m y t = t + (\<Sum>k\<leftarrow>[i..m - 1]. daysInMonth k y)"
proof (induction i m y t rule: months_loop.induct)
  case (1 i m y t)
  show ?case
  proof (cases "i < m")
    case True
    then have "[i..m - 1] = i # [i + 1..m - 1]" by (simp add: upto_rec1)
    with True "1" show ?thesis
      by (subst months_loop.simps) (simp add: getDaysInMonth_eq)
  next
    case False
    then show ?thesis by (subst months_loop.simps) simp
  qed
qed

text \<open>The loop of \<^verbatim>\<open>countTotalDays\<close> over the years starts at 1: it counts the years the
  specification counts but the year 0000, a leap year of 366 days.\<close>

lemma years_from_zero:
  "(\<Sum>i\<leftarrow>[0..y - 1]. if gregorian_leap i then 366 else 365)
     = (if 1 \<le> y then 366 else 0) + (\<Sum>i\<leftarrow>[1..y - 1]. if gregorian_leap i then 366 else (365::int))"
proof (cases "1 \<le> y")
  case True
  then have "[0..y - 1] = 0 # [1..y - 1]" by (simp add: upto_rec1)
  with True show ?thesis by (simp add: gregorian_leap_def)
next
  case False
  then show ?thesis by simp
qed

lemma year_of_nonneg: "date_shape s \<Longrightarrow> 0 \<le> year_of s"
proof -
  assume "date_shape s"
  then have "isdigit (s ! 0)" "isdigit (s ! 1)" "isdigit (s ! 2)" "isdigit (s ! 3)"
    by (simp_all add: date_shape_def)
  from this[THEN digit_val_range] show ?thesis by (simp add: year_of_def)
qed

lemma countTotalDays_shape:
  assumes "date_shape s" "1 \<le> month_of s" "month_of s \<le> 12"
  shows "countTotalDays s
    = Inr (daysSinceEpoch (year_of s) (month_of s) (day_of s) - (if year_of s = 0 then 0 else 366))"
proof -
  from assms have len: "length s = 10" by (simp add: date_shape_def)
  then obtain c0 c1 c2 c3 c4 c5 c6 c7 c8 c9 where s: "s = [c0, c1, c2, c3, c4, c5, c6, c7, c8, c9]"
    using length10[of s] by auto
  from assms s have d: "isdigit c0" "isdigit c1" "isdigit c2" "isdigit c3" "isdigit c5" "isdigit c6"
    "isdigit c8" "isdigit c9"
    by (simp_all add: date_shape_def)
  have y: "stoi [c0, c1, c2, c3] = Inr (year_of s)"
    using d by (simp add: stoi_digits4 year_of_def s)
  have m: "stoi [c5, c6] = Inr (month_of s)"
    using d by (simp add: stoi_digits2 month_of_def s)
  have dd: "stoi [c8, c9] = Inr (day_of s)"
    using d by (simp add: stoi_digits2 day_of_def s)
  have sub: "substr s 0 4 = Inr [c0, c1, c2, c3]" "substr s 5 2 = Inr [c5, c6]"
    "substr s 8 2 = Inr [c8, c9]"
    by (simp_all add: substr_def s)
  show ?thesis
    using assms(2,3) year_of_nonneg[OF assms(1)]
    by (simp add: countTotalDays_def sub y m dd years_loop_sum months_loop_sum daysSinceEpoch_def
        years_from_zero)
qed

lemma Rental_ctor_Inr:
  assumes "Rental_ctor v c s e = Inr r"
  shows "calendar_valid s \<and> calendar_valid e \<and> \<not> string_le e s \<and> v \<noteq> nullptr \<and> c \<noteq> nullptr
    \<and> r = \<lparr>vehicle_ptr = v, customer_ptr = c, startDate = s, endDate = e\<rparr>"
  using assms by (auto simp: Rental_ctor_def isValidDate_iff split: if_splits)

lemma countTotalDays_valid:
  "calendar_valid s \<Longrightarrow> countTotalDays s
    = Inr (daysSinceEpoch (year_of s) (month_of s) (day_of s) - (if year_of s = 0 then 0 else 366))"
  by (simp add: calendar_valid_def countTotalDays_shape)

text \<open>The dates a rental is constructed with are ordered as strings, so their years are
  ordered.\<close>

lemma year_order:
  assumes "date_shape s" "date_shape e" "\<not> string_le e s"
  shows "year_of s \<le> year_of e"
proof -
  from assms(1) obtain c0 c1 c2 c3 c4 c5 c6 c7 c8 c9 where s: "s = [c0, c1, c2, c3, c4, c5, c6, c7, c8, c9]"
    using length10[of s] by (auto simp: date_shape_def)
  from assms(2) obtain d0 d1 d2 d3 d4 d5 d6 d7 d8 d9 where e: "e = [d0, d1, d2, d3, d4, d5, d6, d7, d8, d9]"
    using length10[of e] by (auto simp: date_shape_def)
  from assms(1) s have c: "isdigit c0" "isdigit c1" "isdigit c2" "isdigit c3"
    by (simp_all add: date_shape_def)
  from assms(2) e have d: "isdigit d0" "isdigit d1" "isdigit d2" "isdigit d3"
    by (simp_all add: date_shape_def)
  note r = c[THEN digit_val_range] d[THEN digit_val_range]
  from assms(3) have n: "\<not> string_less [d0, d1, d2, d3] [c0, c1, c2, c3] \<or> (d0 = c0 \<and> d1 = c1 \<and> d2 = c2 \<and> d3 = c3)"
    by (auto simp: string_le_def s e split: if_splits)
  have o: "\<And>x y. isdigit x \<Longrightarrow> isdigit y \<Longrightarrow> x \<noteq> y \<Longrightarrow> \<not> (of_char x :: nat) < of_char y \<Longrightarrow> digit_val y < digit_val x"
  proof -
    fix x y :: char
    assume "x \<noteq> y" "\<not> (of_char x :: nat) < of_char y"
    moreover from \<open>x \<noteq> y\<close> have "(of_char x :: nat) \<noteq> of_char y" by simp
    ultimately show "digit_val y < digit_val x" unfolding digit_val_def by linarith
  qed
  show ?thesis
  proof (cases "d0 = c0 \<and> d1 = c1 \<and> d2 = c2 \<and> d3 = c3")
    case True
    then show ?thesis by (simp add: year_of_def s e)
  next
    case False
    with n have nl: "\<not> string_less [d0, d1, d2, d3] [c0, c1, c2, c3]" by blast
    show ?thesis
    proof (cases "d0 = c0")
      case False
      with nl have "\<not> (of_char d0 :: nat) < of_char c0" by simp
      from o[OF d(1) c(1) False this] r show ?thesis by (simp add: year_of_def s e)
    next
      case a: True
      show ?thesis
      proof (cases "d1 = c1")
        case False
        with nl a have "\<not> (of_char d1 :: nat) < of_char c1" by simp
        from o[OF d(2) c(2) False this] r a show ?thesis by (simp add: year_of_def s e)
      next
        case b: True
        show ?thesis
        proof (cases "d2 = c2")
          case False
          with nl a b have "\<not> (of_char d2 :: nat) < of_char c2" by simp
          from o[OF d(3) c(3) False this] r a b show ?thesis by (simp add: year_of_def s e)
        next
          case cc: True
          with \<open>\<not> (d0 = c0 \<and> d1 = c1 \<and> d2 = c2 \<and> d3 = c3)\<close> a b have f: "d3 \<noteq> c3" by simp
          with nl a b cc have "\<not> (of_char d3 :: nat) < of_char c3" by simp
          from o[OF d(4) c(4) f this] r a b cc show ?thesis by (simp add: year_of_def s e)
        qed
      qed
    qed
  qed
qed

lemma calendar_valid_nonempty: "calendar_valid s \<Longrightarrow> s \<noteq> []"
  by (auto simp: calendar_valid_def date_shape_def)

section \<open>Rental cost of the four variants\<close>

text \<open>
  Claim C1. For every vehicle and every integer \<open>days\<close>: a combustion car and a motorcycle
  throw when \<open>days \<le> 0\<close> and cost \<open>baseCost * days\<close> otherwise; an electric car costs 0 when
  \<open>days \<le> 0\<close> and \<open>baseCost * days\<close> otherwise; a truck costs 0 when \<open>days \<le> 0\<close> and
  \<open>baseCost * days + cargoCapacity * 0.1 * days\<close> otherwise. A truck with base cost 100 and
  cargo capacity 50 costs 210 for 2 days, a combustion car with base cost 100 costs 300 for
  3 days and throws for 0 days, an electric car costs 0 for 0 days.
\<close>

theorem calculateRentCost_variants:
  "calculateRentCost (v\<lparr>variant := CombustionCar e f t d\<rparr>) days =
     (if days \<le> 0 then Inl (InvalidArgument ''Rental duration must be positive.'')
      else Inr (baseCost v * of_int days))
   \<and> calculateRentCost (v\<lparr>variant := Motorcycle e f t\<rparr>) days =
     (if days \<le> 0 then Inl (InvalidArgument ''Rental duration must be positive.'')
      else Inr (baseCost v * of_int days))
   \<and> calculateRentCost (v\<lparr>variant := ElectricCar b d\<rparr>) days =
     (if days \<le> 0 then Inr 0 else Inr (baseCost v * of_int days))
   \<and> calculateRentCost (v\<lparr>variant := Truck e f t c\<rparr>) days =
     (if days \<le> 0 then Inr 0
      else Inr (baseCost v * of_int days + of_int c * 0.1 * of_int days))
   \<and> calculateRentCost (v\<lparr>baseCost := 100, variant := Truck e f t 50\<rparr>) 2 = Inr 210
   \<and> calculateRentCost (v\<lparr>baseCost := 100, variant := CombustionCar e f t d\<rparr>) 3 = Inr 300
   \<and> (\<exists>err. calculateRentCost (v\<lparr>baseCost := 100, variant := CombustionCar e f t d\<rparr>) 0 = Inl err)
   \<and> calculateRentCost (v\<lparr>variant := ElectricCar b d\<rparr>) 0 = Inr 0"
  by (simp add: calculateRentCost_def)

section \<open>Validation in the constructors\<close>

text \<open>
  What the constructors do reject: an empty registration, brand or model, a registration
  of more than 9 characters, and a non-positive engine size, fuel consumption, battery
  capacity, door count or cargo capacity. The rejected call returns the exception and no
  object.
\<close>

lemma Vehicle_ctor_rejects:
  "reg = [] \<or> 9 < length reg \<or> br = [] \<or> mo = [] \<Longrightarrow> \<exists>e. Vehicle_ctor reg br mo miles cost cat = Inl e"
  by (auto simp: Vehicle_ctor_def)

lemma CombustionCar_ctor_rejects:
  "reg = [] \<or> 9 < length reg \<or> br = [] \<or> mo = [] \<or> engine \<le> 0 \<or> consumption \<le> 0 \<or> numDoors \<le> 0
    \<Longrightarrow> \<exists>e. CombustionCar_ctor reg br mo miles cost cat engine consumption fuel numDoors = Inl e"
  by (auto simp: CombustionCar_ctor_def CombustionVehicle_ctor_def Vehicle_ctor_def)

lemma ElectricCar_ctor_rejects:
  "reg = [] \<or> 9 < length reg \<or> br = [] \<or> mo = [] \<or> battery \<le> 0 \<or> numDoors \<le> 0
    \<Longrightarrow> \<exists>e. ElectricCar_ctor reg br mo miles cost cat battery numDoors = Inl e"
  by (auto simp: ElectricCar_ctor_def ElectricVehicle_ctor_def Vehicle_ctor_def)

lemma Truck_ctor_rejects:
  "reg = [] \<or> 9 < length reg \<or> br = [] \<or> mo = [] \<or> engine \<le> 0 \<or> consumption \<le> 0 \<or> capacity \<le> 0
    \<Longrightarrow> \<exists>e. Truck_ctor reg br mo miles cost cat engine consumption fuel capacity = Inl e"
  by (auto simp: Truck_ctor_def CombustionVehicle_ctor_def Vehicle_ctor_def)

lemma Motorcycle_ctor_rejects:
  "reg = [] \<or> 9 < length reg \<or> br = [] \<or> mo = [] \<or> engine \<le> 0 \<or> consumption \<le> 0
    \<Longrightarrow> \<exists>e. Motorcycle_ctor reg br mo miles cost cat engine consumption fuel = Inl e"
  by (auto simp: Motorcycle_ctor_def CombustionVehicle_ctor_def Vehicle_ctor_def)

text \<open>
  Claim C2 says that every constructor also rejects a base daily cost \<open>\<le> 0\<close> and a negative
  mileage. \<^verbatim>\<open>Vehicle::Vehicle\<close> stores both unchecked, although \<^verbatim>\<open>setBaseCost\<close> throws
  ``Base cost must be positive.'' and \<^verbatim>\<open>setMileage\<close> throws ``Mileage cannot be negative.''
  for the same values. The theorem runs the constructors there: a combustion car with
  base cost 0 is constructed, a motorcycle with mileage -5 and base cost -1 is
  constructed, and the two setters refuse these values on the constructed object.
\<close>

theorem ctor_accepts_nonpositive_cost:
  "CombustionCar_ctor ''WX12345'' ''Fiat'' ''Panda'' 0 0 LicB 1200 5.5 Gasoline 4
     = Inr (mk_vehicle ''WX12345'' ''Fiat'' ''Panda'' 0 0 LicB (CombustionCar 1200 5.5 Gasoline 4))
   \<and> Motorcycle_ctor ''WX12345'' ''Honda'' ''CB'' (- 5) (- 1) LicA 600 4 Gasoline
     = Inr (mk_vehicle ''WX12345'' ''Honda'' ''CB'' (- 5) (- 1) LicA (Motorcycle 600 4 Gasoline))
   \<and> setBaseCost (mk_vehicle ''WX12345'' ''Fiat'' ''Panda'' 0 100 LicB (CombustionCar 1200 5.5 Gasoline 4)) 0
     = Inl (InvalidArgument ''Base cost must be positive.'')
   \<and> setMileage (mk_vehicle ''WX12345'' ''Honda'' ''CB'' 0 100 LicA (Motorcycle 600 4 Gasoline)) (- 5)
     = Inl (InvalidArgument ''Mileage cannot be negative.'')"
  by (simp add: CombustionCar_ctor_def CombustionVehicle_ctor_def Vehicle_ctor_def setBaseCost_def
      Motorcycle_ctor_def setMileage_def)

section \<open>Date validation\<close>

text \<open>
  Claim C5. For every string \<open>s\<close>, \<^verbatim>\<open>isValidDate\<close> returns (without throwing) whether \<open>s\<close>
  has the shape \<^verbatim>\<open>DDDD-DD-DD\<close>, its month is in 1..12 and its day is in 1..daysInMonth under
  the Gregorian leap-year rule. \<^verbatim>\<open>2024-02-29\<close> is valid; \<^verbatim>\<open>2023-02-29\<close>, \<^verbatim>\<open>2024-13-01\<close> and
  \<^verbatim>\<open>2024-02-30\<close> are not.
\<close>

theorem isValidDate_calendar:
  "(\<forall>s. isValidDate s = Inr (calendar_valid s))
   \<and> isValidDate ''2024-02-29'' = Inr True
   \<and> isValidDate ''2023-02-29'' = Inr False
   \<and> isValidDate ''2024-13-01'' = Inr False
   \<and> isValidDate ''2024-02-30'' = Inr False"
proof -
  have "isValidDate ''2024-02-29'' = Inr True" by code_simp
  moreover have "isValidDate ''2023-02-29'' = Inr False" by code_simp
  moreover have "isValidDate ''2024-13-01'' = Inr False" by code_simp
  moreover have "isValidDate ''2024-02-30'' = Inr False" by code_simp
  ultimately show ?thesis by (simp add: isValidDate_iff)
qed

text \<open>The general statement of \<open>isValidDate_calendar\<close> at two concrete strings: a leap day that
  the specification's predicate accepts, and a string of the wrong shape that it refuses.\<close>

theorem isValidDate_calendar_witness:
  "calendar_valid ''2024-02-29'' \<and> isValidDate ''2024-02-29'' = Inr True
   \<and> \<not> calendar_valid ''2024-2-29'' \<and> isValidDate ''2024-2-29'' = Inr False"
proof -
  have a: "calendar_valid ''2024-02-29''" by code_simp
  have b: "\<not> calendar_valid ''2024-2-29''" by code_simp
  from isValidDate_calendar have "\<forall>s. isValidDate s = Inr (calendar_valid s)" by blast
  with a b show ?thesis by simp
qed

section \<open>Rental duration\<close>

text \<open>
  Claim C6 says that a rental whose end date is \<open>\<le>\<close> its start date as strings is rejected by
  the constructor, and that the duration of a constructed rental is
  \<open>max 1 (daysSinceEpoch end - daysSinceEpoch start)\<close>, where \<open>daysSinceEpoch\<close> is the sum of
  365 or 366 for each complete year before the year, the days of each complete month
  before the month, and the day. The rejection holds. The duration is that of the claim
  when the start date is not of the year 0000 or both dates are; \<^verbatim>\<open>countTotalDays\<close> leaves
  out the year 0000, which \<^verbatim>\<open>isValidDate\<close> accepts, so for a rental that starts in the year
  0000 and ends in a later year \<^verbatim>\<open>getRentalDays\<close> is 366 days short of the claim's
  duration: from \<^verbatim>\<open>0000-01-01\<close> to \<^verbatim>\<open>0002-01-01\<close> it returns 365, and the claim's duration is
  731.
\<close>

theorem Rental_duration:
  "(string_le e s \<longrightarrow> (\<exists>err. Rental_ctor v c s e = Inl err))
   \<and> (Rental_ctor v c s e = Inr r \<and> (1 \<le> year_of s \<or> year_of e = 0) \<longrightarrow>
        getRentalDays r = Inr (max 1 (daysSinceEpoch (year_of e) (month_of e) (day_of e)
                                     - daysSinceEpoch (year_of s) (month_of s) (day_of s))))
   \<and> (Rental_ctor v c s e = Inr r \<and> year_of s = 0 \<and> 1 \<le> year_of e \<longrightarrow>
        getRentalDays r = Inr (max 1 (daysSinceEpoch (year_of e) (month_of e) (day_of e)
                                     - daysSinceEpoch (year_of s) (month_of s) (day_of s) - 366)))
   \<and> Rental_ctor 1 1 ''0000-01-01'' ''0002-01-01''
       = Inr \<lparr>vehicle_ptr = 1, customer_ptr = 1, startDate = ''0000-01-01'', endDate = ''0002-01-01''\<rparr>
   \<and> getRentalDays \<lparr>vehicle_ptr = 1, customer_ptr = 1, startDate = ''0000-01-01'', endDate = ''0002-01-01''\<rparr>
       = Inr 365
   \<and> max 1 (daysSinceEpoch (year_of ''0002-01-01'') (month_of ''0002-01-01'') (day_of ''0002-01-01'')
            - daysSinceEpoch (year_of ''0000-01-01'') (month_of ''0000-01-01'') (day_of ''0000-01-01''))
       = 731"
proof -
  have 1: "string_le e s \<longrightarrow> (\<exists>err. Rental_ctor v c s e = Inl err)"
    by (auto simp: Rental_ctor_def split: sum.splits)
  {
    assume ok: "Rental_ctor v c s e = Inr r"
    from Rental_ctor_Inr[OF ok] have cv: "calendar_valid s" "calendar_valid e" and ord: "\<not> string_le e s"
      and r: "r = \<lparr>vehicle_ptr = v, customer_ptr = c, startDate = s, endDate = e\<rparr>" by simp_all
    from cv have sh: "date_shape s" "date_shape e" by (simp_all add: calendar_valid_def)
    have yo: "year_of s \<le> year_of e" by (rule year_order[OF sh ord])
    have y0: "0 \<le> year_of s" by (rule year_of_nonneg[OF sh(1)])
    have g: "getRentalDays r = Inr (max 1 (daysSinceEpoch (year_of e) (month_of e) (day_of e)
          - (if year_of e = 0 then 0 else 366)
          - (daysSinceEpoch (year_of s) (month_of s) (day_of s) - (if year_of s = 0 then 0 else 366))))"
      using cv by (simp add: getRentalDays_def r countTotalDays_valid calendar_valid_nonempty Let_def max_def)
    note g yo y0
  }
  note k = this
  have 2: "Rental_ctor 1 1 ''0000-01-01'' ''0002-01-01''
       = Inr \<lparr>vehicle_ptr = 1, customer_ptr = 1, startDate = ''0000-01-01'', endDate = ''0002-01-01''\<rparr>"
    by code_simp
  have 3: "getRentalDays \<lparr>vehicle_ptr = 1, customer_ptr = 1, startDate = ''0000-01-01'', endDate = ''0002-01-01''\<rparr>
       = Inr 365"
    by code_simp
  have 4: "max 1 (daysSinceEpoch (year_of ''0002-01-01'') (month_of ''0002-01-01'') (day_of ''0002-01-01'')
            - daysSinceEpoch (year_of ''0000-01-01'') (month_of ''0000-01-01'') (day_of ''0000-01-01''))
       = 731"
    by (simp add: daysSinceEpoch_def year_of_def month_of_def day_of_def digit_val_def
        gregorian_leap_def upto_rec1)
  from 1 k have "(string_le e s \<longrightarrow> (\<exists>err. Rental_ctor v c s e = Inl err))
   \<and> (Rental_ctor v c s e = Inr r \<and> (1 \<le> year_of s \<or> year_of e = 0) \<longrightarrow>
        getRentalDays r = Inr (max 1 (daysSinceEpoch (year_of e) (month_of e) (day_of e)
                                     - daysSinceEpoch (year_of s) (month_of s) (day_of s))))
   \<and> (Rental_ctor v c s e = Inr r \<and> year_of s = 0 \<and> 1 \<le> year_of e \<longrightarrow>
        getRentalDays r = Inr (max 1 (daysSinceEpoch (year_of e) (month_of e) (day_of e)
                                     - daysSinceEpoch (year_of s) (month_of s) (day_of s) - 366)))"
    by auto
  with 2 3 4 show ?thesis by (simp only: simp_thms)
qed

text \<open>The theorem at the dates of the specification: start \<^verbatim>\<open>2024-01-01\<close> with the same end
  date is rejected, and with end \<^verbatim>\<open>2024-01-02\<close> the rental lasts 1 day; and at the rental from
  \<^verbatim>\<open>0000-01-01\<close> to \<^verbatim>\<open>0002-01-01\<close>.\<close>

theorem Rental_duration_witness:
  "string_le ''2024-01-01'' ''2024-01-01''
   \<and> (\<exists>err. Rental_ctor 1 1 ''2024-01-01'' ''2024-01-01'' = Inl err)
   \<and> Rental_ctor 1 1 ''2024-01-01'' ''2024-01-02''
       = Inr \<lparr>vehicle_ptr = 1, customer_ptr = 1, startDate = ''2024-01-01'', endDate = ''2024-01-02''\<rparr>
   \<and> 1 \<le> year_of ''2024-01-01''
   \<and> getRentalDays \<lparr>vehicle_ptr = 1, customer_ptr = 1, startDate = ''2024-01-01'', endDate = ''2024-01-02''\<rparr>
       = Inr 1
   \<and> year_of ''0000-01-01'' = 0 \<and> 1 \<le> year_of ''0002-01-01''
   \<and> getRentalDays \<lparr>vehicle_ptr = 1, customer_ptr = 1, startDate = ''0000-01-01'', endDate = ''0002-01-01''\<rparr>
       = Inr (max 1 (daysSinceEpoch (year_of ''0002-01-01'') (month_of ''0002-01-01'') (day_of ''0002-01-01'')
            - daysSinceEpoch (year_of ''0000-01-01'') (month_of ''0000-01-01'') (day_of ''0000-01-01'') - 366))
   \<and> getRentalDays \<lparr>vehicle_ptr = 1, customer_ptr = 1, startDate = ''0000-01-01'', endDate = ''0002-01-01''\<rparr>
       = Inr 365"
proof -
  have a: "string_le ''2024-01-01'' ''2024-01-01''" by (simp add: string_le_def)
  have b: "Rental_ctor 1 1 ''2024-01-01'' ''2024-01-02''
       = Inr \<lparr>vehicle_ptr = 1, customer_ptr = 1, startDate = ''2024-01-01'', endDate = ''2024-01-02''\<rparr>"
    by code_simp
  have y: "1 \<le> year_of ''2024-01-01''" "year_of ''0000-01-01'' = 0" "1 \<le> year_of ''0002-01-01''"
    by (simp_all add: year_of_def digit_val_def)
  have c: "max 1 (daysSinceEpoch (year_of ''2024-01-02'') (month_of ''2024-01-02'') (day_of ''2024-01-02'')
                - daysSinceEpoch (year_of ''2024-01-01'') (month_of ''2024-01-01'') (day_of ''2024-01-01'')) = 1"
    by (simp add: daysSinceEpoch_def year_of_def month_of_def day_of_def digit_val_def)
  from Rental_duration[of "''2024-01-02''" "''2024-01-01''" 1 1] b c y(1)
  have e: "getRentalDays \<lparr>vehicle_ptr = 1, customer_ptr = 1, startDate = ''2024-01-01'', endDate = ''2024-01-02''\<rparr>
       = Inr 1" by simp
  from Rental_duration[of "''2024-01-01''" "''2024-01-01''" 1 1] a
  have d: "\<exists>err. Rental_ctor 1 1 ''2024-01-01'' ''2024-01-01'' = Inl err" by blast
  note t = Rental_duration[of "''0002-01-01''" "''0000-01-01''" 1 1
      "\<lparr>vehicle_ptr = 1, customer_ptr = 1, startDate = ''0000-01-01'', endDate = ''0002-01-01''\<rparr>"]
  from t y(2,3)
  have f: "getRentalDays \<lparr>vehicle_ptr = 1, customer_ptr = 1, startDate = ''0000-01-01'', endDate = ''0002-01-01''\<rparr>
       = Inr (max 1 (daysSinceEpoch (year_of ''0002-01-01'') (month_of ''0002-01-01'') (day_of ''0002-01-01'')
            - daysSinceEpoch (year_of ''0000-01-01'') (month_of ''0000-01-01'') (day_of ''0000-01-01'') - 366))"
    by blast
  from t have g: "getRentalDays \<lparr>vehicle_ptr = 1, customer_ptr = 1, startDate = ''0000-01-01'', endDate = ''0002-01-01''\<rparr>
       = Inr 365" by blast
  from a b d e y f g show ?thesis by blast
qed

section \<open>String order and day count of dates\<close>

text \<open>
  Claim C10 says that for calendar-valid dates the string order and the order of
  \<^verbatim>\<open>countTotalDays\<close> agree, so that \<^verbatim>\<open>getRentalDays\<close> of a constructed rental is the exact
  positive difference and never the clamp. The loop over the years starts at 1, so the
  year 0000, which \<^verbatim>\<open>isValidDate\<close> accepts, counts no day more than the year 0001: the
  dates \<^verbatim>\<open>0000-06-15\<close> and \<^verbatim>\<open>0001-01-01\<close> are valid and ordered as strings, their day counts
  are 167 and 1, the rental between them is constructed, and its duration is the clamp 1
  (200 days lie between the two dates).
\<close>

theorem year_zero_duration:
  "isValidDate ''0000-06-15'' = Inr True
   \<and> isValidDate ''0001-01-01'' = Inr True
   \<and> string_less ''0000-06-15'' ''0001-01-01''
   \<and> countTotalDays ''0000-06-15'' = Inr 167
   \<and> countTotalDays ''0001-01-01'' = Inr 1
   \<and> Rental_ctor 1 1 ''0000-06-15'' ''0001-01-01''
       = Inr \<lparr>vehicle_ptr = 1, customer_ptr = 1, startDate = ''0000-06-15'', endDate = ''0001-01-01''\<rparr>
   \<and> getRentalDays \<lparr>vehicle_ptr = 1, customer_ptr = 1, startDate = ''0000-06-15'', endDate = ''0001-01-01''\<rparr>
       = Inr 1"
  by code_simp

text \<open>Read off \<open>year_zero_duration\<close>: two valid dates whose string order and day-count order
  disagree.\<close>

theorem year_zero_duration_witness:
  "\<exists>a b ta tb. isValidDate a = Inr True \<and> isValidDate b = Inr True \<and> string_less a b
     \<and> countTotalDays a = Inr ta \<and> countTotalDays b = Inr tb \<and> tb < ta"
proof -
  from year_zero_duration
  have "isValidDate ''0000-06-15'' = Inr True \<and> isValidDate ''0001-01-01'' = Inr True
    \<and> string_less ''0000-06-15'' ''0001-01-01''
    \<and> countTotalDays ''0000-06-15'' = Inr 167 \<and> countTotalDays ''0001-01-01'' = Inr 1 \<and> (1::int) < 167"
    by simp
  then show ?thesis by blast
qed

section \<open>The invariant of the manager\<close>

lemma wf_init: "wf init_manager"
  by (simp add: wf_def init_manager_def nullptr_def)

lemma wf_iff:
  "wf s \<longleftrightarrow>
    nullptr < next_ptr s \<and> distinct (vehicles s) \<and> distinct (customers s)
    \<and> (\<forall>p\<in>set (vehicles s). vheap s p \<noteq> None \<and> p \<noteq> nullptr \<and> p < next_ptr s)
    \<and> (\<forall>p\<in>set (customers s). cheap s p \<noteq> None \<and> p \<noteq> nullptr \<and> p < next_ptr s)
    \<and> (\<forall>r\<in>set (rentals s). vehicle_ptr r \<in> set (vehicles s) \<and> customer_ptr r \<in> set (customers s)
          \<and> calendar_valid (startDate r) \<and> calendar_valid (endDate r)
          \<and> \<not> string_le (endDate r) (startDate r))
    \<and> distinct (map (rental_reg s) (rentals s))"
  by (simp add: wf_def list_all_iff)

lemma wf_rental_vehicle: "wf s \<Longrightarrow> r \<in> set (rentals s) \<Longrightarrow> vehicle_ptr r \<in> set (vehicles s)"
  by (simp add: wf_iff)

lemma wf_rental_customer: "wf s \<Longrightarrow> r \<in> set (rentals s) \<Longrightarrow> customer_ptr r \<in> set (customers s)"
  by (simp add: wf_iff)

lemma wf_vehicle_bound: "wf s \<Longrightarrow> p \<in> set (vehicles s) \<Longrightarrow> p < next_ptr s \<and> p \<noteq> nullptr \<and> vheap s p \<noteq> None"
  by (simp add: wf_iff)

lemma wf_customer_bound: "wf s \<Longrightarrow> p \<in> set (customers s) \<Longrightarrow> p < next_ptr s \<and> p \<noteq> nullptr \<and> cheap s p \<noteq> None"
  by (simp add: wf_iff)

lemma wf_distinct_regs: "wf s \<Longrightarrow> distinct (map (rental_reg s) (rentals s))"
  by (simp add: wf_iff)

text \<open>The registrations of the rentals depend on the heap only at the rentals' pointers.\<close>

lemma rental_reg_cong:
  assumes "\<And>r. r \<in> set rs \<Longrightarrow> vheap s' (vehicle_ptr r) = vheap s (vehicle_ptr r)"
  shows "map (rental_reg s') rs = map (rental_reg s) rs"
  using assms by (simp add: rental_reg_def vobj_def)

lemma distinct_rental_reg_cong:
  assumes "\<And>r. r \<in> set rs \<Longrightarrow> vheap s' (vehicle_ptr r) = vheap s (vehicle_ptr r)"
  shows "distinct (map (rental_reg s') rs) = distinct (map (rental_reg s) rs)"
  using rental_reg_cong[OF assms] by (simp only:)

lemma rental_reg_same_heap: "vheap s' = vheap s \<Longrightarrow> rental_reg s' = rental_reg s"
  by (simp add: rental_reg_def vobj_def fun_eq_iff)

lemma rental_cid_same_heap: "cheap s' = cheap s \<Longrightarrow> rental_cid s' = rental_cid s"
  by (simp add: rental_cid_def cobj_def fun_eq_iff)

text \<open>A change of the state that keeps the vectors' pointers, may extend the vectors, and
  keeps the heap at the rentals' pointers, keeps the invariant.\<close>

lemma wfI:
  assumes "nullptr < next_ptr s'" "distinct (vehicles s')" "distinct (customers s')"
    and "\<And>p. p \<in> set (vehicles s') \<Longrightarrow> vheap s' p \<noteq> None \<and> p \<noteq> nullptr \<and> p < next_ptr s'"
    and "\<And>p. p \<in> set (customers s') \<Longrightarrow> cheap s' p \<noteq> None \<and> p \<noteq> nullptr \<and> p < next_ptr s'"
    and "\<And>r. r \<in> set (rentals s') \<Longrightarrow> vehicle_ptr r \<in> set (vehicles s') \<and> customer_ptr r \<in> set (customers s')
          \<and> calendar_valid (startDate r) \<and> calendar_valid (endDate r)
          \<and> \<not> string_le (endDate r) (startDate r)"
    and "distinct (map (rental_reg s') (rentals s'))"
  shows "wf s'"
  using assms unfolding wf_iff by blast

lemma wf_push_new_vehicle: "wf s \<Longrightarrow> wf (push_new_vehicle s v)"
proof -
  assume w: "wf s"
  have fresh: "\<And>r. r \<in> set (rentals s) \<Longrightarrow> vehicle_ptr r \<noteq> next_ptr s"
    using wf_rental_vehicle[OF w] wf_vehicle_bound[OF w] by fastforce
  have "distinct (map (rental_reg (push_new_vehicle s v)) (rentals s)) = distinct (map (rental_reg s) (rentals s))"
    using fresh by (intro distinct_rental_reg_cong) (simp add: push_new_vehicle_def)
  with wf_distinct_regs[OF w] have "distinct (map (rental_reg (push_new_vehicle s v)) (rentals s))" by blast
  moreover have "rentals (push_new_vehicle s v) = rentals s" by (simp add: push_new_vehicle_def)
  ultimately have d: "distinct (map (rental_reg (push_new_vehicle s v)) (rentals (push_new_vehicle s v)))"
    by (simp only:)
  show ?thesis
  proof (rule wfI)
    show "distinct (map (rental_reg (push_new_vehicle s v)) (rentals (push_new_vehicle s v)))" by (rule d)
  qed (use w in \<open>auto simp: wf_iff push_new_vehicle_def nullptr_def\<close>)
qed

lemma wf_push_new_customer: "wf s \<Longrightarrow> wf (push_new_customer s c)"
proof -
  assume w: "wf s"
  have "distinct (map (rental_reg (push_new_customer s c)) (rentals s)) = distinct (map (rental_reg s) (rentals s))"
    by (intro distinct_rental_reg_cong) (simp add: push_new_customer_def)
  with wf_distinct_regs[OF w] have "distinct (map (rental_reg (push_new_customer s c)) (rentals s))" by blast
  moreover have "rentals (push_new_customer s c) = rentals s" by (simp add: push_new_customer_def)
  ultimately have d: "distinct (map (rental_reg (push_new_customer s c)) (rentals (push_new_customer s c)))" by (simp only:)
  show ?thesis
  proof (rule wfI)
    show "distinct (map (rental_reg (push_new_customer s c)) (rentals (push_new_customer s c)))" by (rule d)
  qed (use w in \<open>auto simp: wf_iff push_new_customer_def nullptr_def\<close>)
qed

lemma wf_addVehicle: "wf s \<Longrightarrow> wf (snd (addVehicle s v))"
  by (auto simp: addVehicle_def wf_push_new_vehicle split: option.splits)

lemma wf_addCustomer: "wf s \<Longrightarrow> wf (snd (addCustomer s c))"
  by (auto simp: addCustomer_def wf_push_new_customer split: option.splits)

lemma removeVehicle_cases:
  "(fst (removeVehicle s reg) \<noteq> Inr () \<and> snd (removeVehicle s reg) = s)
   \<or> (fst (removeVehicle s reg) = Inr ()
       \<and> \<not> list_ex (\<lambda>r. rental_reg s r = reg) (rentals s)
       \<and> snd (removeVehicle s reg)
           = s\<lparr>vheap := vheap s |` (- set (filter (\<lambda>p. regNumber (vobj s p) = reg) (vehicles s))),
               vehicles := filter (\<lambda>p. regNumber (vobj s p) \<noteq> reg) (vehicles s)\<rparr>)"
  by (simp add: removeVehicle_def Let_def)

lemma removeCustomer_cases:
  "(fst (removeCustomer s i) \<noteq> Inr () \<and> snd (removeCustomer s i) = s)
   \<or> (fst (removeCustomer s i) = Inr ()
       \<and> \<not> list_ex (\<lambda>r. rental_cid s r = i) (rentals s)
       \<and> snd (removeCustomer s i)
           = s\<lparr>cheap := cheap s |` (- set (filter (\<lambda>p. cid (cobj s p) = i) (customers s))),
               customers := filter (\<lambda>p. cid (cobj s p) \<noteq> i) (customers s)\<rparr>)"
  by (simp add: removeCustomer_def Let_def)

lemma wf_removeVehicle: "wf s \<Longrightarrow> wf (snd (removeVehicle s reg))"
proof -
  assume w: "wf s"
  define s' where "s' = s\<lparr>vheap := vheap s |` (- set (filter (\<lambda>p. regNumber (vobj s p) = reg) (vehicles s))),
               vehicles := filter (\<lambda>p. regNumber (vobj s p) \<noteq> reg) (vehicles s)\<rparr>"
  from removeVehicle_cases[of s reg] show ?thesis
  proof (elim disjE conjE)
    assume "snd (removeVehicle s reg) = s"
    with w show ?thesis by simp
  next
    assume guard: "\<not> list_ex (\<lambda>r. rental_reg s r = reg) (rentals s)"
      and eq: "snd (removeVehicle s reg) = s\<lparr>vheap := vheap s |` (- set (filter (\<lambda>p. regNumber (vobj s p) = reg) (vehicles s))),
               vehicles := filter (\<lambda>p. regNumber (vobj s p) \<noteq> reg) (vehicles s)\<rparr>"
    from guard have nr: "\<And>r. r \<in> set (rentals s) \<Longrightarrow> regNumber (vobj s (vehicle_ptr r)) \<noteq> reg"
      by (auto simp: list_ex_iff rental_reg_def)
    have "distinct (map (rental_reg s') (rentals s)) = distinct (map (rental_reg s) (rentals s))"
      using nr by (intro distinct_rental_reg_cong) (simp add: s'_def)
    with wf_distinct_regs[OF w] have "distinct (map (rental_reg s') (rentals s))" by blast
    moreover have "rentals s' = rentals s" by (simp add: s'_def)
    ultimately have d: "distinct (map (rental_reg s') (rentals s'))" by (simp only:)
    have "wf s'"
    proof (rule wfI)
      show "distinct (map (rental_reg s') (rentals s'))" by (rule d)
    next
      fix r assume "r \<in> set (rentals s')"
      then have r: "r \<in> set (rentals s)" by (simp add: s'_def)
      with w nr[OF r] show "vehicle_ptr r \<in> set (vehicles s') \<and> customer_ptr r \<in> set (customers s')
          \<and> calendar_valid (startDate r) \<and> calendar_valid (endDate r)
          \<and> \<not> string_le (endDate r) (startDate r)"
        by (simp add: wf_iff s'_def)
    qed (use w in \<open>auto simp: wf_iff s'_def\<close>)
    with eq show ?thesis by (simp add: s'_def)
  qed
qed

lemma wf_removeCustomer: "wf s \<Longrightarrow> wf (snd (removeCustomer s i))"
proof -
  assume w: "wf s"
  define s' where "s' = s\<lparr>cheap := cheap s |` (- set (filter (\<lambda>p. cid (cobj s p) = i) (customers s))),
               customers := filter (\<lambda>p. cid (cobj s p) \<noteq> i) (customers s)\<rparr>"
  from removeCustomer_cases[of s i] show ?thesis
  proof (elim disjE conjE)
    assume "snd (removeCustomer s i) = s"
    with w show ?thesis by simp
  next
    assume guard: "\<not> list_ex (\<lambda>r. rental_cid s r = i) (rentals s)"
      and eq: "snd (removeCustomer s i) = s\<lparr>cheap := cheap s |` (- set (filter (\<lambda>p. cid (cobj s p) = i) (customers s))),
               customers := filter (\<lambda>p. cid (cobj s p) \<noteq> i) (customers s)\<rparr>"
    from guard have nr: "\<And>r. r \<in> set (rentals s) \<Longrightarrow> cid (cobj s (customer_ptr r)) \<noteq> i"
      by (auto simp: list_ex_iff rental_cid_def)
    have "distinct (map (rental_reg s') (rentals s)) = distinct (map (rental_reg s) (rentals s))"
      by (intro distinct_rental_reg_cong) (simp add: s'_def)
    with wf_distinct_regs[OF w] have "distinct (map (rental_reg s') (rentals s))" by blast
    moreover have "rentals s' = rentals s" by (simp add: s'_def)
    ultimately have d: "distinct (map (rental_reg s') (rentals s'))" by (simp only:)
    have "wf s'"
    proof (rule wfI)
      show "distinct (map (rental_reg s') (rentals s'))" by (rule d)
    next
      fix r assume "r \<in> set (rentals s')"
      then have r: "r \<in> set (rentals s)" by (simp add: s'_def)
      with w nr[OF r] show "vehicle_ptr r \<in> set (vehicles s') \<and> customer_ptr r \<in> set (customers s')
          \<and> calendar_valid (startDate r) \<and> calendar_valid (endDate r)
          \<and> \<not> string_le (endDate r) (startDate r)"
        by (simp add: wf_iff s'_def)
    qed (use w in \<open>auto simp: wf_iff s'_def\<close>)
    with eq show ?thesis by (simp add: s'_def)
  qed
qed

lemma getVehicle_found:
  assumes "getVehicle s reg \<noteq> nullptr"
  shows "getVehicle s reg \<in> set (vehicles s) \<and> regNumber (vobj s (getVehicle s reg)) = reg"
proof (cases "find (\<lambda>p. regNumber (vobj s p) = reg) (vehicles s)")
  case None
  with assms show ?thesis by (simp add: getVehicle_def)
next
  case (Some p)
  then have "p \<in> set (vehicles s) \<and> regNumber (vobj s p) = reg"
    by (auto simp: find_Some_iff)
  with Some show ?thesis by (simp add: getVehicle_def)
qed

lemma getCustomer_found:
  assumes "getCustomer s i \<noteq> nullptr"
  shows "getCustomer s i \<in> set (customers s) \<and> cid (cobj s (getCustomer s i)) = i"
proof (cases "find (\<lambda>p. cid (cobj s p) = i) (customers s)")
  case None
  with assms show ?thesis by (simp add: getCustomer_def)
next
  case (Some p)
  then have "p \<in> set (customers s) \<and> cid (cobj s p) = i"
    by (auto simp: find_Some_iff)
  with Some show ?thesis by (simp add: getCustomer_def)
qed

lemma rentVehicle_cases:
  "(fst (rentVehicle s reg i a b) \<noteq> Inr () \<and> snd (rentVehicle s reg i a b) = s)
   \<or> (fst (rentVehicle s reg i a b) = Inr ()
       \<and> getVehicle s reg \<noteq> nullptr \<and> getCustomer s i \<noteq> nullptr
       \<and> \<not> list_ex (\<lambda>r. rental_reg s r = reg) (rentals s)
       \<and> Rental_ctor (getVehicle s reg) (getCustomer s i) a b
           = Inr \<lparr>vehicle_ptr = getVehicle s reg, customer_ptr = getCustomer s i, startDate = a, endDate = b\<rparr>
       \<and> snd (rentVehicle s reg i a b)
           = s\<lparr>rentals := rentals s @ [\<lparr>vehicle_ptr = getVehicle s reg, customer_ptr = getCustomer s i,
                                          startDate = a, endDate = b\<rparr>]\<rparr>)"
  by (auto simp: rentVehicle_def Let_def dest: Rental_ctor_Inr split: sum.splits)

lemma wf_rentVehicle: "wf s \<Longrightarrow> wf (snd (rentVehicle s reg i a b))"
proof -
  assume w: "wf s"
  define r0 where "r0 = \<lparr>vehicle_ptr = getVehicle s reg, customer_ptr = getCustomer s i, startDate = a, endDate = b\<rparr>"
  from rentVehicle_cases[of s reg i a b] show ?thesis
  proof (elim disjE conjE)
    assume "snd (rentVehicle s reg i a b) = s"
    with w show ?thesis by simp
  next
    assume nv: "getVehicle s reg \<noteq> nullptr" and nc: "getCustomer s i \<noteq> nullptr"
      and guard: "\<not> list_ex (\<lambda>r. rental_reg s r = reg) (rentals s)"
      and ctor: "Rental_ctor (getVehicle s reg) (getCustomer s i) a b
           = Inr \<lparr>vehicle_ptr = getVehicle s reg, customer_ptr = getCustomer s i, startDate = a, endDate = b\<rparr>"
      and eq: "snd (rentVehicle s reg i a b)
           = s\<lparr>rentals := rentals s @ [\<lparr>vehicle_ptr = getVehicle s reg, customer_ptr = getCustomer s i,
                                          startDate = a, endDate = b\<rparr>]\<rparr>"
    from getVehicle_found[OF nv] have v: "getVehicle s reg \<in> set (vehicles s)"
      "regNumber (vobj s (getVehicle s reg)) = reg" by simp_all
    from getCustomer_found[OF nc] have c: "getCustomer s i \<in> set (customers s)" by simp
    from Rental_ctor_Inr[OF ctor] have d: "calendar_valid a" "calendar_valid b" "\<not> string_le b a"
      by simp_all
    from guard have nr: "reg \<notin> rental_reg s ` set (rentals s)" by (auto simp: list_ex_iff)
    have "wf (s\<lparr>rentals := rentals s @ [r0]\<rparr>)"
    proof (rule wfI)
      show "distinct (map (rental_reg (s\<lparr>rentals := rentals s @ [r0]\<rparr>)) (rentals (s\<lparr>rentals := rentals s @ [r0]\<rparr>)))"
        using wf_distinct_regs[OF w] nr v(2)
        by (simp add: rental_reg_same_heap[of "s\<lparr>rentals := rentals s @ [r0]\<rparr>" s])
           (simp add: rental_reg_def r0_def)
    next
      fix r assume "r \<in> set (rentals (s\<lparr>rentals := rentals s @ [r0]\<rparr>))"
      then have "r \<in> set (rentals s) \<or> r = r0" by auto
      then show "vehicle_ptr r \<in> set (vehicles (s\<lparr>rentals := rentals s @ [r0]\<rparr>))
         \<and> customer_ptr r \<in> set (customers (s\<lparr>rentals := rentals s @ [r0]\<rparr>))
          \<and> calendar_valid (startDate r) \<and> calendar_valid (endDate r)
          \<and> \<not> string_le (endDate r) (startDate r)"
        using w v c d by (auto simp: wf_iff r0_def)
    qed (use w in \<open>auto simp: wf_iff\<close>)
    with eq show ?thesis by (simp add: r0_def)
  qed
qed

lemma distinct_map_remove1: "distinct (map f xs) \<Longrightarrow> distinct (map f (remove1 x xs))"
  using set_remove1_subset[of x] by (induction xs) fastforce+

lemma getRentalDays_valid:
  assumes "calendar_valid (startDate r)" "calendar_valid (endDate r)"
  shows "\<exists>d. getRentalDays r = Inr d \<and> 1 \<le> d"
  using assms
  by (auto simp: getRentalDays_def countTotalDays_valid calendar_valid_nonempty Let_def)

lemma calculateRentCost_positive:
  "1 \<le> d \<Longrightarrow> \<exists>c. calculateRentCost v d = Inr c"
  by (cases "variant v") (auto simp: calculateRentCost_def)

lemma calculateRentCost_mileage [simp]:
  "calculateRentCost (v\<lparr>mileage := m\<rparr>) d = calculateRentCost v d"
  by (cases "variant v") (simp_all add: calculateRentCost_def)

lemma calculateTotalCost_set_mileage:
  "calculateTotalCost (s\<lparr>vheap := (vheap s)(p \<mapsto> (vobj s p)\<lparr>mileage := m\<rparr>)\<rparr>) r = calculateTotalCost s r"
  by (cases "vehicle_ptr r = p") (simp_all add: calculateTotalCost_def vobj_def split: sum.splits)

lemma wf_calculateTotalCost:
  assumes "wf s" "r \<in> set (rentals s)"
  shows "\<exists>c. calculateTotalCost s r = Inr c"
proof -
  from assms have "calendar_valid (startDate r)" "calendar_valid (endDate r)"
    by (simp_all add: wf_iff)
  from getRentalDays_valid[OF this] obtain d where d: "getRentalDays r = Inr d" "1 \<le> d" by blast
  from calculateRentCost_positive[OF d(2)] d(1) show ?thesis
    by (simp add: calculateTotalCost_def)
qed

lemma wf_heap_update:
  assumes w: "wf s" and p: "p \<in> set (vehicles s)" and reg: "regNumber v' = regNumber (vobj s p)"
  shows "wf (s\<lparr>vheap := (vheap s)(p \<mapsto> v')\<rparr>)"
proof -
  define s' where "s' = s\<lparr>vheap := (vheap s)(p \<mapsto> v')\<rparr>"
  have "rental_reg s' = rental_reg s"
    using reg by (auto simp: rental_reg_def vobj_def s'_def fun_eq_iff)
  with wf_distinct_regs[OF w] have d: "distinct (map (rental_reg s') (rentals s'))"
    by (simp add: s'_def)
  have "wf s'"
  proof (rule wfI)
    show "distinct (map (rental_reg s') (rentals s'))" by (rule d)
  qed (use w in \<open>auto simp: wf_iff s'_def\<close>)
  then show ?thesis by (simp add: s'_def)
qed

lemma wf_remove_rental:
  assumes w: "wf s"
  shows "wf (s\<lparr>rentalHistory := h, rentals := remove1 r (rentals s)\<rparr>)"
proof -
  define s' where "s' = s\<lparr>rentalHistory := h, rentals := remove1 r (rentals s)\<rparr>"
  have "rental_reg s' = rental_reg s" by (rule rental_reg_same_heap) (simp add: s'_def)
  with distinct_map_remove1[OF wf_distinct_regs[OF w], of r]
  have d: "distinct (map (rental_reg s') (rentals s'))" by (simp add: s'_def)
  have "wf s'"
  proof (rule wfI)
    show "distinct (map (rental_reg s') (rentals s'))" by (rule d)
  next
    fix x assume "x \<in> set (rentals s')"
    then have "x \<in> set (rentals s)" using set_remove1_subset[of r "rentals s"] by (auto simp: s'_def)
    with w show "vehicle_ptr x \<in> set (vehicles s') \<and> customer_ptr x \<in> set (customers s')
          \<and> calendar_valid (startDate x) \<and> calendar_valid (endDate x)
          \<and> \<not> string_le (endDate x) (startDate x)"
      by (simp add: wf_iff s'_def)
  qed (use w in \<open>auto simp: wf_iff s'_def\<close>)
  then show ?thesis by (simp add: s'_def)
qed

lemma setMileage_Inr: "setMileage v m = Inr v' \<Longrightarrow> v' = v\<lparr>mileage := m\<rparr> \<and> 0 \<le> m \<and> mileage v \<le> m"
  by (auto simp: setMileage_def split: if_splits)

text \<open>The outcomes of \<open>returnVehicle\<close> in a state that satisfies the invariant.\<close>

lemma returnVehicle_cases:
  assumes w: "wf s"
  shows
  "(find (\<lambda>r. rental_reg s r = reg) (rentals s) = None
      \<and> returnVehicle io s reg m = (Inl (InvalidArgument ''Rental not found for this vehicle.''), s))
   \<or> (\<exists>r e. find (\<lambda>r. rental_reg s r = reg) (rentals s) = Some r
         \<and> setMileage (vobj s (vehicle_ptr r)) m = Inl e
         \<and> returnVehicle io s reg m = (Inl e, s))
   \<or> (\<exists>r cost. find (\<lambda>r. rental_reg s r = reg) (rentals s) = Some r
         \<and> 0 \<le> m \<and> mileage (vobj s (vehicle_ptr r)) \<le> m
         \<and> calculateTotalCost s r = Inr cost
         \<and> returnVehicle io s reg m =
             (Inr cost,
              s\<lparr>vheap := (vheap s)(vehicle_ptr r \<mapsto> (vobj s (vehicle_ptr r))\<lparr>mileage := m\<rparr>),
                rentalHistory := rentalHistory s
                  @ [history_line io ((vobj s (vehicle_ptr r))\<lparr>mileage := m\<rparr>) (cobj s (customer_ptr r)) r cost],
                rentals := remove1 r (rentals s)\<rparr>))"
proof (cases "find (\<lambda>r. rental_reg s r = reg) (rentals s)")
  case None
  then show ?thesis by (simp add: returnVehicle_def)
next
  case (Some r)
  then have rin: "r \<in> set (rentals s)" by (auto simp: find_Some_iff)
  show ?thesis
  proof (cases "setMileage (vobj s (vehicle_ptr r)) m")
    case (Inl e)
    with Some show ?thesis by (simp add: returnVehicle_def)
  next
    case (Inr v')
    from setMileage_Inr[OF Inr] have v': "v' = (vobj s (vehicle_ptr r))\<lparr>mileage := m\<rparr>"
      and m: "0 \<le> m" "mileage (vobj s (vehicle_ptr r)) \<le> m" by simp_all
    from wf_calculateTotalCost[OF w rin] obtain cost where cost: "calculateTotalCost s r = Inr cost"
      by blast
    have cost': "calculateTotalCost (s\<lparr>vheap := (vheap s)(vehicle_ptr r \<mapsto> v')\<rparr>) r = Inr cost"
      using cost by (simp add: v' calculateTotalCost_set_mileage)
    show ?thesis
      using Some Inr m cost cost'
      by (simp add: returnVehicle_def Let_def vobj_def cobj_def v')
  qed
qed

lemma wf_returnVehicle: "wf s \<Longrightarrow> wf (snd (returnVehicle io s reg m))"
proof -
  assume w: "wf s"
  from returnVehicle_cases[OF w, of reg io m] show ?thesis
  proof (elim disjE exE conjE)
    fix r cost
    assume f: "find (\<lambda>r. rental_reg s r = reg) (rentals s) = Some r"
      and eq: "returnVehicle io s reg m =
             (Inr cost,
              s\<lparr>vheap := (vheap s)(vehicle_ptr r \<mapsto> (vobj s (vehicle_ptr r))\<lparr>mileage := m\<rparr>),
                rentalHistory := rentalHistory s
                  @ [history_line io ((vobj s (vehicle_ptr r))\<lparr>mileage := m\<rparr>) (cobj s (customer_ptr r)) r cost],
                rentals := remove1 r (rentals s)\<rparr>)"
    from f have rin: "r \<in> set (rentals s)" by (auto simp: find_Some_iff)
    have "wf (s\<lparr>vheap := (vheap s)(vehicle_ptr r \<mapsto> (vobj s (vehicle_ptr r))\<lparr>mileage := m\<rparr>)\<rparr>)"
      by (rule wf_heap_update[OF w wf_rental_vehicle[OF w rin]]) simp
    from wf_remove_rental[OF this] show ?thesis by (simp add: eq)
  qed (use w in simp_all)
qed

lemma wf_clear_existing: "wf s \<Longrightarrow> wf (clear_existing s)"
  by (simp add: wf_iff clear_existing_def)

lemma wf_load_vehicles: "wf s \<Longrightarrow> wf (snd (load_vehicles io n f s))"
  by (induction n arbitrary: f s)
     (auto simp: Let_def wf_push_new_vehicle split: option.splits sum.splits prod.splits)

lemma wf_load_customers: "wf s \<Longrightarrow> wf (snd (load_customers n f s))"
  by (induction n arbitrary: f s)
     (auto simp: Let_def wf_push_new_customer split: option.splits sum.splits prod.splits)

lemma wf_load_rentals: "wf s \<Longrightarrow> wf (snd (load_rentals n f s))"
  by (induction n arbitrary: f s)
     (auto simp: Let_def wf_rentVehicle split: option.splits sum.splits prod.splits)

lemma wf_history_update: "wf s \<Longrightarrow> wf (s\<lparr>rentalHistory := h\<rparr>)"
  using rental_reg_same_heap[of "s\<lparr>rentalHistory := h\<rparr>" s] by (simp add: wf_iff)

lemma wf_load_history: "wf s \<Longrightarrow> wf (snd (load_history n f s))"
  by (induction n arbitrary: f s)
     (auto simp: wf_history_update split: option.splits prod.splits)

lemma wf_loadFromFile: "wf s \<Longrightarrow> wf (snd (loadFromFile io content s))"
proof -
  assume w: "wf s"
  have lv: "\<And>n f s f' s'. load_vehicles io n f s = (f', s') \<Longrightarrow> wf s \<Longrightarrow> wf s'"
    using wf_load_vehicles by (metis snd_conv)
  have lc: "\<And>n f s f' s'. load_customers n f s = (f', s') \<Longrightarrow> wf s \<Longrightarrow> wf s'"
    using wf_load_customers by (metis snd_conv)
  have lr: "\<And>n f s f' s'. load_rentals n f s = (f', s') \<Longrightarrow> wf s \<Longrightarrow> wf s'"
    using wf_load_rentals by (metis snd_conv)
  have lh: "\<And>n f s f' s'. load_history n f s = (f', s') \<Longrightarrow> wf s \<Longrightarrow> wf s'"
    using wf_load_history by (metis snd_conv)
  show ?thesis
    using w wf_clear_existing[OF w]
    by (auto simp: loadFromFile_def Let_def split: option.splits sum.splits prod.splits
        dest!: lv lc lr lh intro: wf_history_update)
qed

lemma wf_exec: "wf s \<Longrightarrow> wf (exec io c s)"
  by (cases c)
     (simp_all add: wf_addVehicle wf_removeVehicle wf_addCustomer wf_removeCustomer wf_rentVehicle
        wf_returnVehicle wf_loadFromFile)

lemma reachable_wf: "reachable io s \<Longrightarrow> wf s"
  by (induction rule: reachable.induct) (simp_all add: wf_init wf_exec)

section \<open>Conflicts\<close>

lemma vobj_push_new_vehicle: "vobj (push_new_vehicle s v) p = (if p = next_ptr s then v else vobj s p)"
  by (simp add: push_new_vehicle_def vobj_def)

lemma cobj_push_new_customer: "cobj (push_new_customer s c) p = (if p = next_ptr s then c else cobj s p)"
  by (simp add: push_new_customer_def cobj_def)

lemma addVehicle_twice:
  assumes "addVehicle s (Some v) = (Inr (), s1)" "regNumber v' = regNumber v"
  shows "addVehicle s1 (Some v') =
    (Inl (InvalidArgument ''Vehicle with this registration number already exists.''), s1)"
proof -
  from assms(1) have s1: "s1 = push_new_vehicle s v"
    by (auto simp: addVehicle_def split: if_splits)
  have "\<not> isRegNumberUnique s1 (regNumber v')"
    by (simp add: isRegNumberUnique_def s1 assms(2) list_all_iff)
       (auto simp: push_new_vehicle_def vobj_def)
  then show ?thesis by (simp add: addVehicle_def)
qed

lemma addCustomer_twice:
  assumes "addCustomer s (Some c) = (Inr (), s1)" "cid c' = cid c"
  shows "addCustomer s1 (Some c') =
    (Inl (InvalidArgument ''Customer with this ID already exists.''), s1)"
proof -
  from assms(1) have s1: "s1 = push_new_customer s c"
    by (auto simp: addCustomer_def split: if_splits)
  have "\<not> isCustomerIdUnique s1 (cid c')"
    by (simp add: isCustomerIdUnique_def s1 assms(2) list_all_iff)
       (auto simp: push_new_customer_def cobj_def)
  then show ?thesis by (simp add: addCustomer_def)
qed

section \<open>At most one rental for a vehicle\<close>

lemma find_distinct_map:
  "distinct (map f xs) \<Longrightarrow> x \<in> set xs \<Longrightarrow> find (\<lambda>y. f y = f x) xs = Some x"
  by (induction xs) (auto simp: image_iff)


lemma distinct_map_comp: "distinct (map (\<lambda>x. g (h x)) xs) \<Longrightarrow> distinct (map h xs)"
  by (induction xs) (auto simp: image_iff)

lemma wf_distinct_ptrs: "wf s \<Longrightarrow> distinct (map vehicle_ptr (rentals s))"
  using distinct_map_comp[of "\<lambda>p. regNumber (vobj s p)" vehicle_ptr "rentals s"]
  by (simp add: wf_iff rental_reg_def[abs_def])

lemma wf_distinct_rentals: "wf s \<Longrightarrow> distinct (rentals s)"
  using wf_distinct_ptrs distinct_map by blast

lemma wf_find_rental:
  "wf s \<Longrightarrow> r \<in> set (rentals s) \<Longrightarrow> find (\<lambda>x. rental_reg s x = rental_reg s r) (rentals s) = Some r"
  by (rule find_distinct_map[OF wf_distinct_regs])

text \<open>Loading builds its objects at fresh addresses.\<close>

lemma load_vehicles_fresh:
  "p \<in> set (vehicles (snd (load_vehicles io n f s))) \<Longrightarrow> p \<in> set (vehicles s) \<or> next_ptr s \<le> p"
proof (induction n arbitrary: f s)
  case 0
  then show ?case by simp
next
  case (Suc n)
  show ?case
  proof (cases "getline_delim newline f")
    case None
    with Suc.prems show ?thesis by simp
  next
    case (Some lr)
    obtain line rest where lr: "lr = (line, rest)" by (cases lr)
    show ?thesis
    proof (cases "split_segments line \<noteq> [] \<and> (\<exists>v. parse_vehicle io (split_segments line) = Inr (Some v))")
      case True
      then obtain v where v: "parse_vehicle io (split_segments line) = Inr (Some v)" by blast
      with True Some lr Suc.prems
      have "p \<in> set (vehicles (snd (load_vehicles io n rest (push_new_vehicle s v))))"
        by (simp add: Let_def)
      from Suc.IH[OF this] show ?thesis
        by (auto simp: push_new_vehicle_def)
    next
      case False
      with Some lr Suc.prems have "p \<in> set (vehicles (snd (load_vehicles io n rest s)))"
        by (auto simp: Let_def split: sum.splits option.splits)
      from Suc.IH[OF this] show ?thesis .
    qed
  qed
qed

lemma load_customers_vehicles: "vehicles (snd (load_customers n f s)) = vehicles s"
  by (induction n arbitrary: f s)
     (auto simp: Let_def push_new_customer_def split: option.splits sum.splits prod.splits)

lemma rentVehicle_vehicles: "vehicles (snd (rentVehicle s reg i a b)) = vehicles s"
  using rentVehicle_cases[of s reg i a b] by auto

lemma load_rentals_vehicles: "vehicles (snd (load_rentals n f s)) = vehicles s"
  by (induction n arbitrary: f s)
     (auto simp: Let_def rentVehicle_vehicles split: option.splits sum.splits prod.splits)

lemma load_history_vehicles: "vehicles (snd (load_history n f s)) = vehicles s"
  by (induction n arbitrary: f s) (auto split: option.splits prod.splits)

lemma loadFromFile_fresh:
  assumes "p \<in> set (vehicles (snd (loadFromFile io (Some f) s)))"
  shows "next_ptr s \<le> p"
proof -
  have lv: "\<And>n f s0 f' s'. load_vehicles io n f s0 = (f', s') \<Longrightarrow> p \<in> set (vehicles s')
      \<Longrightarrow> p \<in> set (vehicles s0) \<or> next_ptr s0 \<le> p"
    using load_vehicles_fresh by (metis snd_conv)
  have lc: "\<And>n f s0 f' s'. load_customers n f s0 = (f', s') \<Longrightarrow> vehicles s' = vehicles s0"
    using load_customers_vehicles by (metis snd_conv)
  have lr: "\<And>n f s0 f' s'. load_rentals n f s0 = (f', s') \<Longrightarrow> vehicles s' = vehicles s0"
    using load_rentals_vehicles by (metis snd_conv)
  have lh: "\<And>n f s0 f' s'. load_history n f s0 = (f', s') \<Longrightarrow> vehicles s' = vehicles s0"
    using load_history_vehicles by (metis snd_conv)
  have c: "vehicles (clear_existing s) = []" "next_ptr (clear_existing s) = next_ptr s"
    by (simp_all add: clear_existing_def)
  from assms show ?thesis
    by (auto simp: loadFromFile_def Let_def c split: sum.splits prod.splits
        dest!: lc lr lh dest: lv)
qed

















section \<open>Returning a vehicle\<close>

lemma wf_rental_unique:
  assumes "wf s" "x \<in> set (rentals s)" "y \<in> set (rentals s)" "rental_reg s x = rental_reg s y"
  shows "x = y"
proof -
  from wf_distinct_regs[OF assms(1)] have "inj_on (rental_reg s) (set (rentals s))"
    by (simp add: distinct_map)
  from inj_onD[OF this assms(4) assms(2) assms(3)] show ?thesis .
qed

lemma returnVehicle_success:
  assumes w: "wf s" and ok: "returnVehicle io s reg m = (Inr cost, s')"
  shows "\<exists>r\<in>set (rentals s). rental_reg s r = reg
          \<and> 0 \<le> m \<and> mileage (vobj s (vehicle_ptr r)) \<le> m
          \<and> vobj s' (vehicle_ptr r) = (vobj s (vehicle_ptr r))\<lparr>mileage := m\<rparr>
          \<and> mileage (vobj s' (vehicle_ptr r)) = m
          \<and> rentals s' = remove1 r (rentals s) \<and> r \<notin> set (rentals s')
          \<and> Suc (length (rentals s')) = length (rentals s)
          \<and> \<not> reg_rented s' reg
          \<and> rentalHistory s' = rentalHistory s @
              [brand (vobj s (vehicle_ptr r)) @ '' '' @ model (vobj s (vehicle_ptr r))
               @ '' ('' @ reg @ '');''
               @ name (cobj s (customer_ptr r)) @ '' ('' @ cid (cobj s (customer_ptr r)) @ '');''
               @ startDate r @ '';'' @ endDate r @ '';'' @ put_double io cost]
          \<and> calculateTotalCost s r = Inr cost
          \<and> vehicle_ptr r \<in> set (findAvailableVehicles s')
          \<and> vehicle_ptr r \<notin> set (findAvailableVehicles s)
          \<and> vehicles s' = vehicles s \<and> customers s' = customers s"
proof -
  from returnVehicle_cases[OF w, of reg io m] ok
  obtain r where f: "find (\<lambda>r. rental_reg s r = reg) (rentals s) = Some r"
    and m: "0 \<le> m" "mileage (vobj s (vehicle_ptr r)) \<le> m"
    and cost: "calculateTotalCost s r = Inr cost"
    and s': "s' = s\<lparr>vheap := (vheap s)(vehicle_ptr r \<mapsto> (vobj s (vehicle_ptr r))\<lparr>mileage := m\<rparr>),
                rentalHistory := rentalHistory s
                  @ [history_line io ((vobj s (vehicle_ptr r))\<lparr>mileage := m\<rparr>) (cobj s (customer_ptr r)) r cost],
                rentals := remove1 r (rentals s)\<rparr>"
    by auto
  from f have rin: "r \<in> set (rentals s)" and rr: "rental_reg s r = reg"
    by (auto simp: find_Some_iff)
  have dr: "distinct (rentals s)" by (rule wf_distinct_rentals[OF w])
  have notin: "r \<notin> set (remove1 r (rentals s))" using dr by simp
  have len: "Suc (length (remove1 r (rentals s))) = length (rentals s)"
    using rin by (simp add: length_remove1) (cases "rentals s", auto)
  have regs: "rental_reg s' = rental_reg s"
    by (auto simp: rental_reg_def vobj_def s' fun_eq_iff)
  have rs': "rentals s' = remove1 r (rentals s)" by (simp add: s')
  have nr: "\<not> reg_rented s' reg"
  proof
    assume "reg_rented s' reg"
    then obtain x where x: "x \<in> set (remove1 r (rentals s))" "rental_reg s x = reg"
      by (auto simp: reg_rented_def list_ex_iff regs rs')
    then have xin: "x \<in> set (rentals s)" using set_remove1_subset by fast
    from x(2) rr have "rental_reg s x = rental_reg s r" by (simp only:)
    from wf_rental_unique[OF w xin rin this] have "x = r" .
    with x(1) notin show False by simp
  qed
  have avail: "vehicle_ptr r \<in> set (findAvailableVehicles s')"
  proof -
    have "\<not> list_ex (\<lambda>x. vehicle_ptr x = vehicle_ptr r) (remove1 r (rentals s))"
    proof
      assume "list_ex (\<lambda>x. vehicle_ptr x = vehicle_ptr r) (remove1 r (rentals s))"
      then obtain x where x: "x \<in> set (remove1 r (rentals s))" "vehicle_ptr x = vehicle_ptr r"
        by (auto simp: list_ex_iff)
      then have xin: "x \<in> set (rentals s)" using set_remove1_subset by fast
      from x(2) have "rental_reg s x = rental_reg s r" by (simp add: rental_reg_def)
      from wf_rental_unique[OF w xin rin this] have "x = r" .
      with x(1) notin show False by simp
    qed
    with wf_rental_vehicle[OF w rin] show ?thesis
      by (simp add: findAvailableVehicles_def s')
  qed
  have navail: "vehicle_ptr r \<notin> set (findAvailableVehicles s)"
    using rin by (auto simp: findAvailableVehicles_def list_ex_iff)
  have hist: "rentalHistory s' = rentalHistory s @
              [brand (vobj s (vehicle_ptr r)) @ '' '' @ model (vobj s (vehicle_ptr r))
               @ '' ('' @ reg @ '');''
               @ name (cobj s (customer_ptr r)) @ '' ('' @ cid (cobj s (customer_ptr r)) @ '');''
               @ startDate r @ '';'' @ endDate r @ '';'' @ put_double io cost]"
    using rr by (simp add: s' history_line_def rental_reg_def)
  have obj: "vobj s' (vehicle_ptr r) = (vobj s (vehicle_ptr r))\<lparr>mileage := m\<rparr>"
    by (simp add: s' vobj_def)
  show ?thesis
    apply (rule bexI[OF _ rin])
    using rr m obj notin len nr hist cost avail navail
    by (simp add: s')
qed

lemma returnVehicle_too_low:
  assumes w: "wf s" and r: "r \<in> set (rentals s)" "rental_reg s r = reg"
    and m: "m < mileage (vobj s (vehicle_ptr r))"
  shows "returnVehicle io s reg m
    = (Inl (InvalidArgument (if m < 0 then ''Mileage cannot be negative.''
                              else ''New mileage cannot be lower than current mileage.'')), s)"
proof -
  from wf_find_rental[OF w r(1)] r(2)
  have "find (\<lambda>x. rental_reg s x = reg) (rentals s) = Some r" by simp
  with m show ?thesis by (simp add: returnVehicle_def setMileage_def)
qed

lemma returnVehicle_total:
  assumes w: "wf s" and r: "r \<in> set (rentals s)" "rental_reg s r = reg"
    and m: "0 \<le> m" "mileage (vobj s (vehicle_ptr r)) \<le> m"
  shows "\<exists>cost s'. returnVehicle io s reg m = (Inr cost, s')"
proof -
  from wf_find_rental[OF w r(1)] r(2)
  have f: "find (\<lambda>x. rental_reg s x = reg) (rentals s) = Some r" by simp
  from m have "\<forall>e. setMileage (vobj s (vehicle_ptr r)) m \<noteq> Inl e" by (simp add: setMileage_def)
  with returnVehicle_cases[OF w, of reg io m] f show ?thesis by auto
qed

section \<open>The small fleet\<close>

lemma ex_ready_reachable: "reachable ex_io ex_ready"
  unfolding ex_ready_def by (intro reachable_step reachable_init)

lemma ex_rented_reachable: "reachable ex_io ex_rented"
  unfolding ex_rented_def by (intro reachable_step ex_ready_reachable)

lemma ex_rented_rentals: "rentals ex_rented = [ex_rental]"
  by code_simp

lemma ex_rented_reg: "rental_reg ex_rented ex_rental = ''KR12345''"
  by code_simp

lemma ex_rented_vehicles: "vehicles ex_rented = [1]"
  by code_simp


section \<open>Claims about the manager\<close>

text \<open>
  Claim C7. An operation that fails with a conflict leaves the state as it was: adding a
  vehicle or a customer whose registration or id is already in the collection throws and
  returns the same state (so after a successful add, a second add with the same key throws
  and the collection keeps its size); removing a vehicle or a customer that an active
  rental refers to throws and returns the same state, with the entity still there; renting
  a vehicle that is already rented throws and returns the same state.
\<close>
theorem conflict_leaves_state:
  "((\<exists>p\<in>set (vehicles s). regNumber (vobj s p) = regNumber v) \<longrightarrow>
      addVehicle s (Some v)
        = (Inl (InvalidArgument ''Vehicle with this registration number already exists.''), s))
   \<and> ((\<exists>p\<in>set (customers s). cid (cobj s p) = cid c) \<longrightarrow>
      addCustomer s (Some c)
        = (Inl (InvalidArgument ''Customer with this ID already exists.''), s))
   \<and> (addVehicle s (Some v) = (Inr (), s1) \<and> regNumber v' = regNumber v \<longrightarrow>
      addVehicle s1 (Some v')
        = (Inl (InvalidArgument ''Vehicle with this registration number already exists.''), s1)
      \<and> length (vehicles (snd (addVehicle s1 (Some v')))) = length (vehicles s1))
   \<and> (addCustomer s (Some c) = (Inr (), s2) \<and> cid c' = cid c \<longrightarrow>
      addCustomer s2 (Some c')
        = (Inl (InvalidArgument ''Customer with this ID already exists.''), s2)
      \<and> length (customers (snd (addCustomer s2 (Some c')))) = length (customers s2))
   \<and> ((\<exists>r\<in>set (rentals s). regNumber (vobj s (vehicle_ptr r)) = reg) \<longrightarrow>
      removeVehicle s reg
        = (Inl (InvalidArgument ''Cannot remove vehicle that is currently rented.''), s))
   \<and> ((\<exists>r\<in>set (rentals s). cid (cobj s (customer_ptr r)) = i) \<longrightarrow>
      removeCustomer s i
        = (Inl (InvalidArgument ''Cannot remove customer who has active rentals.''), s))
   \<and> (getVehicle s reg \<noteq> nullptr \<and> getCustomer s i \<noteq> nullptr
        \<and> (\<exists>r\<in>set (rentals s). regNumber (vobj s (vehicle_ptr r)) = reg) \<longrightarrow>
      rentVehicle s reg i a b = (Inl (InvalidArgument ''Vehicle is already rented.''), s))"
proof (intro conjI impI)
  assume "\<exists>p\<in>set (vehicles s). regNumber (vobj s p) = regNumber v"
  then show "addVehicle s (Some v)
        = (Inl (InvalidArgument ''Vehicle with this registration number already exists.''), s)"
    by (auto simp: addVehicle_def isRegNumberUnique_def list_all_iff)
next
  assume "\<exists>p\<in>set (customers s). cid (cobj s p) = cid c"
  then show "addCustomer s (Some c)
        = (Inl (InvalidArgument ''Customer with this ID already exists.''), s)"
    by (auto simp: addCustomer_def isCustomerIdUnique_def list_all_iff)
next
  assume a: "addVehicle s (Some v) = (Inr (), s1) \<and> regNumber v' = regNumber v"
  then show "addVehicle s1 (Some v')
        = (Inl (InvalidArgument ''Vehicle with this registration number already exists.''), s1)"
    using addVehicle_twice by blast
  then show "length (vehicles (snd (addVehicle s1 (Some v')))) = length (vehicles s1)" by simp
next
  assume a: "addCustomer s (Some c) = (Inr (), s2) \<and> cid c' = cid c"
  then show "addCustomer s2 (Some c')
        = (Inl (InvalidArgument ''Customer with this ID already exists.''), s2)"
    using addCustomer_twice by blast
  then show "length (customers (snd (addCustomer s2 (Some c')))) = length (customers s2)" by simp
next
  assume "\<exists>r\<in>set (rentals s). regNumber (vobj s (vehicle_ptr r)) = reg"
  then show "removeVehicle s reg
        = (Inl (InvalidArgument ''Cannot remove vehicle that is currently rented.''), s)"
    by (auto simp: removeVehicle_def list_ex_iff rental_reg_def)
next
  assume "\<exists>r\<in>set (rentals s). cid (cobj s (customer_ptr r)) = i"
  then show "removeCustomer s i
        = (Inl (InvalidArgument ''Cannot remove customer who has active rentals.''), s)"
    by (auto simp: removeCustomer_def list_ex_iff rental_cid_def)
next
  assume "getVehicle s reg \<noteq> nullptr \<and> getCustomer s i \<noteq> nullptr
        \<and> (\<exists>r\<in>set (rentals s). regNumber (vobj s (vehicle_ptr r)) = reg)"
  then show "rentVehicle s reg i a b = (Inl (InvalidArgument ''Vehicle is already rented.''), s)"
    by (auto simp: rentVehicle_def Let_def list_ex_iff rental_reg_def)
qed

text \<open>The conflicts in the small fleet with its car rented: the car and the customer cannot
  be added again, cannot be removed, and the car cannot be rented again.\<close>

theorem conflict_leaves_state_witness:
  "(\<exists>p\<in>set (vehicles ex_rented). regNumber (vobj ex_rented p) = regNumber ex_car)
   \<and> addVehicle ex_rented (Some ex_car)
       = (Inl (InvalidArgument ''Vehicle with this registration number already exists.''), ex_rented)
   \<and> (\<exists>p\<in>set (customers ex_rented). cid (cobj ex_rented p) = cid ex_customer)
   \<and> addCustomer ex_rented (Some ex_customer)
       = (Inl (InvalidArgument ''Customer with this ID already exists.''), ex_rented)
   \<and> addVehicle init_manager (Some ex_car) = (Inr (), push_new_vehicle init_manager ex_car)
   \<and> addVehicle (push_new_vehicle init_manager ex_car) (Some ex_car)
       = (Inl (InvalidArgument ''Vehicle with this registration number already exists.''),
          push_new_vehicle init_manager ex_car)
   \<and> addCustomer init_manager (Some ex_customer) = (Inr (), push_new_customer init_manager ex_customer)
   \<and> addCustomer (push_new_customer init_manager ex_customer) (Some ex_customer)
       = (Inl (InvalidArgument ''Customer with this ID already exists.''),
          push_new_customer init_manager ex_customer)
   \<and> (\<exists>r\<in>set (rentals ex_rented). regNumber (vobj ex_rented (vehicle_ptr r)) = ''KR12345'')
   \<and> removeVehicle ex_rented ''KR12345''
       = (Inl (InvalidArgument ''Cannot remove vehicle that is currently rented.''), ex_rented)
   \<and> (\<exists>r\<in>set (rentals ex_rented). cid (cobj ex_rented (customer_ptr r)) = ''ABC123'')
   \<and> removeCustomer ex_rented ''ABC123''
       = (Inl (InvalidArgument ''Cannot remove customer who has active rentals.''), ex_rented)
   \<and> getVehicle ex_rented ''KR12345'' \<noteq> nullptr \<and> getCustomer ex_rented ''ABC123'' \<noteq> nullptr
   \<and> rentVehicle ex_rented ''KR12345'' ''ABC123'' ''2024-02-01'' ''2024-02-02''
       = (Inl (InvalidArgument ''Vehicle is already rented.''), ex_rented)"
proof -
  have h1: "\<exists>p\<in>set (vehicles ex_rented). regNumber (vobj ex_rented p) = regNumber ex_car"
    by code_simp
  have h2: "\<exists>p\<in>set (customers ex_rented). cid (cobj ex_rented p) = cid ex_customer"
    by code_simp
  have h3: "addVehicle init_manager (Some ex_car) = (Inr (), push_new_vehicle init_manager ex_car)"
    by (simp add: addVehicle_def isRegNumberUnique_def init_manager_def)
  have h4: "addCustomer init_manager (Some ex_customer)
      = (Inr (), push_new_customer init_manager ex_customer)"
    by (simp add: addCustomer_def isCustomerIdUnique_def init_manager_def)
  have h5: "\<exists>r\<in>set (rentals ex_rented). regNumber (vobj ex_rented (vehicle_ptr r)) = ''KR12345''"
    by code_simp
  have h6: "\<exists>r\<in>set (rentals ex_rented). cid (cobj ex_rented (customer_ptr r)) = ''ABC123''"
    by code_simp
  have h7: "getVehicle ex_rented ''KR12345'' \<noteq> nullptr" by code_simp
  have h8: "getCustomer ex_rented ''ABC123'' \<noteq> nullptr" by code_simp
  note t = conflict_leaves_state[where s = ex_rented and v = ex_car and c = ex_customer
      and reg = "''KR12345''" and i = "''ABC123''" and a = "''2024-02-01''" and b = "''2024-02-02''"]
  note u = conflict_leaves_state[where s = init_manager and v = ex_car and c = ex_customer
      and ?s1.0 = "push_new_vehicle init_manager ex_car" and v' = ex_car
      and ?s2.0 = "push_new_customer init_manager ex_customer" and c' = ex_customer]
  from t h1 have c1: "addVehicle ex_rented (Some ex_car)
       = (Inl (InvalidArgument ''Vehicle with this registration number already exists.''), ex_rented)"
    by blast
  from t h2 have c2: "addCustomer ex_rented (Some ex_customer)
       = (Inl (InvalidArgument ''Customer with this ID already exists.''), ex_rented)"
    by blast
  from u h3 have c3: "addVehicle (push_new_vehicle init_manager ex_car) (Some ex_car)
       = (Inl (InvalidArgument ''Vehicle with this registration number already exists.''),
          push_new_vehicle init_manager ex_car)"
    by blast
  from u h4 have c4: "addCustomer (push_new_customer init_manager ex_customer) (Some ex_customer)
       = (Inl (InvalidArgument ''Customer with this ID already exists.''),
          push_new_customer init_manager ex_customer)"
    by blast
  from t h5 have c5: "removeVehicle ex_rented ''KR12345''
       = (Inl (InvalidArgument ''Cannot remove vehicle that is currently rented.''), ex_rented)"
    by blast
  from t h6 have c6: "removeCustomer ex_rented ''ABC123''
       = (Inl (InvalidArgument ''Cannot remove customer who has active rentals.''), ex_rented)"
    by blast
  from t h5 h7 h8 have c7: "rentVehicle ex_rented ''KR12345'' ''ABC123'' ''2024-02-01'' ''2024-02-02''
       = (Inl (InvalidArgument ''Vehicle is already rented.''), ex_rented)"
    by blast
  from h1 h2 h3 h4 h5 h6 h7 h8 c1 c2 c3 c4 c5 c6 c7 show ?thesis by blast
qed




text \<open>
  Claim C3. In every reachable state: \<open>returnVehicle\<close> throws ``Rental not found for this
  vehicle.'' and changes nothing when no active rental is for the registration; it throws
  and changes nothing when the new mileage is lower than the mileage of the rented vehicle;
  it succeeds when the new mileage is neither negative nor lower. When it succeeds, the
  rented vehicle has the new mileage, the rental is removed from the active rentals (one
  rental fewer, none left for the registration), the history has exactly one more line,
  \<^verbatim>\<open>Brand Model (Reg);Name (Id);Start;End;Cost\<close>, the value returned is the total cost of the
  rental, and \<open>findAvailableVehicles\<close> contains the vehicle, which it did not before.
\<close>
theorem returnVehicle_spec:
  assumes "reachable io s"
  shows
   "(\<not> reg_rented s reg \<longrightarrow>
       returnVehicle io s reg m = (Inl (InvalidArgument ''Rental not found for this vehicle.''), s))
    \<and> (r \<in> set (rentals s) \<and> rental_reg s r = reg \<and> m < mileage (vobj s (vehicle_ptr r)) \<longrightarrow>
         (\<exists>e. returnVehicle io s reg m = (Inl e, s)))
    \<and> (r \<in> set (rentals s) \<and> rental_reg s r = reg \<and> 0 \<le> m \<and> mileage (vobj s (vehicle_ptr r)) \<le> m \<longrightarrow>
         (\<exists>cost s'. returnVehicle io s reg m = (Inr cost, s')))
    \<and> (returnVehicle io s reg m = (Inr cost, s') \<longrightarrow>
        (\<exists>r\<in>set (rentals s). rental_reg s r = reg
          \<and> 0 \<le> m \<and> mileage (vobj s (vehicle_ptr r)) \<le> m
          \<and> vobj s' (vehicle_ptr r) = (vobj s (vehicle_ptr r))\<lparr>mileage := m\<rparr>
          \<and> mileage (vobj s' (vehicle_ptr r)) = m
          \<and> rentals s' = remove1 r (rentals s) \<and> r \<notin> set (rentals s')
          \<and> Suc (length (rentals s')) = length (rentals s)
          \<and> \<not> reg_rented s' reg
          \<and> rentalHistory s' = rentalHistory s @
              [brand (vobj s (vehicle_ptr r)) @ '' '' @ model (vobj s (vehicle_ptr r))
               @ '' ('' @ reg @ '');''
               @ name (cobj s (customer_ptr r)) @ '' ('' @ cid (cobj s (customer_ptr r)) @ '');''
               @ startDate r @ '';'' @ endDate r @ '';'' @ put_double io cost]
          \<and> calculateTotalCost s r = Inr cost
          \<and> vehicle_ptr r \<in> set (findAvailableVehicles s')
          \<and> vehicle_ptr r \<notin> set (findAvailableVehicles s)
          \<and> vehicles s' = vehicles s \<and> customers s' = customers s))"
proof -
  from assms have w: "wf s" by (rule reachable_wf)
  have 1: "\<not> reg_rented s reg \<longrightarrow>
       returnVehicle io s reg m = (Inl (InvalidArgument ''Rental not found for this vehicle.''), s)"
  proof
    assume "\<not> reg_rented s reg"
    then have "find (\<lambda>r. rental_reg s r = reg) (rentals s) = None"
      by (auto simp: find_None_iff reg_rented_def list_ex_iff)
    then show "returnVehicle io s reg m = (Inl (InvalidArgument ''Rental not found for this vehicle.''), s)"
      by (simp add: returnVehicle_def)
  qed
  have 2: "r \<in> set (rentals s) \<and> rental_reg s r = reg \<and> m < mileage (vobj s (vehicle_ptr r)) \<longrightarrow>
         (\<exists>e. returnVehicle io s reg m = (Inl e, s))"
    using returnVehicle_too_low[OF w] by blast
  have 3: "r \<in> set (rentals s) \<and> rental_reg s r = reg \<and> 0 \<le> m \<and> mileage (vobj s (vehicle_ptr r)) \<le> m \<longrightarrow>
         (\<exists>cost s'. returnVehicle io s reg m = (Inr cost, s'))"
    using returnVehicle_total[OF w] by blast
  from 1 2 3 returnVehicle_success[OF w, of io reg m cost s'] show ?thesis by blast
qed

text \<open>The theorem in the small fleet: an unknown registration, a mileage below the car's
  1000 km, and the return at 1500 km after three days at 100 a day.\<close>

theorem returnVehicle_spec_witness:
  "reachable ex_io ex_rented
   \<and> \<not> reg_rented ex_rented ''XX''
   \<and> returnVehicle ex_io ex_rented ''XX'' 1500
       = (Inl (InvalidArgument ''Rental not found for this vehicle.''), ex_rented)
   \<and> ex_rental \<in> set (rentals ex_rented) \<and> rental_reg ex_rented ex_rental = ''KR12345''
   \<and> (999::real) < mileage (vobj ex_rented (vehicle_ptr ex_rental))
   \<and> (\<exists>e. returnVehicle ex_io ex_rented ''KR12345'' 999 = (Inl e, ex_rented))
   \<and> (0::real) \<le> 1500 \<and> mileage (vobj ex_rented (vehicle_ptr ex_rental)) \<le> 1500
   \<and> returnVehicle ex_io ex_rented ''KR12345'' 1500 = (Inr 300, ex_returned)
   \<and> \<not> reg_rented ex_returned ''KR12345''
   \<and> mileage (vobj ex_returned 1) = 1500
   \<and> rentals ex_returned = []
   \<and> rentalHistory ex_returned
       = [''Fiat Panda (KR12345);Jan Kowalski (ABC123);2024-01-01;2024-01-04;300'']
   \<and> findAvailableVehicles ex_rented = [] \<and> findAvailableVehicles ex_returned = [1]"
proof -
  have h1: "\<not> reg_rented ex_rented ''XX''" by code_simp
  have h2: "ex_rental \<in> set (rentals ex_rented)" by (simp add: ex_rented_rentals)
  have h3: "(999::real) < mileage (vobj ex_rented (vehicle_ptr ex_rental))" by code_simp
  have h4: "mileage (vobj ex_rented (vehicle_ptr ex_rental)) \<le> 1500" by code_simp
  have h5: "fst (returnVehicle ex_io ex_rented ''KR12345'' 1500) = Inr 300" by code_simp
  have h6: "returnVehicle ex_io ex_rented ''KR12345'' 1500 = (Inr 300, ex_returned)"
    using h5 by (simp add: ex_returned_def prod_eq_iff)
  have e: "mileage (vobj ex_returned 1) = 1500" "rentals ex_returned = []"
    "rentalHistory ex_returned
       = [''Fiat Panda (KR12345);Jan Kowalski (ABC123);2024-01-01;2024-01-04;300'']"
    "findAvailableVehicles ex_rented = []" "findAvailableVehicles ex_returned = [1]"
    by code_simp+
  note t = returnVehicle_spec[OF ex_rented_reachable, where r = ex_rental]
  from t[where reg = "''XX''" and m = 1500] h1
  have c1: "returnVehicle ex_io ex_rented ''XX'' 1500
       = (Inl (InvalidArgument ''Rental not found for this vehicle.''), ex_rented)" by blast
  from t[where reg = "''KR12345''" and m = 999] h2 h3 ex_rented_reg
  have c2: "\<exists>e. returnVehicle ex_io ex_rented ''KR12345'' 999 = (Inl e, ex_rented)" by blast
  from t[where reg = "''KR12345''" and m = 1500 and cost = 300 and s' = ex_returned] h6
  have c3: "\<not> reg_rented ex_returned ''KR12345''" by blast
  have z: "(0::real) \<le> 1500" by simp
  from ex_rented_reachable h1 h2 ex_rented_reg h3 h4 h6 e c1 c2 c3 z show ?thesis by blast
qed

section \<open>The loops of loadFromFile and the phases\<close>

lemma file_lines_None: "getline_delim newline f = None \<Longrightarrow> file_lines f = []"
  by (subst file_lines.simps) simp

lemma file_lines_Some: "getline_delim newline f = Some (l, r) \<Longrightarrow> file_lines f = l # file_lines r"
  by (subst file_lines.simps) simp

lemma file_lines_empty: "file_lines [] = []"
  by (rule file_lines_None) (simp add: getline_delim_def)

lemma load_vehicles_fold:
  "load_vehicles io n f s = (f', s') \<Longrightarrow>
    file_lines f' = drop n (file_lines f) \<and> s' = foldl (load_vehicle_line io) s (take n (file_lines f))"
proof (induction n arbitrary: f s)
  case 0
  then show ?case by simp
next
  case (Suc n)
  show ?case
  proof (cases "getline_delim newline f")
    case None
    with Suc.prems show ?thesis by (simp add: file_lines_None)
  next
    case (Some lr)
    obtain l r where lr: "lr = (l, r)" by (cases lr)
    from Suc.prems Some lr
    have "load_vehicles io n r (load_vehicle_line io s l) = (f', s')"
      by (auto simp: load_vehicle_line_def Let_def split: sum.splits option.splits)
    from Suc.IH[OF this] show ?thesis
      by (simp add: file_lines_Some[OF Some[unfolded lr]])
  qed
qed

lemma load_customers_fold:
  "load_customers n f s = (f', s') \<Longrightarrow>
    file_lines f' = drop n (file_lines f) \<and> s' = foldl load_customer_line s (take n (file_lines f))"
proof (induction n arbitrary: f s)
  case 0
  then show ?case by simp
next
  case (Suc n)
  show ?case
  proof (cases "getline_delim newline f")
    case None
    with Suc.prems show ?thesis by (simp add: file_lines_None)
  next
    case (Some lr)
    obtain l r where lr: "lr = (l, r)" by (cases lr)
    from Suc.prems Some lr
    have "load_customers n r (load_customer_line s l) = (f', s')"
      by (auto simp: load_customer_line_def Let_def split: sum.splits option.splits)
    from Suc.IH[OF this] show ?thesis
      by (simp add: file_lines_Some[OF Some[unfolded lr]])
  qed
qed

lemma replay_rental_snd:
  "replay_rental s l =
    (if length (split_segments l) < 4 then s
     else snd (rentVehicle s (split_segments l ! 0) (split_segments l ! 1)
                 (split_segments l ! 2) (split_segments l ! 3)))"
  using rentVehicle_cases[of s "split_segments l ! 0" "split_segments l ! 1"
      "split_segments l ! 2" "split_segments l ! 3"]
  by (auto simp: replay_rental_def Let_def split: prod.splits sum.splits)

lemma load_rentals_fold:
  "load_rentals n f s = (f', s') \<Longrightarrow>
    file_lines f' = drop n (file_lines f) \<and> s' = foldl replay_rental s (take n (file_lines f))"
proof (induction n arbitrary: f s)
  case 0
  then show ?case by simp
next
  case (Suc n)
  show ?case
  proof (cases "getline_delim newline f")
    case None
    with Suc.prems show ?thesis by (simp add: file_lines_None)
  next
    case (Some lr)
    obtain l r where lr: "lr = (l, r)" by (cases lr)
    from Suc.prems Some lr
    have "load_rentals n r (replay_rental s l) = (f', s')"
      by (auto simp: replay_rental_snd Let_def split: if_splits)
    from Suc.IH[OF this] show ?thesis
      by (simp add: file_lines_Some[OF Some[unfolded lr]])
  qed
qed

lemma load_history_fold:
  "load_history n f s = (f', s') \<Longrightarrow>
    s' = s\<lparr>rentalHistory := rentalHistory s @ take n (file_lines f)\<rparr>"
proof (induction n arbitrary: f s)
  case 0
  then show ?case by simp
next
  case (Suc n)
  show ?case
  proof (cases "getline_delim newline f")
    case None
    with Suc.prems have "load_history n f s = (f', s')" by simp
    from Suc.IH[OF this] show ?thesis by (simp add: file_lines_None[OF None])
  next
    case (Some lr)
    obtain l r where lr: "lr = (l, r)" by (cases lr)
    from Suc.prems Some lr
    have "load_history n r (s\<lparr>rentalHistory := rentalHistory s @ [l]\<rparr>) = (f', s')" by simp
    from Suc.IH[OF this] show ?thesis
      by (simp add: file_lines_Some[OF Some[unfolded lr]])
  qed
qed

lemma read_count_section:
  "read_count f = Inl e \<Longrightarrow> take_section (file_lines f) = Inl e"
  "read_count f = Inr (n, f1) \<Longrightarrow>
     take_section (file_lines f) = Inr (take (nat n) (file_lines f1), drop (nat n) (file_lines f1))"
  by (auto simp: read_count_def take_section_def bindE_def file_lines_None file_lines_Some
      split: option.splits sum.splits)

lemma load_stage:
  assumes loader: "\<And>n f s f' s'. loader n f s = (f', s') \<Longrightarrow>
      file_lines f' = drop n (file_lines f) \<and> s' = foldl step s (take n (file_lines f))"
    and rest: "\<And>f s. K f s = K' (file_lines f) s"
  shows "(case read_count f of
            Inl e \<Rightarrow> (Inl e, s)
          | Inr (n, f1) \<Rightarrow> (case loader (nat n) f1 s of (f2, s1) \<Rightarrow> K f2 s1))
       = (case take_section (file_lines f) of
            Inl e \<Rightarrow> (Inl e, s)
          | Inr (xs, l1) \<Rightarrow> K' l1 (foldl step s xs))"
proof (cases "read_count f")
  case (Inl e)
  then show ?thesis by (simp add: read_count_section(1))
next
  case (Inr nf)
  obtain n f1 where nf: "nf = (n, f1)" by (cases nf)
  obtain f2 s1 where l: "loader (nat n) f1 s = (f2, s1)" by (cases "loader (nat n) f1 s")
  from loader[OF l] have "K f2 s1 = K' (drop (nat n) (file_lines f1)) (foldl step s (take (nat n) (file_lines f1)))"
    by (simp add: rest)
  with Inr nf l show ?thesis by (simp add: read_count_section(2))
qed

lemma history_stage:
  "(case read_count f of
      Inl e \<Rightarrow> (Inl e, s)
    | Inr (n, f1) \<Rightarrow> (case load_history (nat n) f1 (s\<lparr>rentalHistory := []\<rparr>) of (f2, s1) \<Rightarrow> (Inr (), s1)))
   = (case take_section (file_lines f) of
        Inl e \<Rightarrow> (Inl e, s)
      | Inr (hs, l1) \<Rightarrow> (Inr (), s\<lparr>rentalHistory := hs\<rparr>))"
proof (cases "read_count f")
  case (Inl e)
  then show ?thesis by (simp add: read_count_section(1))
next
  case (Inr nf)
  obtain n f1 where nf: "nf = (n, f1)" by (cases nf)
  obtain f2 s1 where l: "load_history (nat n) f1 (s\<lparr>rentalHistory := []\<rparr>) = (f2, s1)"
    by (cases "load_history (nat n) f1 (s\<lparr>rentalHistory := []\<rparr>)")
  from load_history_fold[OF l] Inr nf l show ?thesis by (simp add: read_count_section(2))
qed

lemma loadFromFile_load_phases:
  "loadFromFile io (Some f) s = load_phases io (file_lines f) s"
proof -
  let ?K4 = "\<lambda>f s. (case read_count f of
      Inl e \<Rightarrow> (Inl e, s)
    | Inr (n, f1) \<Rightarrow> (case load_history (nat n) f1 (s\<lparr>rentalHistory := []\<rparr>) of (f2, s1) \<Rightarrow> (Inr (), s1)))"
  let ?K4' = "\<lambda>ls s. (case take_section ls of
        Inl e \<Rightarrow> (Inl e, s)
      | Inr (hs, l1) \<Rightarrow> (Inr (), s\<lparr>rentalHistory := hs\<rparr>))"
  let ?K3 = "\<lambda>f s. (case read_count f of
      Inl e \<Rightarrow> (Inl e, s)
    | Inr (n, f1) \<Rightarrow> (case load_rentals (nat n) f1 s of (f2, s1) \<Rightarrow> ?K4 f2 s1))"
  let ?K3' = "\<lambda>ls s. (case take_section ls of
        Inl e \<Rightarrow> (Inl e, s)
      | Inr (xs, l1) \<Rightarrow> ?K4' l1 (foldl replay_rental s xs))"
  let ?K2 = "\<lambda>f s. (case read_count f of
      Inl e \<Rightarrow> (Inl e, s)
    | Inr (n, f1) \<Rightarrow> (case load_customers (nat n) f1 s of (f2, s1) \<Rightarrow> ?K3 f2 s1))"
  let ?K2' = "\<lambda>ls s. (case take_section ls of
        Inl e \<Rightarrow> (Inl e, s)
      | Inr (xs, l1) \<Rightarrow> ?K3' l1 (foldl load_customer_line s xs))"
  let ?K1 = "\<lambda>f s. (case read_count f of
      Inl e \<Rightarrow> (Inl e, s)
    | Inr (n, f1) \<Rightarrow> (case load_vehicles io (nat n) f1 s of (f2, s1) \<Rightarrow> ?K2 f2 s1))"
  let ?K1' = "\<lambda>ls s. (case take_section ls of
        Inl e \<Rightarrow> (Inl e, s)
      | Inr (xs, l1) \<Rightarrow> ?K2' l1 (foldl (load_vehicle_line io) s xs))"
  have 4: "\<And>g t. ?K4 g t = ?K4' (file_lines g) t" by (rule history_stage)
  have 3: "\<And>g t. ?K3 g t = ?K3' (file_lines g) t"
    by (rule load_stage[where loader = load_rentals and K = ?K4 and K' = ?K4', OF load_rentals_fold 4])
  have 2: "\<And>g t. ?K2 g t = ?K2' (file_lines g) t"
    by (rule load_stage[where loader = load_customers and K = ?K3 and K' = ?K3', OF load_customers_fold 3])
  have 1: "?K1 f (clear_existing s) = ?K1' (file_lines f) (clear_existing s)"
    by (rule load_stage[where loader = "load_vehicles io" and K = ?K2 and K' = ?K2', OF load_vehicles_fold 2])
  have a: "loadFromFile io (Some f) s = ?K1 f (clear_existing s)"
    by (simp add: loadFromFile_def Let_def)
  have b: "load_phases io (file_lines f) s = ?K1' (file_lines f) (clear_existing s)"
    by (simp add: load_phases_def Let_def split: sum.splits prod.splits)
  from a b 1 show ?thesis by (simp only:)
qed

section \<open>Text of the saved file\<close>

lemma takeWhile_upto: "d \<notin> set l \<Longrightarrow> takeWhile (\<lambda>c. c \<noteq> d) (l @ d # rest) = l"
  by (induction l) auto

lemma dropWhile_upto: "d \<notin> set l \<Longrightarrow> dropWhile (\<lambda>c. c \<noteq> d) (l @ d # rest) = d # rest"
  by (induction l) auto

lemma takeWhile_all: "d \<notin> set l \<Longrightarrow> takeWhile (\<lambda>c. c \<noteq> d) l = l"
  by (induction l) auto

lemma dropWhile_all: "d \<notin> set l \<Longrightarrow> dropWhile (\<lambda>c. c \<noteq> d) l = []"
  by (induction l) auto

lemma getline_delim_line:
  assumes "d \<notin> set l"
  shows "getline_delim d (l @ d # rest) = Some (l, rest)"
  by (simp add: getline_delim_def takeWhile_upto[OF assms] dropWhile_upto[OF assms])

lemma getline_delim_last:
  assumes "d \<notin> set l" "l \<noteq> []"
  shows "getline_delim d l = Some (l, [])"
  using assms(2) by (simp add: getline_delim_def takeWhile_all[OF assms(1)] dropWhile_all[OF assms(1)])

lemma file_lines_line:
  "newline \<notin> set l \<Longrightarrow> file_lines (l @ newline # rest) = l # file_lines rest"
  by (rule file_lines_Some[OF getline_delim_line])

lemma file_lines_concat:
  assumes "\<And>x. x \<in> set xs \<Longrightarrow> newline \<notin> set (g x)"
  shows "file_lines (concat (map (\<lambda>x. g x @ [newline]) xs) @ rest) = map g xs @ file_lines rest"
  using assms by (induction xs) (simp_all add: file_lines_line)

lemma split_segments_empty: "split_segments [] = []"
  by (subst split_segments.simps) (simp add: getline_delim_def)

lemma split_segments_join:
  assumes "\<And>x. x \<in> set xs \<Longrightarrow> semicolon \<notin> set x" "xs \<noteq> []" "last xs \<noteq> []"
  shows "split_segments (join_fields xs) = xs"
  using assms
proof (induction xs rule: join_fields.induct)
  case 1
  then show ?case by simp
next
  case (2 x)
  then have "getline_delim semicolon x = Some (x, [])" by (simp add: getline_delim_last)
  then show ?case
    by (subst split_segments.simps) (simp add: split_segments_empty)
next
  case (3 x y ys)
  then have "getline_delim semicolon (x @ semicolon # join_fields (y # ys)) = Some (x, join_fields (y # ys))"
    by (simp add: getline_delim_line)
  moreover have "split_segments (join_fields (y # ys)) = y # ys"
    using 3 by simp
  ultimately show ?case
    by (subst split_segments.simps) simp
qed

lemma vehicle_line_join: "vehicle_line io v = join_fields (vehicle_fields io v) @ [newline]"
  by (cases "variant v") (simp_all add: vehicle_line_def vehicle_fields_def semicolon_def)

lemma customer_line_join: "customer_line c = join_fields (customer_fields c) @ [newline]"
  by (cases "cvariant c") (simp_all add: customer_line_def customer_fields_def semicolon_def)

lemma rental_line_join: "rental_line s r = join_fields (rental_fields s r) @ [newline]"
  by (simp add: rental_line_def rental_fields_def semicolon_def)

text \<open>Decimal text of a number and \<open>stoi\<close>.\<close>

lemma digit_char_props:
  "d < 10 \<Longrightarrow> isdigit (digit_char d) \<and> digit_val (digit_char d) = int d"
  by (simp add: digit_char_def isdigit_def digit_val_def)

lemma digits_val_snoc: "digits_val a (xs @ [c]) = 10 * digits_val a xs + digit_val c"
  by (induction xs arbitrary: a) simp_all

lemma put_nat_props:
  "put_nat n \<noteq> [] \<and> list_all isdigit (put_nat n) \<and> digits_val 0 (put_nat n) = int n"
proof (induction n rule: put_nat.induct)
  case (1 n)
  show ?case
  proof (cases "n < 10")
    case True
    then show ?thesis
      by (subst (1 2 3) put_nat.simps) (simp add: digit_char_props)
  next
    case False
    with 1 have IH: "put_nat (n div 10) \<noteq> []" "list_all isdigit (put_nat (n div 10))"
      "digits_val 0 (put_nat (n div 10)) = int (n div 10)" by simp_all
    have m: "n mod 10 < 10" by simp
    from False IH digit_char_props[OF m] show ?thesis
      by (subst (1 2 3) put_nat.simps) (simp add: digits_val_snoc zdiv_int zmod_int)
  qed
qed

lemma isdigit_clean: "isdigit c \<Longrightarrow> c \<noteq> semicolon \<and> c \<noteq> newline"
  by (auto simp: isdigit_def semicolon_def newline_def)

lemma digits_field_ok: "xs \<noteq> [] \<Longrightarrow> list_all isdigit xs \<Longrightarrow> field_ok xs"
  using isdigit_clean by (auto simp: field_ok_def list_all_iff)

lemma stoi_digits:
  assumes "ds \<noteq> []" "list_all isdigit ds" "digits_val 0 ds \<le> 2147483647" "0 \<le> digits_val 0 ds"
  shows "stoi ds = Inr (digits_val 0 ds)"
proof -
  from assms obtain c cs where ds: "ds = c # cs" by (cases ds) auto
  with assms have c: "isdigit c" by simp
  have a: "dropWhile isspace ds = ds" using c by (simp add: ds isdigit_not_isspace)
  have b: "takeWhile isdigit ds = ds" using assms(2) by (simp add: takeWhile_eq_all_conv list_all_iff)
  from isdigit_not_sign[OF c] have h: "hd ds \<noteq> CHR ''-''" "hd ds \<noteq> CHR ''+''" by (simp_all add: ds)
  from assms(1,3,4) h show ?thesis by (simp add: stoi_def Let_def a b)
qed

lemma stoi_put_nat: "n < 2147483648 \<Longrightarrow> stoi (put_nat n) = Inr (int n)"
  using put_nat_props[of n] stoi_digits[of "put_nat n"] by simp

lemma put_nat_field_ok: "field_ok (put_nat n)"
  using put_nat_props[of n] digits_field_ok by blast

lemma stoi_neg_digits:
  assumes "ds \<noteq> []" "list_all isdigit ds" "digits_val 0 ds \<le> 2147483648"
  shows "stoi (CHR ''-'' # ds) = Inr (- digits_val 0 ds)"
proof -
  have sp: "\<not> isspace (CHR ''-'')" by (simp add: isspace_def)
  have b: "takeWhile isdigit ds = ds" using assms(2) by (simp add: takeWhile_eq_all_conv list_all_iff)
  have nn: "0 \<le> digits_val 0 ds"
    using assms(2) by (induction ds rule: rev_induct) (auto simp: digits_val_snoc dest: digit_val_range)
  from assms(1,3) sp nn show ?thesis by (simp add: stoi_def Let_def b)
qed

lemma stoi_put_int: "int_ok i \<Longrightarrow> stoi (put_int i) = Inr i"
proof (cases "i < 0")
  case True
  assume "int_ok i"
  with True put_nat_props[of "nat (- i)"] stoi_neg_digits[of "put_nat (nat (- i))"]
  show ?thesis by (simp add: put_int_def int_ok_def)
next
  case False
  assume "int_ok i"
  with False stoi_put_nat[of "nat i"] show ?thesis by (simp add: put_int_def int_ok_def)
qed

lemma put_int_field_ok: "field_ok (put_int i)"
  using put_nat_field_ok[of "nat i"] put_nat_field_ok[of "nat (- i)"]
  by (auto simp: put_int_def field_ok_def semicolon_def newline_def)

section \<open>Reading back a saved line\<close>

lemma join_fields_clean:
  "(\<And>x. x \<in> set xs \<Longrightarrow> newline \<notin> set x) \<Longrightarrow> newline \<notin> set (join_fields xs)"
  by (induction xs rule: join_fields.induct) (auto simp: semicolon_def newline_def)

lemma field_okD: "field_ok x \<Longrightarrow> x \<noteq> [] \<and> semicolon \<notin> set x \<and> newline \<notin> set x"
  by (simp add: field_ok_def)

lemma tag_field_ok:
  "field_ok ''CombustionCar''" "field_ok ''ElectricCar''" "field_ok ''Truck''"
  "field_ok ''Motorcycle''" "field_ok ''PrivateCustomer''" "field_ok ''BusinessCustomer''"
  by (simp_all add: field_ok_def semicolon_def newline_def)

lemma vehicle_fields_ok:
  assumes "vehicle_storable io v"
  shows "list_all field_ok (vehicle_fields io v)"
  using assms
  by (cases "variant v")
     (simp_all add: vehicle_storable_def vehicle_fields_def double_ok_def put_int_field_ok
        tag_field_ok)

lemma fields_split:
  assumes "list_all field_ok xs" "xs \<noteq> []"
  shows "split_segments (join_fields xs) = xs \<and> newline \<notin> set (join_fields xs)"
proof -
  from assms have a: "\<And>x. x \<in> set xs \<Longrightarrow> semicolon \<notin> set x" and b: "\<And>x. x \<in> set xs \<Longrightarrow> newline \<notin> set x"
    and c: "last xs \<noteq> []"
    by (auto simp: list_all_iff field_ok_def)
  from split_segments_join[OF a assms(2) c] join_fields_clean[OF b] show ?thesis by blast
qed

lemma parse_vehicle_fields:
  assumes "vehicle_storable io v"
  shows "parse_vehicle io (vehicle_fields io v) = Inr (Some v)"
proof (cases v)
  case (fields reg br mo mi co lc var)
  show ?thesis
  proof (cases var)
    case (CombustionCar e c f d)
    with assms fields show ?thesis
      by (simp add: vehicle_storable_def vehicle_fields_def parse_vehicle_def bindE_def
          stoi_put_int double_ok_def CombustionCar_ctor_def CombustionVehicle_ctor_def
          Vehicle_ctor_def mk_vehicle_def field_ok_def)
  next
    case (ElectricCar b d)
    with assms fields show ?thesis
      by (simp add: vehicle_storable_def vehicle_fields_def parse_vehicle_def bindE_def
          stoi_put_int double_ok_def ElectricCar_ctor_def ElectricVehicle_ctor_def
          Vehicle_ctor_def mk_vehicle_def field_ok_def)
  next
    case (Truck e c f cap)
    with assms fields show ?thesis
      by (simp add: vehicle_storable_def vehicle_fields_def parse_vehicle_def bindE_def
          stoi_put_int double_ok_def Truck_ctor_def CombustionVehicle_ctor_def
          Vehicle_ctor_def mk_vehicle_def field_ok_def)
  next
    case (Motorcycle e c f)
    with assms fields show ?thesis
      by (simp add: vehicle_storable_def vehicle_fields_def parse_vehicle_def bindE_def
          stoi_put_int double_ok_def Motorcycle_ctor_def CombustionVehicle_ctor_def
          Vehicle_ctor_def mk_vehicle_def field_ok_def)
  qed
qed

lemma vehicle_fields_nonempty: "vehicle_fields io v \<noteq> []"
  by (cases "variant v") (simp_all add: vehicle_fields_def)

lemma load_vehicle_line_roundtrip:
  assumes "vehicle_storable io v"
  shows "load_vehicle_line io s (join_fields (vehicle_fields io v)) = push_new_vehicle s v"
    and "newline \<notin> set (join_fields (vehicle_fields io v))"
  using fields_split[OF vehicle_fields_ok[OF assms] vehicle_fields_nonempty]
    parse_vehicle_fields[OF assms] vehicle_fields_nonempty[of io v]
  by (simp_all add: load_vehicle_line_def)

lemma customer_fields_ok:
  assumes "customer_storable c"
  shows "list_all field_ok (customer_fields c)"
  using assms
  by (cases "cvariant c")
     (simp_all add: customer_storable_def customer_fields_def tag_field_ok)

lemma parse_customer_fields:
  assumes "customer_storable c"
  shows "parse_customer (customer_fields c) = Inr (Some c)"
proof (cases c)
  case (fields i n a var)
  show ?thesis
  proof (cases var)
    case (PrivateCustomer x)
    with assms fields show ?thesis
      by (simp add: customer_storable_def customer_fields_def parse_customer_def bindE_def
          PrivateCustomer_ctor_def Customer_ctor_def field_ok_def)
  next
    case (BusinessCustomer x)
    with assms fields show ?thesis
      by (simp add: customer_storable_def customer_fields_def parse_customer_def bindE_def
          BusinessCustomer_ctor_def Customer_ctor_def field_ok_def)
  qed
qed

lemma customer_fields_nonempty: "customer_fields c \<noteq> []"
  by (cases "cvariant c") (simp_all add: customer_fields_def)

lemma load_customer_line_roundtrip:
  assumes "customer_storable c"
  shows "load_customer_line s (join_fields (customer_fields c)) = push_new_customer s c"
    and "newline \<notin> set (join_fields (customer_fields c))"
  using fields_split[OF customer_fields_ok[OF assms] customer_fields_nonempty]
    parse_customer_fields[OF assms] customer_fields_nonempty[of c]
  by (simp_all add: load_customer_line_def)

lemma calendar_valid_field_ok: "calendar_valid d \<Longrightarrow> field_ok d"
proof -
  assume "calendar_valid d"
  then have sh: "date_shape d" by (simp add: calendar_valid_def)
  then obtain c0 c1 c2 c3 c4 c5 c6 c7 c8 c9 where d: "d = [c0, c1, c2, c3, c4, c5, c6, c7, c8, c9]"
    using length10[of d] by (auto simp: date_shape_def)
  from sh show ?thesis
    using isdigit_clean
    by (auto simp: d date_shape_def field_ok_def semicolon_def newline_def)
qed

lemma take_section_put_nat:
  assumes "n < 2147483648"
  shows "take_section (put_nat n # ls) = Inr (take n ls, drop n ls)"
  by (simp add: take_section_def bindE_def stoi_put_nat[OF assms])

section \<open>Rebuilding the state from the saved lines\<close>

lemma vehicle_list_push:
  assumes "wf s"
  shows "vehicle_list (push_new_vehicle s v) = vehicle_list s @ [v]"
proof -
  have "\<And>p. p \<in> set (vehicles s) \<Longrightarrow> p \<noteq> next_ptr s"
    using wf_vehicle_bound[OF assms] by fastforce
  then show ?thesis
    by (auto simp: vehicle_list_def push_new_vehicle_def vobj_def)
qed

lemma customer_list_push:
  assumes "wf s"
  shows "customer_list (push_new_customer s c) = customer_list s @ [c]"
proof -
  have "\<And>p. p \<in> set (customers s) \<Longrightarrow> p \<noteq> next_ptr s"
    using wf_customer_bound[OF assms] by fastforce
  then show ?thesis
    by (auto simp: customer_list_def push_new_customer_def cobj_def)
qed

lemma push_new_vehicle_frame:
  "customer_list (push_new_vehicle s v) = customer_list s"
  "rentals (push_new_vehicle s v) = rentals s"
  "rentalHistory (push_new_vehicle s v) = rentalHistory s"
  by (simp_all add: customer_list_def push_new_vehicle_def cobj_def)

lemma push_new_customer_frame:
  "vehicle_list (push_new_customer s c) = vehicle_list s"
  "rentals (push_new_customer s c) = rentals s"
  "rentalHistory (push_new_customer s c) = rentalHistory s"
  by (simp_all add: vehicle_list_def push_new_customer_def vobj_def)

lemma foldl_push_vehicles:
  "wf s \<Longrightarrow>
    wf (foldl push_new_vehicle s vs)
    \<and> vehicle_list (foldl push_new_vehicle s vs) = vehicle_list s @ vs
    \<and> customer_list (foldl push_new_vehicle s vs) = customer_list s
    \<and> rentals (foldl push_new_vehicle s vs) = rentals s
    \<and> rentalHistory (foldl push_new_vehicle s vs) = rentalHistory s"
proof (induction vs arbitrary: s)
  case Nil
  then show ?case by simp
next
  case (Cons v vs)
  from Cons.IH[OF wf_push_new_vehicle[OF Cons.prems], of v] show ?case
    by (simp add: vehicle_list_push[OF Cons.prems] push_new_vehicle_frame)
qed

lemma foldl_push_customers:
  "wf s \<Longrightarrow>
    wf (foldl push_new_customer s cs)
    \<and> customer_list (foldl push_new_customer s cs) = customer_list s @ cs
    \<and> vehicle_list (foldl push_new_customer s cs) = vehicle_list s
    \<and> rentals (foldl push_new_customer s cs) = rentals s
    \<and> rentalHistory (foldl push_new_customer s cs) = rentalHistory s"
proof (induction cs arbitrary: s)
  case Nil
  then show ?case by simp
next
  case (Cons c cs)
  from Cons.IH[OF wf_push_new_customer[OF Cons.prems], of c] show ?case
    by (simp add: customer_list_push[OF Cons.prems] push_new_customer_frame)
qed

lemma foldl_load_vehicle_lines:
  "(\<And>v. v \<in> set vs \<Longrightarrow> vehicle_storable io v) \<Longrightarrow>
    foldl (load_vehicle_line io) s (map (\<lambda>v. join_fields (vehicle_fields io v)) vs)
      = foldl push_new_vehicle s vs"
  by (induction vs arbitrary: s) (simp_all add: load_vehicle_line_roundtrip(1))

lemma foldl_load_customer_lines:
  "(\<And>c. c \<in> set cs \<Longrightarrow> customer_storable c) \<Longrightarrow>
    foldl load_customer_line s (map (\<lambda>c. join_fields (customer_fields c)) cs)
      = foldl push_new_customer s cs"
  by (induction cs arbitrary: s) (simp_all add: load_customer_line_roundtrip(1))

lemma find_by_key:
  "distinct (map (\<lambda>p. key (g p)) ps) \<Longrightarrow> q \<in> set ps \<Longrightarrow>
    find (\<lambda>p. key (g p) = key (g q)) ps = Some q"
  by (induction ps) (auto simp: image_iff)

lemma getVehicle_by_reg:
  assumes "wf s" "distinct (map (\<lambda>p. regNumber (vobj s p)) (vehicles s))" "q \<in> set (vehicles s)"
  shows "getVehicle s (regNumber (vobj s q)) = q \<and> q \<noteq> nullptr"
  using find_by_key[of regNumber "vobj s" "vehicles s" q, OF assms(2,3)] wf_vehicle_bound[OF assms(1,3)]
  by (simp add: getVehicle_def)

lemma getCustomer_by_id:
  assumes "wf s" "distinct (map (\<lambda>p. cid (cobj s p)) (customers s))" "q \<in> set (customers s)"
  shows "getCustomer s (cid (cobj s q)) = q \<and> q \<noteq> nullptr"
  using find_by_key[of cid "cobj s" "customers s" q, OF assms(2,3)] wf_customer_bound[OF assms(1,3)]
  by (simp add: getCustomer_def)

lemma wf_replay_rental: "wf s \<Longrightarrow> wf (replay_rental s l)"
  by (simp add: replay_rental_snd wf_rentVehicle)

text \<open>Replaying the line of one rental in a state that holds its vehicle and customer.\<close>

lemma replay_one:
  assumes w: "wf t"
    and dv: "distinct (map (\<lambda>p. regNumber (vobj t p)) (vehicles t))"
    and dc: "distinct (map (\<lambda>p. cid (cobj t p)) (customers t))"
    and p: "p \<in> set (vehicles t)" and q: "q \<in> set (customers t)"
    and ok: "field_ok (regNumber (vobj t p))" "field_ok (cid (cobj t q))"
    and dates: "calendar_valid a" "calendar_valid b" "\<not> string_le b a"
    and free: "regNumber (vobj t p) \<notin> rental_reg t ` set (rentals t)"
  shows "replay_rental t (join_fields [regNumber (vobj t p), cid (cobj t q), a, b])
    = t\<lparr>rentals := rentals t @ [\<lparr>vehicle_ptr = p, customer_ptr = q, startDate = a, endDate = b\<rparr>]\<rparr>"
proof -
  let ?fs = "[regNumber (vobj t p), cid (cobj t q), a, b]"
  have "list_all field_ok ?fs" using ok dates(1,2) by (simp add: calendar_valid_field_ok)
  from fields_split[OF this] have sp: "split_segments (join_fields ?fs) = ?fs" by simp
  from getVehicle_by_reg[OF w dv p] have gv: "getVehicle t (regNumber (vobj t p)) = p" "p \<noteq> nullptr"
    by simp_all
  from getCustomer_by_id[OF w dc q] have gc: "getCustomer t (cid (cobj t q)) = q" "q \<noteq> nullptr"
    by simp_all
  from free have nr: "\<not> list_ex (\<lambda>r. rental_reg t r = regNumber (vobj t p)) (rentals t)"
    by (force simp: list_ex_iff image_iff)
  have ctor: "Rental_ctor p q a b = Inr \<lparr>vehicle_ptr = p, customer_ptr = q, startDate = a, endDate = b\<rparr>"
    using gv(2) gc(2) dates by (simp add: Rental_ctor_def isValidDate_iff)
  have "rentVehicle t (regNumber (vobj t p)) (cid (cobj t q)) a b
    = (Inr (), t\<lparr>rentals := rentals t @ [\<lparr>vehicle_ptr = p, customer_ptr = q, startDate = a, endDate = b\<rparr>]\<rparr>)"
    using gv gc nr ctor by (simp add: rentVehicle_def Let_def)
  then show ?thesis
    unfolding replay_rental_def sp by (simp add: Let_def)
qed

lemma storable_iff:
  "storable io s \<longleftrightarrow>
    (\<forall>p\<in>set (vehicles s). vehicle_storable io (vobj s p))
    \<and> (\<forall>p\<in>set (customers s). customer_storable (cobj s p))
    \<and> distinct (map regNumber (vehicle_list s))
    \<and> distinct (map cid (customer_list s))
    \<and> (\<forall>h\<in>set (rentalHistory s). newline \<notin> set h)
    \<and> length (vehicles s) < 2147483648 \<and> length (customers s) < 2147483648
    \<and> length (rentals s) < 2147483648 \<and> length (rentalHistory s) < 2147483648"
  by (simp add: storable_def list_all_iff vehicle_list_def customer_list_def comp_def)

lemma obj_rentals_update:
  "vobj (t\<lparr>rentals := x\<rparr>) = vobj t" "cobj (t\<lparr>rentals := x\<rparr>) = cobj t"
  by (simp_all add: vobj_def cobj_def fun_eq_iff)

lemma obj_history_update:
  "vobj (t\<lparr>rentalHistory := h\<rparr>) = vobj t" "cobj (t\<lparr>rentalHistory := h\<rparr>) = cobj t"
  by (simp_all add: vobj_def cobj_def fun_eq_iff)

lemma rental_list_snoc:
  "rental_list (t\<lparr>rentals := rentals t @ [r]\<rparr>)
    = rental_list t @ [(vobj t (vehicle_ptr r), cobj t (customer_ptr r), startDate r, endDate r)]"
  by (simp add: rental_list_def vobj_def cobj_def)

lemma replay_all:
  assumes ws: "wf s" and st: "storable io s"
  shows "wf t \<Longrightarrow> vehicle_list t = vehicle_list s \<Longrightarrow> customer_list t = customer_list s
    \<Longrightarrow> set rs \<subseteq> set (rentals s) \<Longrightarrow> distinct (map (rental_reg s) rs)
    \<Longrightarrow> rental_reg s ` set rs \<inter> rental_reg t ` set (rentals t) = {}
    \<Longrightarrow> wf (foldl replay_rental t (map (\<lambda>r. join_fields (rental_fields s r)) rs))
      \<and> vehicle_list (foldl replay_rental t (map (\<lambda>r. join_fields (rental_fields s r)) rs)) = vehicle_list s
      \<and> customer_list (foldl replay_rental t (map (\<lambda>r. join_fields (rental_fields s r)) rs)) = customer_list s
      \<and> rentalHistory (foldl replay_rental t (map (\<lambda>r. join_fields (rental_fields s r)) rs)) = rentalHistory t
      \<and> rental_list (foldl replay_rental t (map (\<lambda>r. join_fields (rental_fields s r)) rs))
          = rental_list t @ map (\<lambda>r. (vobj s (vehicle_ptr r), cobj s (customer_ptr r), startDate r, endDate r)) rs"
proof (induction rs arbitrary: t)
  case Nil
  then show ?case by simp
next
  case (Cons r rs)
  let ?p = "vehicle_ptr r" and ?q = "customer_ptr r"
  from Cons.prems(4) have rin: "r \<in> set (rentals s)" by simp
  from ws rin have pin: "?p \<in> set (vehicles s)" and qin: "?q \<in> set (customers s)"
    and dates: "calendar_valid (startDate r)" "calendar_valid (endDate r)"
      "\<not> string_le (endDate r) (startDate r)"
    by (simp_all add: wf_iff)
  from pin have "vobj s ?p \<in> set (vehicle_list s)" by (simp add: vehicle_list_def)
  then have "vobj s ?p \<in> set (vehicle_list t)" by (simp only: Cons.prems(2))
  then obtain p' where p': "p' \<in> set (vehicles t)" "vobj t p' = vobj s ?p"
    by (auto simp: vehicle_list_def)
  from qin have "cobj s ?q \<in> set (customer_list s)" by (simp add: customer_list_def)
  then have "cobj s ?q \<in> set (customer_list t)" by (simp only: Cons.prems(3))
  then obtain q' where q': "q' \<in> set (customers t)" "cobj t q' = cobj s ?q"
    by (auto simp: customer_list_def)
  from st have "distinct (map regNumber (vehicle_list t))" "distinct (map cid (customer_list t))"
    by (simp_all only: storable_iff Cons.prems(2,3))
  then have dv: "distinct (map (\<lambda>p. regNumber (vobj t p)) (vehicles t))"
    and dc: "distinct (map (\<lambda>p. cid (cobj t p)) (customers t))"
    by (simp_all add: vehicle_list_def customer_list_def comp_def)
  from st pin qin have ok: "field_ok (regNumber (vobj t p'))" "field_ok (cid (cobj t q'))"
    by (simp_all add: storable_iff p' q' vehicle_storable_def customer_storable_def)
  have free: "regNumber (vobj t p') \<notin> rental_reg t ` set (rentals t)"
    using Cons.prems(6) by (auto simp: p' rental_reg_def)
  define t1 where "t1 = t\<lparr>rentals := rentals t @ [\<lparr>vehicle_ptr = p', customer_ptr = q',
      startDate = startDate r, endDate = endDate r\<rparr>]\<rparr>"
  have line: "join_fields (rental_fields s r)
      = join_fields [regNumber (vobj t p'), cid (cobj t q'), startDate r, endDate r]"
    by (simp add: rental_fields_def rental_reg_def rental_cid_def p' q')
  have step: "replay_rental t (join_fields (rental_fields s r)) = t1"
    unfolding line t1_def
    by (rule replay_one[OF Cons.prems(1) dv dc p'(1) q'(1) ok dates free])
  have w1: "wf t1" using wf_replay_rental[OF Cons.prems(1), of "join_fields (rental_fields s r)"]
    by (simp add: step)
  have v1: "vehicle_list t1 = vehicle_list s" "customer_list t1 = customer_list s"
    using Cons.prems(2,3) by (simp_all add: t1_def vehicle_list_def customer_list_def obj_rentals_update)
  have h1: "rentalHistory t1 = rentalHistory t" by (simp add: t1_def)
  have r1: "rental_list t1 = rental_list t @ [(vobj s ?p, cobj s ?q, startDate r, endDate r)]"
    by (simp add: t1_def rental_list_snoc p' q')
  have regs1: "rental_reg t1 ` set (rentals t1) = insert (rental_reg s r) (rental_reg t ` set (rentals t))"
    by (auto simp: t1_def rental_reg_def vobj_def p'(2)[unfolded vobj_def] image_iff)
  have disj1: "rental_reg s ` set rs \<inter> rental_reg t1 ` set (rentals t1) = {}"
    using Cons.prems(5,6) by (auto simp: regs1)
  from Cons.prems(4,5) have sub: "set rs \<subseteq> set (rentals s)" "distinct (map (rental_reg s) rs)"
    by simp_all
  from Cons.IH[OF w1 v1 sub disj1] show ?case
    by (simp add: step h1 r1)
qed

lemma take_section_counted:
  assumes "length xs < 2147483648"
  shows "take_section (put_nat (length xs) # xs @ rest) = Inr (xs, rest)"
  by (simp add: take_section_put_nat[OF assms])

lemma clear_existing_init: "clear_existing init_manager = init_manager"
  by (simp add: clear_existing_def init_manager_def)

lemma views_history_update:
  "vehicle_list (t\<lparr>rentalHistory := h\<rparr>) = vehicle_list t"
  "customer_list (t\<lparr>rentalHistory := h\<rparr>) = customer_list t"
  "rental_list (t\<lparr>rentalHistory := h\<rparr>) = rental_list t"
  by (simp_all add: vehicle_list_def customer_list_def rental_list_def obj_history_update)

text \<open>The lines of a saved file.\<close>

lemma saved_lines:
  assumes w: "wf s" and st: "storable io s"
  shows "saveToFile io True s = Inr f \<Longrightarrow>
    file_lines f =
      put_nat (length (vehicles s)) # map (\<lambda>v. join_fields (vehicle_fields io v)) (vehicle_list s)
      @ (put_nat (length (customers s)) # map (\<lambda>c. join_fields (customer_fields c)) (customer_list s)
      @ (put_nat (length (rentals s)) # map (\<lambda>r. join_fields (rental_fields s r)) (rentals s)
      @ (put_nat (length (rentalHistory s)) # rentalHistory s)))"
proof -
  assume "saveToFile io True s = Inr f"
  then have f: "f = put_nat (length (vehicles s)) @ newline #
       (concat (map (\<lambda>p. join_fields (vehicle_fields io (vobj s p)) @ [newline]) (vehicles s))
       @ (put_nat (length (customers s)) @ newline #
       (concat (map (\<lambda>p. join_fields (customer_fields (cobj s p)) @ [newline]) (customers s))
       @ (put_nat (length (rentals s)) @ newline #
       (concat (map (\<lambda>r. join_fields (rental_fields s r) @ [newline]) (rentals s))
       @ (put_nat (length (rentalHistory s)) @ newline #
       concat (map (\<lambda>h. h @ [newline]) (rentalHistory s))))))))"
    by (auto simp: saveToFile_def vehicle_line_join customer_line_join
        rental_line_join[abs_def])
  have nl: "\<And>n. newline \<notin> set (put_nat n)"
    using put_nat_field_ok by (simp add: field_ok_def)
  have v: "\<And>p. p \<in> set (vehicles s) \<Longrightarrow> newline \<notin> set (join_fields (vehicle_fields io (vobj s p)))"
    using st by (simp add: storable_iff load_vehicle_line_roundtrip(2))
  have c: "\<And>p. p \<in> set (customers s) \<Longrightarrow> newline \<notin> set (join_fields (customer_fields (cobj s p)))"
    using st by (simp add: storable_iff load_customer_line_roundtrip(2))
  have r: "\<And>r. r \<in> set (rentals s) \<Longrightarrow> newline \<notin> set (join_fields (rental_fields s r))"
  proof -
    fix r assume rin: "r \<in> set (rentals s)"
    with w have "vehicle_ptr r \<in> set (vehicles s)" "customer_ptr r \<in> set (customers s)"
      "calendar_valid (startDate r)" "calendar_valid (endDate r)"
      by (simp_all add: wf_iff)
    with st have "list_all field_ok (rental_fields s r)"
      by (simp add: rental_fields_def rental_reg_def rental_cid_def storable_iff
          vehicle_storable_def customer_storable_def calendar_valid_field_ok)
    from fields_split[OF this] show "newline \<notin> set (join_fields (rental_fields s r))"
      by (simp add: rental_fields_def)
  qed
  have h: "\<And>x. x \<in> set (rentalHistory s) \<Longrightarrow> newline \<notin> set x"
    using st by (simp add: storable_iff)
  have "file_lines (concat (map (\<lambda>h. h @ [newline]) (rentalHistory s)) @ [])
     = map (\<lambda>h. h) (rentalHistory s) @ file_lines []"
    by (rule file_lines_concat[OF h])
  then have h1: "file_lines (concat (map (\<lambda>h. h @ [newline]) (rentalHistory s))) = rentalHistory s"
    by (simp add: file_lines_empty)
  show ?thesis
    unfolding f
    by (simp only: file_lines_line[OF nl] file_lines_concat[of "vehicles s", OF v]
        file_lines_concat[of "customers s", OF c] file_lines_concat[of "rentals s", OF r] h1)
       (simp add: vehicle_list_def customer_list_def comp_def)
qed

section \<open>Claims about persistence\<close>

text \<open>
  Loading from a file that cannot be opened is not an error and returns before anything is
  cleared: the state stays as it was, so the fresh manager that \<^verbatim>\<open>main\<close> loads into stays
  empty. Loading from a file that opens is \<open>load_phases\<close> on the lines of the file.
\<close>

lemma loadFromFile_missing:
  "loadFromFile io None s = (Inr (), s)
   \<and> loadFromFile io None init_manager = (Inr (), init_manager)"
  by (simp add: loadFromFile_def)

text \<open>The example file, loaded over the state that has a history line: the car, the customer
  and the first rental are rebuilt, the second rental line is skipped because the car is
  already rented, and the history is the empty last section.\<close>

lemma loadFromFile_ex_file:
  "file_lines ex_file
       = [''1'', ''CombustionCar;Fiat;Panda;KR12345;100;1200;5.5;0;1;1000;4'',
          ''1'', ''PrivateCustomer;Jan Kowalski;Krakow;ABC123'',
          ''2'', ''KR12345;ABC123;2024-01-01;2024-01-04'', ''KR12345;ABC123;2024-02-01;2024-02-02'',
          ''0'']
   \<and> fst (loadFromFile ex_io (Some ex_file) ex_returned) = Inr ()
   \<and> vehicle_list (snd (loadFromFile ex_io (Some ex_file) ex_returned)) = [ex_car]
   \<and> customer_list (snd (loadFromFile ex_io (Some ex_file) ex_returned)) = [ex_customer]
   \<and> rental_list (snd (loadFromFile ex_io (Some ex_file) ex_returned))
       = [(ex_car, ex_customer, ''2024-01-01'', ''2024-01-04'')]
   \<and> rentalHistory (snd (loadFromFile ex_io (Some ex_file) ex_returned)) = []"
proof -
  have l: "file_lines ex_file
       = [''1'', ''CombustionCar;Fiat;Panda;KR12345;100;1200;5.5;0;1;1000;4'',
          ''1'', ''PrivateCustomer;Jan Kowalski;Krakow;ABC123'',
          ''2'', ''KR12345;ABC123;2024-01-01;2024-01-04'', ''KR12345;ABC123;2024-02-01;2024-02-02'',
          ''0'']"
    by code_simp
  have e: "fst (loadFromFile ex_io (Some ex_file) ex_returned) = Inr ()"
    "vehicle_list (snd (loadFromFile ex_io (Some ex_file) ex_returned)) = [ex_car]"
    "customer_list (snd (loadFromFile ex_io (Some ex_file) ex_returned)) = [ex_customer]"
    "rental_list (snd (loadFromFile ex_io (Some ex_file) ex_returned))
       = [(ex_car, ex_customer, ''2024-01-01'', ''2024-01-04'')]"
    "rentalHistory (snd (loadFromFile ex_io (Some ex_file) ex_returned)) = []"
    by code_simp+
  from l e show ?thesis by blast
qed

text \<open>
  Claim C9 says that loading first clears all in-memory state. The note of \<^verbatim>\<open>loadFromFile\<close>
  says the same: ``Clears current state before loading''. The block \<^verbatim>\<open>// Clear existing\<close>
  clears the rentals, the vehicles and the customers but not the history, which is
  cleared only before the history section is read; and the \<^verbatim>\<open>std::stoi\<close> of a count line is
  outside every \<^verbatim>\<open>try\<close>, unlike the parsing of the lines. So for the manager that holds the
  car, the customer and the history line of one returned rental, and a file that opens
  and holds the line \<^verbatim>\<open>x\<close>, \<^verbatim>\<open>loadFromFile\<close> throws \<^verbatim>\<open>std::invalid_argument\<close> and leaves a manager
  with no vehicle, no customer and no rental that still holds the old history line.
\<close>

theorem load_keeps_history:
  "vehicle_list ex_returned = [ex_car\<lparr>mileage := 1500\<rparr>]
   \<and> customer_list ex_returned = [ex_customer]
   \<and> rentalHistory ex_returned
       = [''Fiat Panda (KR12345);Jan Kowalski (ABC123);2024-01-01;2024-01-04;300'']
   \<and> loadFromFile ex_io (Some ''x'') ex_returned
       = (Inl (InvalidArgument ''stoi''), clear_existing ex_returned)
   \<and> vehicles (clear_existing ex_returned) = []
   \<and> customers (clear_existing ex_returned) = []
   \<and> rentals (clear_existing ex_returned) = []
   \<and> rentalHistory (clear_existing ex_returned)
       = [''Fiat Panda (KR12345);Jan Kowalski (ABC123);2024-01-01;2024-01-04;300'']"
proof -
  have rc: "read_count ''x'' = Inl (InvalidArgument ''stoi'')" by code_simp
  have a: "loadFromFile ex_io (Some ''x'') ex_returned
     = (Inl (InvalidArgument ''stoi''), clear_existing ex_returned)"
    by (simp add: loadFromFile_def rc)
  have b: "rentalHistory ex_returned
       = [''Fiat Panda (KR12345);Jan Kowalski (ABC123);2024-01-01;2024-01-04;300'']"
    by code_simp
  have c: "vehicle_list ex_returned = [ex_car\<lparr>mileage := 1500\<rparr>]"
    "customer_list ex_returned = [ex_customer]"
    by code_simp+
  from a b c show ?thesis by (simp add: clear_existing_def)
qed

text \<open>Read off \<open>load_keeps_history\<close>: a load that throws and leaves a manager without
  vehicles whose history is not empty.\<close>

theorem load_keeps_history_witness:
  "\<exists>io f s e. fst (loadFromFile io (Some f) s) = Inl e
     \<and> vehicles (snd (loadFromFile io (Some f) s)) = []
     \<and> rentalHistory (snd (loadFromFile io (Some f) s)) \<noteq> []"
proof -
  from load_keeps_history
  have "fst (loadFromFile ex_io (Some ''x'') ex_returned) = Inl (InvalidArgument ''stoi'')
     \<and> vehicles (snd (loadFromFile ex_io (Some ''x'') ex_returned)) = []
     \<and> rentalHistory (snd (loadFromFile ex_io (Some ''x'') ex_returned)) \<noteq> []"
    by simp
  then show ?thesis by blast
qed

text \<open>
  Claim C8 says that saving any state and loading the file reproduces it. The format has
  no escaping: a customer named \<^verbatim>\<open>A;B\<close>, whom the constructor accepts, is saved as the line
  \<^verbatim>\<open>PrivateCustomer;A;B;Krakow;ID1\<close> and read back as the customer \<^verbatim>\<open>Krakow\<close> named \<^verbatim>\<open>A\<close> at
  the address \<^verbatim>\<open>B\<close>.
\<close>

theorem roundtrip_semicolon_counterexample:
  "reachable ex_io ex_semicolon
   \<and> PrivateCustomer_ctor ''A;B'' ''Krakow'' ''ID1'' = Inr ex_semicolon_customer
   \<and> customer_list ex_semicolon = [ex_semicolon_customer]
   \<and> saveToFile ex_io True ex_semicolon = Inr ex_semicolon_file
   \<and> fst (loadFromFile ex_io (Some ex_semicolon_file) init_manager) = Inr ()
   \<and> customer_list (snd (loadFromFile ex_io (Some ex_semicolon_file) init_manager))
       = [\<lparr>cid = ''Krakow'', name = ''A'', address = ''B'', cvariant = PrivateCustomer ''Krakow''\<rparr>]
   \<and> customer_list (snd (loadFromFile ex_io (Some ex_semicolon_file) init_manager))
       \<noteq> customer_list ex_semicolon"
proof -
  have r: "reachable ex_io ex_semicolon"
    unfolding ex_semicolon_def by (intro reachable_step reachable_init)
  have a: "PrivateCustomer_ctor ''A;B'' ''Krakow'' ''ID1'' = Inr ex_semicolon_customer" by code_simp
  have b: "customer_list ex_semicolon = [ex_semicolon_customer]" by code_simp
  have c: "saveToFile ex_io True ex_semicolon = Inr ex_semicolon_file" by code_simp
  have d: "fst (loadFromFile ex_io (Some ex_semicolon_file) init_manager) = Inr ()" by code_simp
  have e: "customer_list (snd (loadFromFile ex_io (Some ex_semicolon_file) init_manager))
       = [\<lparr>cid = ''Krakow'', name = ''A'', address = ''B'', cvariant = PrivateCustomer ''Krakow''\<rparr>]"
    by code_simp
  have f: "customer_list (snd (loadFromFile ex_io (Some ex_semicolon_file) init_manager))
       \<noteq> customer_list ex_semicolon"
    unfolding b e by (simp add: ex_semicolon_customer_def)
  from r a b c d e f show ?thesis by blast
qed

text \<open>
  Claim C8, amended. For every reachable state that is \<open>storable\<close> (every vehicle and
  customer passes the checks of its constructor; no string field is empty or holds the
  separator or a line break; registrations and customer ids are unique; every number is
  read back as written: each \<^verbatim>\<open>double\<close> is written as a field that \<^verbatim>\<open>stod\<close> reads to the same
  value, each integer is a 32-bit \<^verbatim>\<open>int\<close>, each collection has fewer than \<open>2^31\<close> entries; no
  history line holds a line break), saving succeeds and loading the saved file into a
  fresh manager returns normally with the same vehicles, the same customers and the same
  active rentals by field equality and in the same order, and the same history lines.
\<close>

theorem save_load_roundtrip:
  assumes "reachable io s" "storable io s"
  shows "\<exists>f s'. saveToFile io True s = Inr f
    \<and> loadFromFile io (Some f) init_manager = (Inr (), s')
    \<and> vehicle_list s' = vehicle_list s \<and> customer_list s' = customer_list s
    \<and> rental_list s' = rental_list s \<and> rentalHistory s' = rentalHistory s"
proof -
  from assms(1) have w: "wf s" by (rule reachable_wf)
  note st = assms(2)
  obtain f where f: "saveToFile io True s = Inr f" by (simp add: saveToFile_def)
  let ?vl = "map (\<lambda>v. join_fields (vehicle_fields io v)) (vehicle_list s)"
  let ?cl = "map (\<lambda>c. join_fields (customer_fields c)) (customer_list s)"
  let ?rl = "map (\<lambda>r. join_fields (rental_fields s r)) (rentals s)"
  let ?l3 = "put_nat (length (rentalHistory s)) # rentalHistory s"
  let ?l2 = "put_nat (length (rentals s)) # ?rl @ ?l3"
  let ?l1 = "put_nat (length (customers s)) # ?cl @ ?l2"
  have lines: "file_lines f = put_nat (length (vehicles s)) # ?vl @ ?l1"
    by (rule saved_lines[OF w st f])
  from st have len: "length ?vl < 2147483648" "length ?cl < 2147483648" "length ?rl < 2147483648"
    "length (rentalHistory s) < 2147483648"
    by (simp_all add: storable_iff vehicle_list_def customer_list_def)
  have t1: "take_section (file_lines f) = Inr (?vl, ?l1)"
    using take_section_counted[OF len(1), of ?l1] by (simp add: lines vehicle_list_def)
  have t2: "take_section ?l1 = Inr (?cl, ?l2)"
    using take_section_counted[OF len(2), of ?l2] by (simp add: customer_list_def)
  have t3: "take_section ?l2 = Inr (?rl, ?l3)"
    using take_section_counted[OF len(3), of ?l3] by simp
  have t4: "take_section ?l3 = Inr (rentalHistory s, [])"
    using take_section_counted[OF len(4), of "[]"] by simp
  define s1 where "s1 = foldl push_new_vehicle init_manager (vehicle_list s)"
  define s2 where "s2 = foldl push_new_customer s1 (customer_list s)"
  define s3 where "s3 = foldl replay_rental s2 ?rl"
  have vs: "\<And>v. v \<in> set (vehicle_list s) \<Longrightarrow> vehicle_storable io v"
    using st by (auto simp: storable_iff vehicle_list_def)
  have cs: "\<And>c. c \<in> set (customer_list s) \<Longrightarrow> customer_storable c"
    using st by (auto simp: storable_iff customer_list_def)
  have e1: "foldl (load_vehicle_line io) init_manager ?vl = s1"
    unfolding s1_def by (rule foldl_load_vehicle_lines[OF vs])
  have e2: "foldl load_customer_line s1 ?cl = s2"
    unfolding s2_def by (rule foldl_load_customer_lines[OF cs])
  have init: "vehicle_list init_manager = []" "customer_list init_manager = []"
    "rentals init_manager = []"
    by (simp_all add: vehicle_list_def customer_list_def init_manager_def)
  from foldl_push_vehicles[OF wf_init, of "vehicle_list s"]
  have p1: "wf s1" "vehicle_list s1 = vehicle_list s" "customer_list s1 = []" "rentals s1 = []"
    by (simp_all add: s1_def init)
  from foldl_push_customers[OF p1(1), of "customer_list s"]
  have p2: "wf s2" "vehicle_list s2 = vehicle_list s" "customer_list s2 = customer_list s"
    "rentals s2 = []"
    by (simp_all add: s2_def p1)
  have "rental_reg s ` set (rentals s) \<inter> rental_reg s2 ` set (rentals s2) = {}"
    by (simp add: p2(4))
  from replay_all[OF w st p2(1,2,3) subset_refl wf_distinct_regs[OF w] this]
  have p3: "vehicle_list s3 = vehicle_list s" "customer_list s3 = customer_list s"
    "rental_list s3 = rental_list s"
    by (simp_all add: s3_def rental_list_def[of s2] p2(4)) (simp add: rental_list_def)
  have "load_phases io (file_lines f) init_manager = (Inr (), s3\<lparr>rentalHistory := rentalHistory s\<rparr>)"
    by (simp add: load_phases_def clear_existing_init t1 t2 t3 t4 e1 e2 s3_def Let_def)
  then have l: "loadFromFile io (Some f) init_manager = (Inr (), s3\<lparr>rentalHistory := rentalHistory s\<rparr>)"
    by (simp only: loadFromFile_load_phases)
  from f l p3 show ?thesis
    by (intro exI[of _ f] exI[of _ "s3\<lparr>rentalHistory := rentalHistory s\<rparr>"])
       (simp add: views_history_update)
qed

text \<open>The theorem on the small fleet with its car rented, and the file it writes.\<close>

theorem save_load_roundtrip_witness:
  "reachable ex_io ex_rented \<and> storable ex_io ex_rented
   \<and> saveToFile ex_io True ex_rented
       = Inr ''1\<newline>CombustionCar;Fiat;Panda;KR12345;100;1200;5.5;0;1;1000;4\<newline>1\<newline>PrivateCustomer;Jan Kowalski;Krakow;ABC123\<newline>1\<newline>KR12345;ABC123;2024-01-01;2024-01-04\<newline>0\<newline>''
   \<and> (\<exists>f s'. saveToFile ex_io True ex_rented = Inr f
        \<and> loadFromFile ex_io (Some f) init_manager = (Inr (), s')
        \<and> vehicle_list s' = vehicle_list ex_rented \<and> customer_list s' = customer_list ex_rented
        \<and> rental_list s' = rental_list ex_rented \<and> rentalHistory s' = rentalHistory ex_rented)
   \<and> vehicle_list ex_rented = [ex_car] \<and> customer_list ex_rented = [ex_customer]
   \<and> rental_list ex_rented = [(ex_car, ex_customer, ''2024-01-01'', ''2024-01-04'')]"
proof -
  have st1: "list_all (\<lambda>p. vehicle_storable ex_io (vobj ex_rented p)) (vehicles ex_rented)"
    by code_simp
  have st2: "list_all (\<lambda>p. customer_storable (cobj ex_rented p)) (customers ex_rented)"
    by code_simp
  have st3: "distinct (map (\<lambda>p. regNumber (vobj ex_rented p)) (vehicles ex_rented))
     \<and> distinct (map (\<lambda>p. cid (cobj ex_rented p)) (customers ex_rented))
     \<and> list_all (\<lambda>h. newline \<notin> set h) (rentalHistory ex_rented)"
    by code_simp
  have st4: "length (vehicles ex_rented) = 1 \<and> length (customers ex_rented) = 1
     \<and> length (rentals ex_rented) = 1 \<and> length (rentalHistory ex_rented) = 0"
    by code_simp
  have st: "storable ex_io ex_rented" using st1 st2 st3 st4 by (simp add: storable_def)
  have f: "saveToFile ex_io True ex_rented
       = Inr ''1\<newline>CombustionCar;Fiat;Panda;KR12345;100;1200;5.5;0;1;1000;4\<newline>1\<newline>PrivateCustomer;Jan Kowalski;Krakow;ABC123\<newline>1\<newline>KR12345;ABC123;2024-01-01;2024-01-04\<newline>0\<newline>''"
    by code_simp
  have v: "vehicle_list ex_rented = [ex_car]" "customer_list ex_rented = [ex_customer]"
    "rental_list ex_rented = [(ex_car, ex_customer, ''2024-01-01'', ''2024-01-04'')]"
    by code_simp+
  from save_load_roundtrip[OF ex_rented_reachable st] ex_rented_reachable st f v
  show ?thesis by blast
qed

end
